(* ===== verification/Prelude.thy ===== *)
theory Prelude
  imports Main "HOL-Library.Word" "HOL-Library.State_Monad"
begin

text \<open>
  Shared vocabulary of the development: the machine integers of the C sources, the errno
  values they return, kernel pointers with the \<open>IS_ERR\<close> convention, and the
  collections of automation rules the component theories add to.

  A C \<open>int\<close> that carries a status is an \<open>int\<close>: the modelled code only negates errno
  constants, compares with zero and passes statuses on, so its range is never an issue.
  Register values, offsets and counters keep their C width as words.
\<close>

unbundle bit_operations_syntax

type_synonym u8 = "8 word"
type_synonym u16 = "16 word"
type_synonym u32 = "32 word"
type_synonym u64 = "64 word"

text \<open>A kernel object is named by its address; 0 is \<open>NULL\<close>.\<close>

type_synonym ptr = u64

section \<open>Linux error numbers (include/uapi/asm-generic/errno*.h)\<close>

abbreviation ENOENT :: int where "ENOENT \<equiv> 2"
abbreviation EIO :: int where "EIO \<equiv> 5"
abbreviation ENOMEM :: int where "ENOMEM \<equiv> 12"
abbreviation EBUSY :: int where "EBUSY \<equiv> 16"
abbreviation ENODEV :: int where "ENODEV \<equiv> 19"
abbreviation EINVAL :: int where "EINVAL \<equiv> 22"
abbreviation ENOSYS :: int where "ENOSYS \<equiv> 38"
abbreviation ETIMEDOUT :: int where "ETIMEDOUT \<equiv> 110"
abbreviation ECANCELED :: int where "ECANCELED \<equiv> 125"

section \<open>Error pointers (include/linux/err.h)\<close>

text \<open>
  The top 4095 addresses encode negated error numbers. \<open>PTR_ERR\<close> reads such an address
  as a signed number.
\<close>

definition IS_ERR :: "ptr \<Rightarrow> bool" where
  "IS_ERR p \<longleftrightarrow> - 4095 \<le> p"

definition PTR_ERR :: "ptr \<Rightarrow> int" where
  "PTR_ERR p = sint p"

lemma IS_ERR_nonnull [simp]: "\<not> IS_ERR 0"
  by (simp add: IS_ERR_def)

lemma PTR_ERR_negative:
  assumes "IS_ERR p"
  shows "PTR_ERR p < 0"
proof (rule ccontr)
  assume "\<not> PTR_ERR p < 0"
  then have nonneg: "0 \<le> sint p" by (simp add: PTR_ERR_def)
  have "sint p < 2 ^ 63"
    using sint_lt [of p] by simp
  then have "uint p = sint p"
    using nonneg by (simp add: uint_sint take_bit_int_eq_self)
  with \<open>sint p < 2 ^ 63\<close> assms show False
    by (simp add: IS_ERR_def word_le_def)
qed

lemma PTR_ERR_nonzero: "IS_ERR p \<Longrightarrow> PTR_ERR p \<noteq> 0"
  using PTR_ERR_negative [of p] by simp

section \<open>Bits\<close>

text \<open>\<open>BIT(n)\<close> of include/linux/bits.h, and the all-ones value a dead bus reads back.\<close>

definition BIT :: "nat \<Rightarrow> u32" where
  "BIT n = push_bit n 1"

abbreviation all_ones :: u32 where
  "all_ones \<equiv> 0xffffffff"

lemma BIT_values [simp]: "BIT 8 = 0x100" "BIT 9 = 0x200" "BIT 28 = 0x10000000" "BIT 31 = 0x80000000"
  by (simp_all add: BIT_def)

section \<open>Collections of automation rules\<close>

named_theorems wp_rules \<open>introduction rules that run a program symbolically\<close>
named_theorems emits_rules \<open>introduction rules for which events a program can log\<close>
named_theorems inv_rules \<open>rules for invariants of a program\<close>
named_theorems prog_defs \<open>definitions of the one-call wrappers\<close>

end
