(* ===== verification/Machine.thy ===== *)
theory Machine
  imports Prelude
begin

text \<open>
  The machine the modules run on. Everything outside the repository (the kernel's API, the
  registers behind \<open>readl\<close>, the C library of the two user programs) is one parameter of the
  model, a \<^emph>\<open>kernel\<close>: a function from what has happened so far and the call being made
  to the response of that call. Nothing is assumed about it, so a theorem over all kernels
  covers every answer the real kernel and the real registers can give, including failures of
  every call; where a theorem needs documented behaviour, it is a hypothesis on the kernel.

  Every call is recorded with its response in the machine's \<open>trace\<close>, newest first. The trace
  is what the safety properties speak about. \<open>pr_info\<close> and \<open>pr_err\<close> print only and are left out.

  The kernel also calls back: config-space accesses, IRQ-domain operations, the probe of a
  platform driver. A response carries the list of callbacks the kernel runs before the call
  returns, so every sequence of callbacks is possible.
\<close>

section \<open>Calls, by kernel subsystem\<close>

text \<open>
  Memory-mapped I/O. A mapping made by \<open>ioremap\<close> is named by the physical address it maps: the
  code only ever adds an offset to the pointer and passes it to an accessor.
\<close>

datatype (plugins only: code) mmio_call =
    Readb u64 | Readw u64 | Readl u64 | Writew u64 u16 | Writel u64 u32
  | ReadlPollTimeout u64 u32 u32
  | Ioremap u64 u64 | Iounmap u64
  | RequestMemRegion u64 u64 | ReleaseMemRegion u64 u64

datatype (plugins only: code) time_call =
    Msleep u32 | MsleepInterruptible u32 | Udelay u32 | Jiffies | SignalPending

datatype (plugins only: code) regmap_call =
    RegmapRead ptr u32 | RegmapReadBypassed ptr u32 | RegmapWrite ptr u32 u32
  | RegmapUpdateBits ptr u32 u32 u32 | RegmapReadPollTimeout ptr u32 u32 u32

text \<open>Open Firmware (device tree).\<close>

datatype (plugins only: code) of_call =
    OfRootIsCompatible string | OfDeviceIsCompatible ptr string
  | OfFindNodeByPath string | OfFindNodeByPhandle u32
  | OfNodeGet ptr | OfNodePut ptr
  | OfFindDeviceByNode ptr | OfFindI2cDeviceByNode ptr
  | SysconNodeToRegmap ptr
  | NodePhandle ptr | NodeParent ptr
  | NodeIsDetached ptr | NodeSetPopulated ptr | NodeClearPopulated ptr
  | OfDetachNode ptr
  | OfAddressToResource ptr | ResourceStart ptr | ResourceSize ptr
  | OfPlatformDeviceCreate ptr string

text \<open>Changesets of the device tree; each of the three owners has its own.\<close>

datatype (plugins only: code) changeset = DartChanges | MapChanges | PciChanges

datatype (plugins only: code) prop_value = PropString string | PropStrings "string list" | PropU32 u32 | PropU32s "u32 list"

datatype (plugins only: code) changeset_call =
    ChangesetInit changeset | ChangesetDestroy changeset
  | ChangesetCreateNode changeset ptr string
  | ChangesetAddProp changeset ptr string prop_value
  | ChangesetAttachLast changeset
  | ChangesetApply changeset | ChangesetRevert changeset

datatype (plugins only: code) device_call =
    DeviceLock ptr | DeviceUnlock ptr | PutDevice ptr
  | DevDriver ptr | DevDriverNameIs ptr string | DevGetRegmap ptr | DevOfNode ptr
  | PdevSetOfNode ptr ptr | DevSetOfNode ptr ptr | DevSetDmaMask ptr u64
  | I2cClientAddr ptr
  | PlatformDeviceRegisterSimple string u32 | PlatformDeviceUnregister ptr
  | PlatformDeviceAlloc string | PlatformDeviceAddData ptr | PlatformDeviceAdd ptr
  | PlatformDevicePut ptr
  | PlatformDriverRegister string | PlatformDriverUnregister string
  | RootDeviceRegister string | RootDeviceUnregister ptr
  | DeviceSetDriverOverride ptr string | DeviceAttach ptr | DeviceReleaseDriver ptr
  | DevGetByName string | NetdevParentIs ptr ptr | NetdevPut ptr

datatype (plugins only: code) pm_call =
    OfGenpdAddDevice ptr ptr | PmGenpdRemoveDevice ptr
  | PmRuntimeEnable ptr | PmRuntimeDisable ptr
  | PmRuntimeResumeAndGet ptr | PmRuntimePutSyncSuspend ptr

datatype (plugins only: code) gpio_call =
    GpiodAddLookupTable ptr ptr | GpiodRemoveLookupTable
  | GpiodGet ptr string | GpiodDirectionOutputRaw ptr u32 | GpiodPut ptr

datatype (plugins only: code) irq_call =
    IrqFindMatchingFwspec ptr "u32 list" | IrqFindMapping ptr u64
  | IrqDomainAllocNamedFwnode string | IrqDomainFreeFwnode ptr
  | MutexInit | MutexLock | MutexUnlock
  | MsiCreateParentIrqDomain ptr ptr u32 | IrqDomainRemove ptr
  | IrqDomainAllocIrqs ptr u32 | IrqDomainFreeIrqs u32 u32
  | IrqDomainGetIrqData ptr u32 | IrqDataParent ptr | IrqDataHwirq ptr
  | IrqDomainAllocIrqsParent ptr u32 u32 "u32 list" | IrqDomainFreeIrqsParent ptr u32 u32
  | IrqDomainSetHwirqAndChip ptr u32 u64 | IrqDomainResetIrqData ptr
  | IrqChipEoiParent ptr
  | BitmapFindFreeRegion u64 u32 u32

datatype (plugins only: code) iommu_call =
    IommuGetDomainForDev ptr | DomainType ptr
  | ApertureStart ptr | ApertureEnd ptr
  | IommuIovaToPhys ptr u64
  | IommuGetResvRegions ptr | IommuPutResvRegions ptr
  | AllocPage | FreePage ptr | PageToPhys ptr
  | DmaMapPage ptr ptr | DmaMappingError ptr u64 | DmaUnmapPage ptr u64
  | PfnValid u64 | ReadOnceEntry u64

datatype (plugins only: code) pci_call =
    PciFindBus u32 u32 | PciDomainNr ptr | PciGetSlot ptr u32 | PciDevPut ptr
  | PciAllocHostBridge | PciFreeHostBridge ptr
  | BridgeConfigure ptr ptr ptr
  | PciAddResource ptr string | PciAddResourceOffset ptr string u64
  | RequestResource string | ReleaseResource string
  | PciScanRootBusBridge ptr | BridgeBus ptr
  | PciBusSizeBridges ptr | PciBusAssignResources ptr
  | PciWalkBus ptr | PciStopRootBus ptr | PciRemoveRootBus ptr
  | PciBusAddDevice ptr | PciClearMaster ptr
  | PciAllocIrqVectors ptr u32 u32 | PciFreeIrqVectors ptr | PciIrqVector ptr u32

text \<open>System calls of the freestanding runner and C library calls of the paging check.\<close>

datatype (plugins only: code) user_call =
    Syscall3 u64 u64 u64 u64
  | Sysconf | Mmap u64 | Madvise u64 u64 | Munmap u64 u64
  | Memset u64 u8 u64 | LoadByte u64 | Perror string | Puts string | Fflush | Sleep u32

datatype (plugins only: code) call =
    Mmio mmio_call | Time time_call | Regmap regmap_call | Of of_call
  | Cs changeset_call | Dev device_call | Pm pm_call | Gpio gpio_call
  | Irq irq_call | Iommu iommu_call | Pci pci_call | User user_call

section \<open>Callbacks and responses\<close>

record presource =
  pr_parent :: bool
  pr_mem :: bool
  pr_unset :: bool
  pr_start :: u64
  pr_end :: u64

record pci_dev =
  pd_ptr :: ptr
  pd_bus :: u32
  pd_devfn :: u32
  pd_vendor :: u16
  pd_device :: u16
  pd_class :: u32
  pd_bar0 :: presource
  pd_bar2 :: presource

datatype (plugins only: code) callback =
    CfgRead u32 u32 int int
  | CfgWrite u32 u32 int int u32
  | MsiAlloc u32 u32
  | MsiFree u32 u32
  | MsiEoi ptr
  | MapProbe ptr
  | Identify pci_dev
  | ResvRegion u64 u64 bool

text \<open>
  A response: the C return value of an \<open>int\<close> function, a value (register contents, a pointer, a
  value passed back through an argument), and the callbacks run meanwhile. A call uses the parts
  its C prototype has.
\<close>

datatype (plugins only: code) resp = Resp (r_ret: int) (r_val: u64) (r_cbs: "callback list")

datatype (plugins only: code) event =
    Call call resp
  | CallbackResult callback int u32

type_synonym kernel = "event list \<Rightarrow> call \<Rightarrow> resp"

section \<open>Driver structures that callbacks share\<close>

text \<open>
  \<open>struct a1625_msi\<close> (a1625_msi.h) and \<open>struct a1625_scan\<close> (a1625_pci_scan.h) live on a stack frame
  but are reached by callbacks through \<open>host_data\<close> and \<open>sysdata\<close>, so they are part of the state.
  \<open>ms_used\<close> is the slot bitmap, \<open>ms_aic\<close> and \<open>ms_params\<close> the interrupt specifier.
\<close>

record msi_state =
  ms_domain :: ptr
  ms_aic :: ptr
  ms_fwnode :: ptr
  ms_params :: "u32 list"
  ms_used :: u64
  ms_delivered :: "u32 list"

text \<open>
  The C array \<open>controls[26]\<close> with its counter \<open>nr_controls\<close> is the list of the saved entries;
  storing at \<open>controls[nr_controls++]\<close> appends. That the array never overflows is proved.
\<close>

record scan_control =
  sc_where :: u16
  sc_bus :: u8
  sc_size :: u8
  sc_saved :: u32
  sc_mask :: u32

record pci_scan =
  ps_rc :: u64
  ps_ep :: u64
  ps_rejected :: bool
  ps_devices :: u32
  ps_controls :: "scan_control list"
  ps_require_iommu :: bool
  ps_msi_domain :: ptr
  ps_msi_cap :: int
  ps_msi_64 :: bool
  ps_assign_memory :: bool
  ps_bind_firmware :: bool
  ps_firmware_active :: bool
  ps_hold_seconds :: u32
  ps_hold_until_signal :: bool

text \<open>
  The machine: the trace, the two file-scope variables that a1625_pcie_domains.c sets for nested
  callbacks, the two shared structures, and the platform data \<open>result\<close> of the mapping client.
  \<open>out_of_fuel\<close> marks a run that is still inside the one loop of the code that may not end.
\<close>

record machine =
  trace :: "event list"
  v_scan_dart :: ptr
  v_scan_msi_domain :: ptr
  the_msi :: msi_state
  the_scan :: pci_scan
  map_result :: int
  out_of_fuel :: bool

section \<open>Programs\<close>

type_synonym 'a prog = "(machine, 'a) state"

abbreviation return :: "'a \<Rightarrow> 'a prog" where
  "return \<equiv> State_Monad.return"

definition kcall :: "kernel \<Rightarrow> call \<Rightarrow> resp prog" where
  "kcall K c = State (\<lambda>s. let r = K (trace s) c in (r, s\<lparr>trace := Call c r # trace s\<rparr>))"

definition log_result :: "callback \<Rightarrow> int \<Rightarrow> u32 \<Rightarrow> unit prog" where
  "log_result cb r v = State (\<lambda>s. ((), s\<lparr>trace := CallbackResult cb r v # trace s\<rparr>))"

definition get_machine :: "machine prog" where
  "get_machine = State (\<lambda>s. (s, s))"

definition upd_machine :: "(machine \<Rightarrow> machine) \<Rightarrow> unit prog" where
  "upd_machine f = State (\<lambda>s. ((), f s))"

text \<open>The four shapes of a call: no result, a C status, a value, a truth value.\<close>

definition do_call :: "kernel \<Rightarrow> call \<Rightarrow> unit prog" where
  "do_call K c = do { _ \<leftarrow> kcall K c; return () }"

definition int_call :: "kernel \<Rightarrow> call \<Rightarrow> int prog" where
  "int_call K c = do { r \<leftarrow> kcall K c; return (r_ret r) }"

definition val_call :: "kernel \<Rightarrow> call \<Rightarrow> u64 prog" where
  "val_call K c = do { r \<leftarrow> kcall K c; return (r_val r) }"

definition u32_call :: "kernel \<Rightarrow> call \<Rightarrow> u32 prog" where
  "u32_call K c = do { r \<leftarrow> kcall K c; return (ucast (r_val r)) }"

definition bool_call :: "kernel \<Rightarrow> call \<Rightarrow> bool prog" where
  "bool_call K c = do { r \<leftarrow> kcall K c; return (r_val r \<noteq> 0) }"

text \<open>A status together with the value passed back through a pointer argument.\<close>

definition out_call :: "kernel \<Rightarrow> call \<Rightarrow> (int \<times> u32) prog" where
  "out_call K c = do { r \<leftarrow> kcall K c; return (r_ret r, ucast (r_val r)) }"

definition pwhen :: "bool \<Rightarrow> unit prog \<Rightarrow> unit prog" where
  "pwhen b m = (if b then m else return ())"

end
