(* ===== verification/Logic.thy ===== *)
theory Logic
  imports Machine
begin

text \<open>
  Reasoning about programs. \<open>wp m Q s\<close> says that running \<open>m\<close> from \<open>s\<close> ends with a result and a
  state that satisfy \<open>Q\<close>; its rules run a program symbolically, replacing the kernel's answer to
  each call by an arbitrary one. \<open>emits P m\<close> says that \<open>m\<close> only ever appends events that satisfy
  \<open>P\<close>, whatever the kernel answers; it composes without looking at states. Both have their rules
  in a collection (\<open>wp_rules\<close>, \<open>emits_rules\<close>) that the component theories extend.
\<close>

section \<open>Weakest preconditions\<close>

definition wp :: "'a prog \<Rightarrow> ('a \<Rightarrow> machine \<Rightarrow> bool) \<Rightarrow> machine \<Rightarrow> bool" where
  "wp m Q s = (case run_state m s of (r, s') \<Rightarrow> Q r s')"

lemma wp_run: "wp m Q s \<Longrightarrow> run_state m s = (r, s') \<Longrightarrow> Q r s'"
  by (simp add: wp_def)

lemma wpI_run: "(\<And>r s'. run_state m s = (r, s') \<Longrightarrow> Q r s') \<Longrightarrow> wp m Q s"
  by (cases "run_state m s") (simp add: wp_def)

lemma wp_mono: "wp m Q s \<Longrightarrow> (\<And>r s'. Q r s' \<Longrightarrow> R r s') \<Longrightarrow> wp m R s"
  by (simp add: wp_def split: prod.splits)

lemma wp_any: "(\<And>r s'. Q r s') \<Longrightarrow> wp m Q s"
  by (simp add: wp_def split: prod.splits)

lemma wp_conj: "wp m Q s \<Longrightarrow> wp m R s \<Longrightarrow> wp m (\<lambda>r s'. Q r s' \<and> R r s') s"
  by (simp add: wp_def split: prod.splits)

text \<open>
  The rules are tried in the order of their declaration. The first ones decide conditions that
  a preceding step has made literal, so that no impossible branch is followed.
\<close>

lemma wp_if_literal [wp_rules]:
  "wp n Q s \<Longrightarrow> wp (if False then m else n) Q s"
  "wp m Q s \<Longrightarrow> wp (if True then m else n) Q s"
  "wp m Q s \<Longrightarrow> wp (if \<not> False then m else n) Q s"
  "wp n Q s \<Longrightarrow> wp (if \<not> True then m else n) Q s"
  "wp n Q s \<Longrightarrow> wp (if (0 :: int) \<noteq> 0 then m else n) Q s"
  "wp m Q s \<Longrightarrow> wp (if (0 :: int) = 0 then m else n) Q s"
  "wp m Q s \<Longrightarrow> wp (if - numeral k \<noteq> (0 :: int) then m else n) Q s"
  "wp n Q s \<Longrightarrow> wp (if (0 :: u64) \<noteq> 0 then m else n) Q s"
  "wp m Q s \<Longrightarrow> wp (if (0 :: u64) = 0 then m else n) Q s"
  by simp_all

lemma wp_case_pair [wp_rules]: "wp (f a b) Q s \<Longrightarrow> wp (case (a, b) of (x, y) \<Rightarrow> f x y) Q s"
  by simp

lemma wp_bind [wp_rules]: "wp m (\<lambda>x. wp (f x) Q) s \<Longrightarrow> wp (State_Monad.bind m f) Q s"
  by (simp add: wp_def split: prod.splits)

lemma wp_return [wp_rules]: "Q x s \<Longrightarrow> wp (return x) Q s"
  by (simp add: wp_def)

lemma wp_kcall [wp_rules]:
  "(\<And>r. Q r (s\<lparr>trace := Call c r # trace s\<rparr>)) \<Longrightarrow> wp (kcall K c) Q s"
  by (simp add: wp_def kcall_def Let_def)

lemma wp_log_result [wp_rules]:
  "Q () (s\<lparr>trace := CallbackResult cb r v # trace s\<rparr>) \<Longrightarrow> wp (log_result cb r v) Q s"
  by (simp add: wp_def log_result_def)

lemma wp_get_machine [wp_rules]: "Q s s \<Longrightarrow> wp get_machine Q s"
  by (simp add: wp_def get_machine_def)

lemma wp_upd_machine [wp_rules]: "Q () (f s) \<Longrightarrow> wp (upd_machine f) Q s"
  by (simp add: wp_def upd_machine_def)

lemma wp_do_call [wp_rules]:
  "(\<And>r. Q () (s\<lparr>trace := Call c r # trace s\<rparr>)) \<Longrightarrow> wp (do_call K c) Q s"
  unfolding do_call_def by (intro wp_rules)

lemma wp_int_call [wp_rules]:
  "(\<And>r. Q (r_ret r) (s\<lparr>trace := Call c r # trace s\<rparr>)) \<Longrightarrow> wp (int_call K c) Q s"
  unfolding int_call_def by (intro wp_rules)

lemma wp_val_call [wp_rules]:
  "(\<And>r. Q (r_val r) (s\<lparr>trace := Call c r # trace s\<rparr>)) \<Longrightarrow> wp (val_call K c) Q s"
  unfolding val_call_def by (intro wp_rules)

lemma wp_u32_call [wp_rules]:
  "(\<And>r. Q (ucast (r_val r)) (s\<lparr>trace := Call c r # trace s\<rparr>)) \<Longrightarrow> wp (u32_call K c) Q s"
  unfolding u32_call_def by (intro wp_rules)

lemma wp_bool_call [wp_rules]:
  "(\<And>r. Q (r_val r \<noteq> 0) (s\<lparr>trace := Call c r # trace s\<rparr>)) \<Longrightarrow> wp (bool_call K c) Q s"
  unfolding bool_call_def by (intro wp_rules)

lemma wp_out_call [wp_rules]:
  "(\<And>r. Q (r_ret r, ucast (r_val r)) (s\<lparr>trace := Call c r # trace s\<rparr>)) \<Longrightarrow> wp (out_call K c) Q s"
  unfolding out_call_def by (intro wp_rules)

lemma wp_if [wp_rules]:
  "(b \<Longrightarrow> wp m Q s) \<Longrightarrow> (\<not> b \<Longrightarrow> wp n Q s) \<Longrightarrow> wp (if b then m else n) Q s"
  by simp

lemma wp_pwhen [wp_rules]:
  "(b \<Longrightarrow> wp m Q s) \<Longrightarrow> (\<not> b \<Longrightarrow> Q () s) \<Longrightarrow> wp (pwhen b m) Q s"
  by (simp add: pwhen_def wp_return)

lemma wp_let [wp_rules]: "wp (f x) Q s \<Longrightarrow> wp (let y = x in f y) Q s"
  by simp

lemma wp_case_prod [wp_rules]:
  "(\<And>a b. p = (a, b) \<Longrightarrow> wp (f a b) Q s) \<Longrightarrow> wp (case p of (a, b) \<Rightarrow> f a b) Q s"
  by (cases p) simp

lemma wp_case_option [wp_rules]:
  "(x = None \<Longrightarrow> wp m Q s) \<Longrightarrow> (\<And>y. x = Some y \<Longrightarrow> wp (f y) Q s)
   \<Longrightarrow> wp (case x of None \<Rightarrow> m | Some y \<Rightarrow> f y) Q s"
  by (cases x) auto

text \<open>
  \<open>checked P f\<close> runs the client \<open>f\<close> only in a state whose trace satisfies \<open>P\<close>. A stage that
  behaves the same with the checked client calls it only in such states.
\<close>

definition checked :: "(event list \<Rightarrow> bool) \<Rightarrow> int prog \<Rightarrow> int prog" where
  "checked P m = do { s \<leftarrow> get_machine; if P (trace s) then m else return (- EINVAL) }"

lemma run_checked: "P (trace s) \<Longrightarrow> run_state (checked P m) s = run_state m s"
  by (simp add: checked_def get_machine_def)

text \<open>Two continuations that agree wherever the first part can end.\<close>

lemma run_bind_cong:
  assumes "wp m P s" and "\<And>r s'. P r s' \<Longrightarrow> run_state (f r) s' = run_state (g r) s'"
  shows "run_state (State_Monad.bind m f) s = run_state (State_Monad.bind m g) s"
  using assms by (simp add: wp_def split: prod.splits)

lemma run_bind_left:
  "run_state m s = run_state n s \<Longrightarrow> run_state (State_Monad.bind m f) s = run_state (State_Monad.bind n f) s"
  by simp

lemma run_bind_right:
  "(\<And>r s'. run_state (f r) s' = run_state (g r) s')
   \<Longrightarrow> run_state (State_Monad.bind m f) s = run_state (State_Monad.bind m g) s"
  by (simp split: prod.splits)

lemma run_if_cong:
  "(b \<Longrightarrow> run_state m s = run_state m' s) \<Longrightarrow> (\<not> b \<Longrightarrow> run_state n s = run_state n' s)
   \<Longrightarrow> run_state (if b then m else n) s = run_state (if b then m' else n') s"
  by simp

lemma run_case_prod_cong:
  "(\<And>a b. p = (a, b) \<Longrightarrow> run_state (f a b) s = run_state (g a b) s)
   \<Longrightarrow> run_state (case p of (a, b) \<Rightarrow> f a b) s = run_state (case p of (a, b) \<Rightarrow> g a b) s"
  by (cases p) simp

lemmas run_cong = run_case_prod_cong run_if_cong

lemma prog_eqI: "(\<And>s. run_state m s = run_state n s) \<Longrightarrow> m = (n :: 'a prog)"
  by (cases m; cases n) (auto simp: fun_eq_iff)

section \<open>The events a program may log\<close>

definition emits :: "(event \<Rightarrow> bool) \<Rightarrow> 'a prog \<Rightarrow> bool" where
  "emits P m \<longleftrightarrow> (\<forall>s. wp m (\<lambda>_ s'. \<exists>new. trace s' = new @ trace s \<and> list_all P new) s)"

lemma emits_wp: "emits P m \<Longrightarrow> wp m (\<lambda>_ s'. \<exists>new. trace s' = new @ trace s \<and> list_all P new) s"
  by (simp add: emits_def)

text \<open>Running a program of which only the events are known.\<close>

lemma wp_frame:
  assumes "emits P m"
    and "\<And>r new (s' :: machine). list_all P new \<Longrightarrow> trace s' = new @ trace s \<Longrightarrow> Q r s'"
  shows "wp m Q s"
  by (rule wp_mono [OF emits_wp [OF assms(1)]]) (auto intro: assms(2))

lemma emits_mono: "emits P m \<Longrightarrow> (\<And>e. P e \<Longrightarrow> R e) \<Longrightarrow> emits R m"
  unfolding emits_def wp_def by (force simp: list_all_iff split: prod.splits)

lemma emits_bind [emits_rules]:
  assumes "emits P m" and "\<And>x. emits P (f x)"
  shows "emits P (State_Monad.bind m f)"
proof (unfold emits_def, intro allI wp_rules)
  fix s
  show "wp m (\<lambda>x. wp (f x) (\<lambda>_ s'. \<exists>new. trace s' = new @ trace s \<and> list_all P new)) s"
  proof (rule wp_mono [OF emits_wp [OF assms(1)]])
    fix x and s1 :: machine assume "\<exists>new. trace s1 = new @ trace s \<and> list_all P new"
    then obtain n1 where n1: "trace s1 = n1 @ trace s" "list_all P n1" by blast
    show "wp (f x) (\<lambda>_ s'. \<exists>new. trace s' = new @ trace s \<and> list_all P new) s1"
    proof (rule wp_mono [OF emits_wp [OF assms(2)]])
      fix s2 :: machine assume "\<exists>new. trace s2 = new @ trace s1 \<and> list_all P new"
      with n1 show "\<exists>new. trace s2 = new @ trace s \<and> list_all P new"
        by (metis append.assoc list_all_append)
    qed
  qed
qed

lemma emits_return [emits_rules]: "emits P (return x)"
  by (simp add: emits_def wp_def)

lemma emits_kcall [emits_rules]: "(\<And>r. P (Call c r)) \<Longrightarrow> emits P (kcall K c)"
  by (simp add: emits_def wp_def kcall_def Let_def)

lemma emits_log_result [emits_rules]: "P (CallbackResult cb r v) \<Longrightarrow> emits P (log_result cb r v)"
  by (simp add: emits_def wp_def log_result_def)

lemma emits_get_machine [emits_rules]: "emits P get_machine"
  by (simp add: emits_def wp_def get_machine_def)

lemma emits_upd_machine [emits_rules]: "(\<And>s. trace (f s) = trace s) \<Longrightarrow> emits P (upd_machine f)"
  by (simp add: emits_def wp_def upd_machine_def)

lemma emits_do_call [emits_rules]: "(\<And>r. P (Call c r)) \<Longrightarrow> emits P (do_call K c)"
  and emits_int_call [emits_rules]: "(\<And>r. P (Call c r)) \<Longrightarrow> emits P (int_call K c)"
  and emits_val_call [emits_rules]: "(\<And>r. P (Call c r)) \<Longrightarrow> emits P (val_call K c)"
  and emits_u32_call [emits_rules]: "(\<And>r. P (Call c r)) \<Longrightarrow> emits P (u32_call K c)"
  and emits_bool_call [emits_rules]: "(\<And>r. P (Call c r)) \<Longrightarrow> emits P (bool_call K c)"
  and emits_out_call [emits_rules]: "(\<And>r. P (Call c r)) \<Longrightarrow> emits P (out_call K c)"
  unfolding do_call_def int_call_def val_call_def u32_call_def bool_call_def out_call_def
  by (intro emits_rules; assumption)+

lemma emits_if [emits_rules]:
  "(b \<Longrightarrow> emits P m) \<Longrightarrow> (\<not> b \<Longrightarrow> emits P n) \<Longrightarrow> emits P (if b then m else n)"
  by simp

lemma emits_pwhen [emits_rules]: "(b \<Longrightarrow> emits P m) \<Longrightarrow> emits P (pwhen b m)"
  by (simp add: pwhen_def emits_return)

lemma emits_let [emits_rules]: "emits P (f x) \<Longrightarrow> emits P (let y = x in f y)"
  by simp

lemma emits_case_prod [emits_rules]:
  "(\<And>a b. p = (a, b) \<Longrightarrow> emits P (f a b)) \<Longrightarrow> emits P (case p of (a, b) \<Rightarrow> f a b)"
  by (cases p) simp

lemma emits_case_option [emits_rules]:
  "(x = None \<Longrightarrow> emits P m) \<Longrightarrow> (\<And>y. x = Some y \<Longrightarrow> emits P (f y))
   \<Longrightarrow> emits P (case x of None \<Rightarrow> m | Some y \<Rightarrow> f y)"
  by (cases x) auto

section \<open>Invariants\<close>

text \<open>
  \<open>maintains I m\<close> says that \<open>m\<close> takes every state that satisfies \<open>I\<close> to one that does, whatever the
  kernel answers. Its rules (\<open>inv_rules\<close>) leave one obligation per call.
\<close>

definition maintains :: "(machine \<Rightarrow> bool) \<Rightarrow> 'a prog \<Rightarrow> bool" where
  "maintains I m \<longleftrightarrow> (\<forall>s. I s \<longrightarrow> wp m (\<lambda>_. I) s)"

lemma maintainsI: "(\<And>s. I s \<Longrightarrow> wp m (\<lambda>_. I) s) \<Longrightarrow> maintains I m"
  by (simp add: maintains_def)

lemma maintains_run: "maintains I m \<Longrightarrow> run_state m s = (r, s') \<Longrightarrow> I s \<Longrightarrow> I s'"
  unfolding maintains_def using wp_run by fast

lemma wp_maintains:
  assumes "maintains I m" and "I s" and "\<And>r s'. I s' \<Longrightarrow> Q r s'"
  shows "wp m Q s"
  using assms wp_mono unfolding maintains_def by blast

lemma maintains_bind [inv_rules]:
  assumes "maintains I m" and "\<And>x. maintains I (f x)"
  shows "maintains I (State_Monad.bind m f)"
  by (intro maintainsI wp_rules wp_maintains [OF assms(1)] wp_maintains [OF assms(2)])

lemma maintains_return [inv_rules]: "maintains I (return x)"
  by (intro maintainsI wp_rules)

lemma maintains_get_machine [inv_rules]: "maintains I get_machine"
  by (intro maintainsI wp_rules)

lemma maintains_upd_machine [inv_rules]: "(\<And>s. I s \<Longrightarrow> I (f s)) \<Longrightarrow> maintains I (upd_machine f)"
  by (intro maintainsI wp_rules)

lemma maintains_log_result [inv_rules]:
  "(\<And>s. I s \<Longrightarrow> I (s\<lparr>trace := CallbackResult cb r v # trace s\<rparr>)) \<Longrightarrow> maintains I (log_result cb r v)"
  by (intro maintainsI wp_rules)

lemma maintains_kcall [inv_rules]:
  "(\<And>s r. I s \<Longrightarrow> I (s\<lparr>trace := Call c r # trace s\<rparr>)) \<Longrightarrow> maintains I (kcall K c)"
  by (intro maintainsI wp_rules)

lemma maintains_do_call [inv_rules]: "(\<And>s r. I s \<Longrightarrow> I (s\<lparr>trace := Call c r # trace s\<rparr>)) \<Longrightarrow> maintains I (do_call K c)"
  and maintains_int_call [inv_rules]: "(\<And>s r. I s \<Longrightarrow> I (s\<lparr>trace := Call c r # trace s\<rparr>)) \<Longrightarrow> maintains I (int_call K c)"
  and maintains_val_call [inv_rules]: "(\<And>s r. I s \<Longrightarrow> I (s\<lparr>trace := Call c r # trace s\<rparr>)) \<Longrightarrow> maintains I (val_call K c)"
  and maintains_u32_call [inv_rules]: "(\<And>s r. I s \<Longrightarrow> I (s\<lparr>trace := Call c r # trace s\<rparr>)) \<Longrightarrow> maintains I (u32_call K c)"
  and maintains_bool_call [inv_rules]: "(\<And>s r. I s \<Longrightarrow> I (s\<lparr>trace := Call c r # trace s\<rparr>)) \<Longrightarrow> maintains I (bool_call K c)"
  and maintains_out_call [inv_rules]: "(\<And>s r. I s \<Longrightarrow> I (s\<lparr>trace := Call c r # trace s\<rparr>)) \<Longrightarrow> maintains I (out_call K c)"
  unfolding do_call_def int_call_def val_call_def u32_call_def bool_call_def out_call_def
  by (intro inv_rules; assumption)+

lemma maintains_if [inv_rules]:
  "(b \<Longrightarrow> maintains I m) \<Longrightarrow> (\<not> b \<Longrightarrow> maintains I n) \<Longrightarrow> maintains I (if b then m else n)"
  by simp

lemma maintains_pwhen [inv_rules]: "(b \<Longrightarrow> maintains I m) \<Longrightarrow> maintains I (pwhen b m)"
  by (simp add: pwhen_def maintains_return)

lemma maintains_let [inv_rules]: "maintains I (f x) \<Longrightarrow> maintains I (let y = x in f y)"
  by simp

lemma maintains_case_prod [inv_rules]:
  "(\<And>a b. p = (a, b) \<Longrightarrow> maintains I (f a b)) \<Longrightarrow> maintains I (case p of (a, b) \<Rightarrow> f a b)"
  by (cases p) simp

lemma maintains_case_option [inv_rules]:
  "(x = None \<Longrightarrow> maintains I m) \<Longrightarrow> (\<And>y. x = Some y \<Longrightarrow> maintains I (f y))
   \<Longrightarrow> maintains I (case x of None \<Rightarrow> m | Some y \<Rightarrow> f y)"
  by (cases x) auto

end
