(* ===== verification/Api.thy ===== *)
theory Api
  imports Logic
begin

text \<open>
  The kernel API under its own names. Each function is one call of the machine; its arguments
  and results are those of the C prototype, with an out-parameter returned beside the status.
  \<open>strings\<close>, object pointers and register numbers are passed through unchanged.
\<close>

section \<open>Memory-mapped I/O\<close>

definition readb :: "kernel \<Rightarrow> u64 \<Rightarrow> u32 prog" where
  "readb K a = do { v \<leftarrow> u32_call K (Mmio (Readb a)); return (v AND 0xff) }"
definition readw :: "kernel \<Rightarrow> u64 \<Rightarrow> u32 prog" where
  "readw K a = do { v \<leftarrow> u32_call K (Mmio (Readw a)); return (v AND 0xffff) }"
abbreviation readl :: "kernel \<Rightarrow> u64 \<Rightarrow> u32 prog" where
  "readl K a \<equiv> u32_call K (Mmio (Readl a))"
abbreviation writew :: "kernel \<Rightarrow> u32 \<Rightarrow> u64 \<Rightarrow> unit prog" where
  "writew K v a \<equiv> do_call K (Mmio (Writew a (ucast v)))"
abbreviation writel :: "kernel \<Rightarrow> u32 \<Rightarrow> u64 \<Rightarrow> unit prog" where
  "writel K v a \<equiv> do_call K (Mmio (Writel a v))"
abbreviation request_mem_region :: "kernel \<Rightarrow> u64 \<Rightarrow> u64 \<Rightarrow> bool prog" where
  "request_mem_region K base len \<equiv> bool_call K (Mmio (RequestMemRegion base len))"
abbreviation release_mem_region :: "kernel \<Rightarrow> u64 \<Rightarrow> u64 \<Rightarrow> unit prog" where
  "release_mem_region K base len \<equiv> do_call K (Mmio (ReleaseMemRegion base len))"

text \<open>A mapping is named by the address it maps, 0 is the failure.\<close>

definition ioremap :: "kernel \<Rightarrow> u64 \<Rightarrow> u64 \<Rightarrow> u64 prog" where
  "ioremap K base len = do {
     ok \<leftarrow> bool_call K (Mmio (Ioremap base len));
     return (if ok then base else 0)
   }"

abbreviation iounmap :: "kernel \<Rightarrow> u64 \<Rightarrow> unit prog" where
  "iounmap K base \<equiv> do_call K (Mmio (Iounmap base))"

section \<open>Time\<close>

abbreviation msleep :: "kernel \<Rightarrow> u32 \<Rightarrow> unit prog" where
  "msleep K ms \<equiv> do_call K (Time (Msleep ms))"
abbreviation msleep_interruptible :: "kernel \<Rightarrow> u32 \<Rightarrow> unit prog" where
  "msleep_interruptible K ms \<equiv> do_call K (Time (MsleepInterruptible ms))"
abbreviation udelay :: "kernel \<Rightarrow> u32 \<Rightarrow> unit prog" where
  "udelay K us \<equiv> do_call K (Time (Udelay us))"
abbreviation jiffies :: "kernel \<Rightarrow> u64 prog" where
  "jiffies K \<equiv> val_call K (Time Jiffies)"
abbreviation signal_pending :: "kernel \<Rightarrow> bool prog" where
  "signal_pending K \<equiv> bool_call K (Time SignalPending)"

section \<open>Regmap\<close>

abbreviation regmap_read :: "kernel \<Rightarrow> ptr \<Rightarrow> u32 \<Rightarrow> (int \<times> u32) prog" where
  "regmap_read K m reg \<equiv> out_call K (Regmap (RegmapRead m reg))"
abbreviation regmap_read_bypassed :: "kernel \<Rightarrow> ptr \<Rightarrow> u32 \<Rightarrow> (int \<times> u32) prog" where
  "regmap_read_bypassed K m reg \<equiv> out_call K (Regmap (RegmapReadBypassed m reg))"
abbreviation regmap_write :: "kernel \<Rightarrow> ptr \<Rightarrow> u32 \<Rightarrow> u32 \<Rightarrow> int prog" where
  "regmap_write K m reg v \<equiv> int_call K (Regmap (RegmapWrite m reg v))"
abbreviation regmap_update_bits :: "kernel \<Rightarrow> ptr \<Rightarrow> u32 \<Rightarrow> u32 \<Rightarrow> u32 \<Rightarrow> int prog" where
  "regmap_update_bits K m reg msk v \<equiv> int_call K (Regmap (RegmapUpdateBits m reg msk v))"

section \<open>Polling (include/linux/iopoll.h)\<close>

text \<open>
  The two polling macros read until their condition holds or the time is over, and judge the last
  value read; the machine's answer is that last value.
\<close>

definition readl_poll_timeout :: "kernel \<Rightarrow> u64 \<Rightarrow> (u32 \<Rightarrow> bool) \<Rightarrow> u32 \<Rightarrow> u32 \<Rightarrow> (int \<times> u32) prog" where
  "readl_poll_timeout K a cond sleep_us timeout_us = do {
     v \<leftarrow> u32_call K (Mmio (ReadlPollTimeout a sleep_us timeout_us));
     return (if cond v then 0 else - ETIMEDOUT, v)
   }"

definition regmap_read_poll_timeout ::
  "kernel \<Rightarrow> ptr \<Rightarrow> u32 \<Rightarrow> (u32 \<Rightarrow> bool) \<Rightarrow> u32 \<Rightarrow> u32 \<Rightarrow> (int \<times> u32) prog" where
  "regmap_read_poll_timeout K m reg cond sleep_us timeout_us = do {
     (r, v) \<leftarrow> out_call K (Regmap (RegmapReadPollTimeout m reg sleep_us timeout_us));
     return (if r \<noteq> 0 then r else if cond v then 0 else - ETIMEDOUT, v)
   }"

section \<open>Device tree\<close>

abbreviation of_device_is_compatible :: "kernel \<Rightarrow> ptr \<Rightarrow> string \<Rightarrow> bool prog" where
  "of_device_is_compatible K n c \<equiv> bool_call K (Of (OfDeviceIsCompatible n c))"
abbreviation of_find_node_by_path :: "kernel \<Rightarrow> string \<Rightarrow> ptr prog" where
  "of_find_node_by_path K path \<equiv> val_call K (Of (OfFindNodeByPath path))"
abbreviation of_find_node_by_phandle :: "kernel \<Rightarrow> u32 \<Rightarrow> ptr prog" where
  "of_find_node_by_phandle K h \<equiv> val_call K (Of (OfFindNodeByPhandle h))"
abbreviation of_node_put :: "kernel \<Rightarrow> ptr \<Rightarrow> unit prog" where
  "of_node_put K n \<equiv> do_call K (Of (OfNodePut n))"
abbreviation of_find_device_by_node :: "kernel \<Rightarrow> ptr \<Rightarrow> ptr prog" where
  "of_find_device_by_node K n \<equiv> val_call K (Of (OfFindDeviceByNode n))"
abbreviation of_find_i2c_device_by_node :: "kernel \<Rightarrow> ptr \<Rightarrow> ptr prog" where
  "of_find_i2c_device_by_node K n \<equiv> val_call K (Of (OfFindI2cDeviceByNode n))"
abbreviation syscon_node_to_regmap :: "kernel \<Rightarrow> ptr \<Rightarrow> ptr prog" where
  "syscon_node_to_regmap K n \<equiv> val_call K (Of (SysconNodeToRegmap n))"
abbreviation of_detach_node :: "kernel \<Rightarrow> ptr \<Rightarrow> int prog" where
  "of_detach_node K n \<equiv> int_call K (Of (OfDetachNode n))"

text \<open>\<open>of_node_get\<close> returns its argument.\<close>

definition of_node_get :: "kernel \<Rightarrow> ptr \<Rightarrow> ptr prog" where
  "of_node_get K n = do { do_call K (Of (OfNodeGet n)); return n }"

text \<open>
  The board test that guards every entry point: the device-tree root is both an
  \<open>apple,j42d\<close> and an \<open>apple,t7000\<close>; the second question is asked only if the first holds.
\<close>

definition is_j42d_t7000 :: "kernel \<Rightarrow> bool prog" where
  "is_j42d_t7000 K = do {
     j42d \<leftarrow> bool_call K (Of (OfRootIsCompatible ''apple,j42d''));
     if \<not> j42d then return False
     else bool_call K (Of (OfRootIsCompatible ''apple,t7000''))
   }"

section \<open>Devices, GPIO lines, runtime power management\<close>

abbreviation device_lock :: "kernel \<Rightarrow> ptr \<Rightarrow> unit prog" where
  "device_lock K d \<equiv> do_call K (Dev (DeviceLock d))"
abbreviation device_unlock :: "kernel \<Rightarrow> ptr \<Rightarrow> unit prog" where
  "device_unlock K d \<equiv> do_call K (Dev (DeviceUnlock d))"
abbreviation put_device :: "kernel \<Rightarrow> ptr \<Rightarrow> unit prog" where
  "put_device K d \<equiv> do_call K (Dev (PutDevice d))"
abbreviation dev_driver :: "kernel \<Rightarrow> ptr \<Rightarrow> bool prog" where
  "dev_driver K d \<equiv> bool_call K (Dev (DevDriver d))"
abbreviation dev_get_regmap :: "kernel \<Rightarrow> ptr \<Rightarrow> ptr prog" where
  "dev_get_regmap K d \<equiv> val_call K (Dev (DevGetRegmap d))"
abbreviation i2c_client_addr :: "kernel \<Rightarrow> ptr \<Rightarrow> u32 prog" where
  "i2c_client_addr K d \<equiv> u32_call K (Dev (I2cClientAddr d))"

abbreviation gpiod_get :: "kernel \<Rightarrow> ptr \<Rightarrow> string \<Rightarrow> ptr prog" where
  "gpiod_get K d con_id \<equiv> val_call K (Gpio (GpiodGet d con_id))"
abbreviation gpiod_direction_output_raw :: "kernel \<Rightarrow> ptr \<Rightarrow> u32 \<Rightarrow> int prog" where
  "gpiod_direction_output_raw K g v \<equiv> int_call K (Gpio (GpiodDirectionOutputRaw g v))"
abbreviation gpiod_put :: "kernel \<Rightarrow> ptr \<Rightarrow> unit prog" where
  "gpiod_put K g \<equiv> do_call K (Gpio (GpiodPut g))"

section \<open>Changesets of the device tree\<close>

abbreviation of_changeset_init :: "kernel \<Rightarrow> changeset \<Rightarrow> unit prog" where
  "of_changeset_init K cs \<equiv> do_call K (Cs (ChangesetInit cs))"
abbreviation of_changeset_destroy :: "kernel \<Rightarrow> changeset \<Rightarrow> unit prog" where
  "of_changeset_destroy K cs \<equiv> do_call K (Cs (ChangesetDestroy cs))"
abbreviation of_changeset_create_node :: "kernel \<Rightarrow> changeset \<Rightarrow> ptr \<Rightarrow> string \<Rightarrow> ptr prog" where
  "of_changeset_create_node K cs parent name \<equiv> val_call K (Cs (ChangesetCreateNode cs parent name))"
abbreviation of_changeset_add_prop :: "kernel \<Rightarrow> changeset \<Rightarrow> ptr \<Rightarrow> string \<Rightarrow> prop_value \<Rightarrow> int prog" where
  "of_changeset_add_prop K cs n name v \<equiv> int_call K (Cs (ChangesetAddProp cs n name v))"
abbreviation of_changeset_apply :: "kernel \<Rightarrow> changeset \<Rightarrow> int prog" where
  "of_changeset_apply K cs \<equiv> int_call K (Cs (ChangesetApply cs))"
abbreviation of_changeset_revert :: "kernel \<Rightarrow> changeset \<Rightarrow> int prog" where
  "of_changeset_revert K cs \<equiv> int_call K (Cs (ChangesetRevert cs))"
abbreviation set_populated :: "kernel \<Rightarrow> ptr \<Rightarrow> unit prog" where
  "set_populated K n \<equiv> do_call K (Of (NodeSetPopulated n))"
abbreviation clear_populated :: "kernel \<Rightarrow> ptr \<Rightarrow> unit prog" where
  "clear_populated K n \<equiv> do_call K (Of (NodeClearPopulated n))"
abbreviation node_is_detached :: "kernel \<Rightarrow> ptr \<Rightarrow> bool prog" where
  "node_is_detached K n \<equiv> bool_call K (Of (NodeIsDetached n))"
abbreviation node_phandle :: "kernel \<Rightarrow> ptr \<Rightarrow> u32 prog" where
  "node_phandle K n \<equiv> u32_call K (Of (NodePhandle n))"
abbreviation dev_of_node :: "kernel \<Rightarrow> ptr \<Rightarrow> ptr prog" where
  "dev_of_node K d \<equiv> val_call K (Dev (DevOfNode d))"
abbreviation node_parent :: "kernel \<Rightarrow> ptr \<Rightarrow> ptr prog" where
  "node_parent K n \<equiv> val_call K (Of (NodeParent n))"
abbreviation platform_device_unregister :: "kernel \<Rightarrow> ptr \<Rightarrow> unit prog" where
  "platform_device_unregister K d \<equiv> do_call K (Dev (PlatformDeviceUnregister d))"

section \<open>Rules for the composed operations\<close>

lemma wp_readl_poll_timeout [wp_rules]:
  "(\<And>r rc. (rc = 0 \<longleftrightarrow> cond (ucast (r_val r))) \<Longrightarrow>
      Q (rc, ucast (r_val r)) (s\<lparr>trace := Call (Mmio (ReadlPollTimeout a x y)) r # trace s\<rparr>))
   \<Longrightarrow> wp (readl_poll_timeout K a cond x y) Q s"
  unfolding readl_poll_timeout_def by (intro wp_rules) simp

lemma wp_regmap_read_poll_timeout [wp_rules]:
  "(\<And>r rc. (rc = 0 \<longleftrightarrow> r_ret r = 0 \<and> cond (ucast (r_val r))) \<Longrightarrow>
      Q (rc, ucast (r_val r)) (s\<lparr>trace := Call (Regmap (RegmapReadPollTimeout m reg x y)) r # trace s\<rparr>))
   \<Longrightarrow> wp (regmap_read_poll_timeout K m reg cond x y) Q s"
  unfolding regmap_read_poll_timeout_def by (intro wp_rules) simp_all

lemma emits_readl_poll_timeout [emits_rules]:
  "(\<And>r. P (Call (Mmio (ReadlPollTimeout a x y)) r)) \<Longrightarrow> emits P (readl_poll_timeout K a cond x y)"
  unfolding readl_poll_timeout_def by (intro emits_rules)

lemma emits_regmap_read_poll_timeout [emits_rules]:
  "(\<And>r. P (Call (Regmap (RegmapReadPollTimeout m reg x y)) r))
   \<Longrightarrow> emits P (regmap_read_poll_timeout K m reg cond x y)"
  unfolding regmap_read_poll_timeout_def by (intro emits_rules)

lemma wp_readb [wp_rules]:
  "(\<And>r. Q (ucast (r_val r) AND 0xff) (s\<lparr>trace := Call (Mmio (Readb a)) r # trace s\<rparr>)) \<Longrightarrow> wp (readb K a) Q s"
  unfolding readb_def by (intro wp_rules)

lemma wp_readw [wp_rules]:
  "(\<And>r. Q (ucast (r_val r) AND 0xffff) (s\<lparr>trace := Call (Mmio (Readw a)) r # trace s\<rparr>)) \<Longrightarrow> wp (readw K a) Q s"
  unfolding readw_def by (intro wp_rules)

lemma emits_readb [emits_rules]: "(\<And>r. P (Call (Mmio (Readb a)) r)) \<Longrightarrow> emits P (readb K a)"
  and emits_readw [emits_rules]: "(\<And>r. P (Call (Mmio (Readw a)) r)) \<Longrightarrow> emits P (readw K a)"
  unfolding readb_def readw_def by (intro emits_rules; assumption)+

lemma wp_of_node_get [wp_rules]:
  "(\<And>r. Q n (s\<lparr>trace := Call (Of (OfNodeGet n)) r # trace s\<rparr>)) \<Longrightarrow> wp (of_node_get K n) Q s"
  unfolding of_node_get_def by (intro wp_rules)

lemma emits_of_node_get [emits_rules]:
  "(\<And>r. P (Call (Of (OfNodeGet n)) r)) \<Longrightarrow> emits P (of_node_get K n)"
  unfolding of_node_get_def by (intro emits_rules)

lemma wp_ioremap [wp_rules]:
  "(\<And>r. r_val r = 0 \<Longrightarrow> Q 0 (s\<lparr>trace := Call (Mmio (Ioremap base len)) r # trace s\<rparr>))
   \<Longrightarrow> (\<And>r. r_val r \<noteq> 0 \<Longrightarrow> Q base (s\<lparr>trace := Call (Mmio (Ioremap base len)) r # trace s\<rparr>))
   \<Longrightarrow> wp (ioremap K base len) Q s"
  unfolding ioremap_def by (intro wp_rules) simp

lemma wp_ioremap_base: "wp (ioremap K base len) (\<lambda>r _. r = 0 \<or> r = base) s"
  by (intro wp_rules) simp_all

lemma emits_ioremap [emits_rules]:
  "(\<And>r. P (Call (Mmio (Ioremap base len)) r)) \<Longrightarrow> emits P (ioremap K base len)"
  unfolding ioremap_def by (intro emits_rules)

lemma emits_is_j42d_t7000 [emits_rules]:
  "(\<And>c r. P (Call (Of (OfRootIsCompatible c)) r)) \<Longrightarrow> emits P (is_j42d_t7000 K)"
  unfolding is_j42d_t7000_def by (intro emits_rules)

lemma maintains_readb [inv_rules]:
  "(\<And>s r. I s \<Longrightarrow> I (s\<lparr>trace := Call (Mmio (Readb a)) r # trace s\<rparr>)) \<Longrightarrow> maintains I (readb K a)"
  and maintains_readw [inv_rules]:
  "(\<And>s r. I s \<Longrightarrow> I (s\<lparr>trace := Call (Mmio (Readw a)) r # trace s\<rparr>)) \<Longrightarrow> maintains I (readw K a)"
  and maintains_ioremap [inv_rules]:
  "(\<And>s r. I s \<Longrightarrow> I (s\<lparr>trace := Call (Mmio (Ioremap a len)) r # trace s\<rparr>)) \<Longrightarrow> maintains I (ioremap K a len)"
  and maintains_of_node_get [inv_rules]:
  "(\<And>s r. I s \<Longrightarrow> I (s\<lparr>trace := Call (Of (OfNodeGet n)) r # trace s\<rparr>)) \<Longrightarrow> maintains I (of_node_get K n)"
  unfolding readb_def readw_def ioremap_def of_node_get_def by (intro inv_rules; assumption)+

end
