(* ===== verification/Ledger.thy ===== *)
theory Ledger
  imports Api
begin

text \<open>
  The resource ledger: which calls acquire a kernel resource and which give it back, and the
  count of what a trace still holds. \<open>balanced m\<close> says that a program leaves every count as it
  found it, on every path and for every kernel; \<open>balanced_on R m\<close> says so for the resources
  in \<open>R\<close>.
\<close>

section \<open>Resources\<close>

datatype (plugins only: code) resource =
    MemRegion u64 | Mapping u64
  | NodeRef ptr | DevRef ptr | DevLocked ptr
  | ChangesetLive changeset | ChangesetApplied changeset
  | PlatDev ptr | PlatDriver string | RootDev ptr | NetRef ptr
  | PmAttached ptr | PmEnabled ptr | PmUse ptr
  | LookupTable | GpioLine ptr
  | Fwnode ptr | Mutex | MsiDomain ptr | IrqNumber u32
  | ResvList ptr | Page ptr | DmaMapping u64
  | PciRef ptr | HostBridge ptr | Resource string | IrqVectors ptr

text \<open>A resource obtained as a pointer: nothing is held when the pointer is \<open>NULL\<close>.\<close>

definition unless_null :: "(ptr \<Rightarrow> resource) \<Rightarrow> ptr \<Rightarrow> resource option" where
  "unless_null f p = (if p = 0 then None else Some (f p))"

fun acq_mmio :: "mmio_call \<Rightarrow> resp \<Rightarrow> resource option" where
  "acq_mmio (RequestMemRegion b n) r = (if r_val r = 0 then None else Some (MemRegion b))"
| "acq_mmio (Ioremap b n) r = (if r_val r = 0 then None else Some (Mapping b))"
| "acq_mmio _ r = None"

fun rel_mmio :: "mmio_call \<Rightarrow> resource option" where
  "rel_mmio (ReleaseMemRegion b n) = Some (MemRegion b)"
| "rel_mmio (Iounmap b) = Some (Mapping b)"
| "rel_mmio _ = None"

fun acq_of :: "of_call \<Rightarrow> resp \<Rightarrow> resource option" where
  "acq_of (OfFindNodeByPath p) r = unless_null NodeRef (r_val r)"
| "acq_of (OfFindNodeByPhandle h) r = unless_null NodeRef (r_val r)"
| "acq_of (OfNodeGet n) r = unless_null NodeRef n"
| "acq_of (OfFindDeviceByNode n) r = unless_null DevRef (r_val r)"
| "acq_of (OfFindI2cDeviceByNode n) r = unless_null DevRef (r_val r)"
| "acq_of (OfPlatformDeviceCreate n s) r = unless_null PlatDev (r_val r)"
| "acq_of _ r = None"

fun rel_of :: "of_call \<Rightarrow> resource option" where
  "rel_of (OfNodePut n) = unless_null NodeRef n"
| "rel_of _ = None"

fun acq_cs :: "changeset_call \<Rightarrow> resp \<Rightarrow> resource option" where
  "acq_cs (ChangesetInit c) r = Some (ChangesetLive c)"
| "acq_cs (ChangesetCreateNode c p n) r = unless_null NodeRef (r_val r)"
| "acq_cs (ChangesetApply c) r = (if r_ret r = 0 then Some (ChangesetApplied c) else None)"
| "acq_cs _ r = None"

fun rel_cs :: "changeset_call \<Rightarrow> resource option" where
  "rel_cs (ChangesetDestroy c) = Some (ChangesetLive c)"
| "rel_cs (ChangesetRevert c) = Some (ChangesetApplied c)"
| "rel_cs _ = None"

text \<open>
  A platform device owns the node reference it is given (\<open>platform_device_release\<close> drops it), so
  setting its node hands the reference over.
\<close>

fun acq_dev :: "device_call \<Rightarrow> resp \<Rightarrow> resource option" where
  "acq_dev (DeviceLock d) r = Some (DevLocked d)"
| "acq_dev (PlatformDeviceRegisterSimple n i) r =
     (if IS_ERR (r_val r) then None else Some (PlatDev (r_val r)))"
| "acq_dev (PlatformDeviceAlloc n) r = unless_null PlatDev (r_val r)"
| "acq_dev (PlatformDriverRegister n) r = (if r_ret r = 0 then Some (PlatDriver n) else None)"
| "acq_dev (RootDeviceRegister n) r =
     (if IS_ERR (r_val r) then None else Some (RootDev (r_val r)))"
| "acq_dev (DevGetByName n) r = unless_null NetRef (r_val r)"
| "acq_dev _ r = None"

fun rel_dev :: "device_call \<Rightarrow> resource option" where
  "rel_dev (DeviceUnlock d) = Some (DevLocked d)"
| "rel_dev (PutDevice d) = Some (DevRef d)"
| "rel_dev (PlatformDeviceUnregister d) = Some (PlatDev d)"
| "rel_dev (PlatformDevicePut d) = Some (PlatDev d)"
| "rel_dev (PdevSetOfNode d n) = unless_null NodeRef n"
| "rel_dev (PlatformDriverUnregister n) = Some (PlatDriver n)"
| "rel_dev (RootDeviceUnregister d) = Some (RootDev d)"
| "rel_dev (NetdevPut d) = Some (NetRef d)"
| "rel_dev _ = None"

fun acq_pm :: "pm_call \<Rightarrow> resp \<Rightarrow> resource option" where
  "acq_pm (OfGenpdAddDevice n d) r = (if r_ret r = 0 then Some (PmAttached d) else None)"
| "acq_pm (PmRuntimeEnable d) r = Some (PmEnabled d)"
| "acq_pm (PmRuntimeResumeAndGet d) r = (if r_ret r < 0 then None else Some (PmUse d))"
| "acq_pm _ r = None"

fun rel_pm :: "pm_call \<Rightarrow> resp \<Rightarrow> resource option" where
  "rel_pm (PmGenpdRemoveDevice d) r = (if r_ret r = 0 then Some (PmAttached d) else None)"
| "rel_pm (PmRuntimeDisable d) r = Some (PmEnabled d)"
| "rel_pm (PmRuntimePutSyncSuspend d) r = Some (PmUse d)"
| "rel_pm _ r = None"

fun acq_gpio :: "gpio_call \<Rightarrow> resp \<Rightarrow> resource option" where
  "acq_gpio (GpiodAddLookupTable a b) r = Some LookupTable"
| "acq_gpio (GpiodGet d n) r =
     (if IS_ERR (r_val r) then None else unless_null GpioLine (r_val r))"
| "acq_gpio _ r = None"

fun rel_gpio :: "gpio_call \<Rightarrow> resource option" where
  "rel_gpio GpiodRemoveLookupTable = Some LookupTable"
| "rel_gpio (GpiodPut g) = Some (GpioLine g)"
| "rel_gpio _ = None"

text \<open>Linux never hands out interrupt number 0.\<close>

fun acq_irq :: "irq_call \<Rightarrow> resp \<Rightarrow> resource option" where
  "acq_irq (IrqDomainAllocNamedFwnode n) r = unless_null Fwnode (r_val r)"
| "acq_irq MutexLock r = Some Mutex"
| "acq_irq (MsiCreateParentIrqDomain f p n) r = unless_null MsiDomain (r_val r)"
| "acq_irq (IrqDomainAllocIrqs d n) r =
     (if r_ret r < 0 \<or> word_of_int (r_ret r) = (0 :: u32) then None
      else Some (IrqNumber (word_of_int (r_ret r))))"
| "acq_irq _ r = None"

fun rel_irq :: "irq_call \<Rightarrow> resource option" where
  "rel_irq (IrqDomainFreeFwnode f) = Some (Fwnode f)"
| "rel_irq MutexUnlock = Some Mutex"
| "rel_irq (IrqDomainRemove d) = Some (MsiDomain d)"
| "rel_irq (IrqDomainFreeIrqs i n) = (if i = 0 then None else Some (IrqNumber i))"
| "rel_irq _ = None"

text \<open>A mapping that \<open>dma_mapping_error\<close> reports as failed was never made.\<close>

fun acq_iommu :: "iommu_call \<Rightarrow> resp \<Rightarrow> resource option" where
  "acq_iommu (IommuGetResvRegions d) r = Some (ResvList d)"
| "acq_iommu AllocPage r = unless_null Page (r_val r)"
| "acq_iommu (DmaMapPage d p) r = Some (DmaMapping (r_val r))"
| "acq_iommu _ r = None"

fun rel_iommu :: "iommu_call \<Rightarrow> resp \<Rightarrow> resource option" where
  "rel_iommu (IommuPutResvRegions d) r = Some (ResvList d)"
| "rel_iommu (FreePage p) r = Some (Page p)"
| "rel_iommu (DmaMappingError d a) r = (if r_val r = 0 then None else Some (DmaMapping a))"
| "rel_iommu (DmaUnmapPage d a) r = Some (DmaMapping a)"
| "rel_iommu _ r = None"

fun acq_pci :: "pci_call \<Rightarrow> resp \<Rightarrow> resource option" where
  "acq_pci (PciGetSlot b d) r = unless_null PciRef (r_val r)"
| "acq_pci PciAllocHostBridge r = unless_null HostBridge (r_val r)"
| "acq_pci (RequestResource n) r = (if r_ret r = 0 then Some (Resource n) else None)"
| "acq_pci (PciAllocIrqVectors d a b) r = (if r_ret r < 0 then None else Some (IrqVectors d))"
| "acq_pci _ r = None"

fun rel_pci :: "pci_call \<Rightarrow> resource option" where
  "rel_pci (PciDevPut d) = Some (PciRef d)"
| "rel_pci (PciFreeHostBridge b) = Some (HostBridge b)"
| "rel_pci (ReleaseResource n) = Some (Resource n)"
| "rel_pci (PciFreeIrqVectors d) = Some (IrqVectors d)"
| "rel_pci _ = None"

fun acquires :: "event \<Rightarrow> resource option" where
  "acquires (Call (Mmio c) r) = acq_mmio c r"
| "acquires (Call (Of c) r) = acq_of c r"
| "acquires (Call (Cs c) r) = acq_cs c r"
| "acquires (Call (Dev c) r) = acq_dev c r"
| "acquires (Call (Pm c) r) = acq_pm c r"
| "acquires (Call (Gpio c) r) = acq_gpio c r"
| "acquires (Call (Irq c) r) = acq_irq c r"
| "acquires (Call (Iommu c) r) = acq_iommu c r"
| "acquires (Call (Pci c) r) = acq_pci c r"
| "acquires _ = None"

fun releases :: "event \<Rightarrow> resource option" where
  "releases (Call (Mmio c) r) = rel_mmio c"
| "releases (Call (Of c) r) = rel_of c"
| "releases (Call (Cs c) r) = rel_cs c"
| "releases (Call (Dev c) r) = rel_dev c"
| "releases (Call (Pm c) r) = rel_pm c r"
| "releases (Call (Gpio c) r) = rel_gpio c"
| "releases (Call (Irq c) r) = rel_irq c"
| "releases (Call (Iommu c) r) = rel_iommu c r"
| "releases (Call (Pci c) r) = rel_pci c"
| "releases _ = None"

section \<open>What a trace holds\<close>

definition unit_at :: "resource option \<Rightarrow> resource \<Rightarrow> int" where
  "unit_at o1 x = (if o1 = Some x then 1 else 0)"

fun held :: "event list \<Rightarrow> resource \<Rightarrow> int" where
  "held [] x = 0"
| "held (e # t) x = held t x + unit_at (acquires e) x - unit_at (releases e) x"

lemma unit_at_simps [simp]:
  "unit_at None x = 0"
  "unit_at (Some y) x = (if y = x then 1 else 0)"
  by (simp_all add: unit_at_def)

text \<open>
  \<open>keeps x m\<close>: on every path and for every kernel, \<open>m\<close> holds \<open>x\<close> afterwards as often as before.
\<close>

definition keeps :: "resource \<Rightarrow> 'a prog \<Rightarrow> bool" where
  "keeps x m \<longleftrightarrow> (\<forall>s. wp m (\<lambda>_ s'. held (trace s') x = held (trace s) x) s)"

lemma keepsI: "(\<And>s. wp m (\<lambda>_ s'. held (trace s') x = held (trace s) x) s) \<Longrightarrow> keeps x m"
  by (simp add: keeps_def)

lemma keeps_run: "keeps x m \<Longrightarrow> run_state m s = (r, s') \<Longrightarrow> held (trace s') x = held (trace s) x"
  unfolding keeps_def by (drule spec, drule (1) wp_run)

text \<open>Inside a symbolic run, of such a program only the count is remembered.\<close>

lemma wp_keeps:
  assumes "keeps x m"
    and "\<And>r (s' :: machine). held (trace s') x = held (trace s) x \<Longrightarrow> Q r s'"
  shows "wp m Q s"
  using assms wp_mono unfolding keeps_def by blast

lemma keeps_return: "keeps x (return v)"
  by (simp add: keeps_def wp_def)

lemma keeps_bind:
  assumes "keeps x m" "\<And>v. keeps x (f v)"
  shows "keeps x (State_Monad.bind m f)"
  by (rule keepsI, intro wp_rules, rule wp_keeps [OF assms(1)], rule wp_keeps [OF assms(2)]) simp

text \<open>Programs whose events neither acquire nor release.\<close>

definition neutral :: "event \<Rightarrow> bool" where
  "neutral e \<longleftrightarrow> acquires e = None \<and> releases e = None"

lemma held_append_neutral: "list_all neutral new \<Longrightarrow> held (new @ t) x = held t x"
  by (induction new) (auto simp: neutral_def)

lemma emits_neutral_keeps: "emits neutral m \<Longrightarrow> keeps x m"
  unfolding keeps_def
  by (intro allI, rule wp_mono [OF emits_wp]) (auto simp: held_append_neutral)

lemma wp_neutral:
  assumes "emits neutral m"
    and "\<And>r (s' :: machine). (\<And>x. held (trace s') x = held (trace s) x) \<Longrightarrow> Q r s'"
  shows "wp m Q s"
  by (rule wp_mono [OF emits_wp [OF assms(1)]]) (auto simp: held_append_neutral intro: assms(2))

lemma log_result_keeps: "keeps x (log_result cb r v)"
  by (rule emits_neutral_keeps, intro emits_rules) (simp add: neutral_def)

section \<open>Lifetimes\<close>

text \<open>
  Every stage of the probe is a bounded lifetime: it acquires, runs a client while it holds, and
  gives everything back. The contract: if the client leaves the count of a resource alone, so
  does the whole stage, except for the resources the stage may deliberately retain. \<open>client\<close>
  names the calls the stage makes to the client \<open>cb\<close>.
\<close>

locale lifetime =
  fixes stage :: "'cb \<Rightarrow> int prog"
    and client :: "'cb \<Rightarrow> 'arg \<Rightarrow> int prog"
    and retained :: "resource \<Rightarrow> bool"
  assumes stage_keeps:
    "\<not> retained x \<Longrightarrow> (\<And>a. keeps x (client cb a)) \<Longrightarrow> keeps x (stage cb)"
begin

lemma run_keeps:
  assumes "\<not> retained x" and "\<And>a. keeps x (client cb a)"
    and "run_state (stage cb) s = (r, s')"
  shows "held (trace s') x = held (trace s) x"
  by (rule keeps_run [OF stage_keeps [OF assms(1,2)] assms(3)])

text \<open>A client that only reads and writes registers cannot make the stage leak.\<close>

lemma neutral_client:
  assumes "\<And>a. emits neutral (client cb a)" and "\<not> retained x"
  shows "keeps x (stage cb)"
  by (rule stage_keeps [OF assms(2)]) (rule emits_neutral_keeps [OF assms(1)])

end

text \<open>Optional clients, as the C code passes them: \<open>NULL\<close> is never called.\<close>

definition client1 :: "('a \<Rightarrow> int prog) option \<Rightarrow> 'a \<Rightarrow> int prog" where
  "client1 f a = (case f of None \<Rightarrow> return 0 | Some g \<Rightarrow> g a)"

definition client2 :: "('a \<Rightarrow> 'b \<Rightarrow> int prog) option \<Rightarrow> 'a \<times> 'b \<Rightarrow> int prog" where
  "client2 f p = (case f of None \<Rightarrow> return 0 | Some g \<Rightarrow> g (fst p) (snd p))"

definition client3 :: "('a \<Rightarrow> 'b \<Rightarrow> 'c \<Rightarrow> int prog) option \<Rightarrow> 'a \<times> 'b \<times> 'c \<Rightarrow> int prog" where
  "client3 f p = (case f of None \<Rightarrow> return 0 | Some g \<Rightarrow> g (fst p) (fst (snd p)) (snd (snd p)))"

lemma client1_keeps: "(\<And>a. keeps x (client1 (Some g) a)) \<Longrightarrow> keeps x (g a)"
  by (simp add: client1_def)

lemma client2_keeps: "(\<And>p. keeps x (client2 (Some g) p)) \<Longrightarrow> keeps x (g a b)"
proof -
  assume "\<And>p. keeps x (client2 (Some g) p)"
  from this [of "(a, b)"] show ?thesis by (simp add: client2_def)
qed

lemma client3_keeps: "(\<And>p. keeps x (client3 (Some g) p)) \<Longrightarrow> keeps x (g a b c)"
proof -
  assume "\<And>p. keeps x (client3 (Some g) p)"
  from this [of "(a, b, c)"] show ?thesis by (simp add: client3_def)
qed

lemma is_j42d_t7000_neutral: "emits neutral (is_j42d_t7000 K)"
  by (intro emits_rules) (simp add: neutral_def)

lemma read_calls_neutral:
  "emits neutral (of_device_is_compatible K n c)"
  "emits neutral (dev_driver K d)"
  by (intro emits_rules, simp add: neutral_def)+

end
