(* ===== verification/RegisterFile.thy ===== *)
theory RegisterFile
  imports Ledger
begin

text \<open>
  What a trace says about hardware state. \<open>mmio_at init t a\<close> is the content of the 32-bit register
  at \<open>a\<close> if registers store what is written to them; \<open>register_file init A K\<close> is the hypothesis
  that the registers in \<open>A\<close> behave so on the kernel \<open>K\<close>. \<open>known_reg\<close> is hardware-independent:
  what the last access to a regmap register has established about it.
\<close>

section \<open>Registers that store what is written\<close>

definition put_low16 :: "u32 \<Rightarrow> u16 \<Rightarrow> u32" where
  "put_low16 w v = (w AND 0xffff0000) OR ucast v"

definition put_high16 :: "u32 \<Rightarrow> u16 \<Rightarrow> u32" where
  "put_high16 w v = (w AND 0x0000ffff) OR push_bit 16 (ucast v)"

fun mmio_at :: "(u64 \<Rightarrow> u32) \<Rightarrow> event list \<Rightarrow> u64 \<Rightarrow> u32" where
  "mmio_at init [] a = init a"
| "mmio_at init (e # t) a =
     (case e of
        Call (Mmio (Writel b v)) _ \<Rightarrow> if a = b then v else mmio_at init t a
      | Call (Mmio (Writew b v)) _ \<Rightarrow>
          if a = b then put_low16 (mmio_at init t a) v
          else if a + 2 = b then put_high16 (mmio_at init t a) v
          else mmio_at init t a
      | _ \<Rightarrow> mmio_at init t a)"

definition register_file :: "(u64 \<Rightarrow> u32) \<Rightarrow> (u64 \<Rightarrow> bool) \<Rightarrow> kernel \<Rightarrow> bool" where
  "register_file init A K \<longleftrightarrow>
     (\<forall>t a. A a \<longrightarrow> ucast (r_val (K t (Mmio (Readl a)))) = mmio_at init t a)"

lemma wp_readl_register_file:
  assumes "register_file init A K" and "A a"
    and "\<And>r. Q (mmio_at init (trace s) a) (s\<lparr>trace := Call (Mmio (Readl a)) r # trace s\<rparr>)"
  shows "wp (readl K a) Q s"
  using assms by (simp add: wp_def u32_call_def kcall_def Let_def register_file_def)

text \<open>Events that leave every memory-mapped register alone.\<close>

definition mmio_write :: "event \<Rightarrow> bool" where
  "mmio_write e = (case e of Call (Mmio (Writel _ _)) _ \<Rightarrow> True | Call (Mmio (Writew _ _)) _ \<Rightarrow> True | _ \<Rightarrow> False)"

lemma mmio_at_no_write: "\<not> mmio_write e \<Longrightarrow> mmio_at init (e # t) a = mmio_at init t a"
  by (auto simp: mmio_write_def split: event.splits call.splits mmio_call.splits)

text \<open>Writes that can change a register in \<open>A\<close>; a 16-bit write reaches the word it lies in.\<close>

definition writes_within :: "(u64 \<Rightarrow> bool) \<Rightarrow> event \<Rightarrow> bool" where
  "writes_within A e \<longleftrightarrow> (case e of
     Call (Mmio (Writel b _)) _ \<Rightarrow> A b
   | Call (Mmio (Writew b _)) _ \<Rightarrow> A b \<or> A (b - 2)
   | _ \<Rightarrow> False)"

lemma mmio_at_frame:
  assumes "list_all (\<lambda>e. \<not> writes_within A e) new" "A a"
  shows "mmio_at init (new @ t) a = mmio_at init t a"
  using assms
  by (induction new)
    (auto simp: writes_within_def algebra_simps split: event.splits call.splits mmio_call.splits)

lemma wp_no_write_within:
  assumes "emits (\<lambda>e. \<not> writes_within A e) m"
    and "\<And>r (s' :: machine). (\<And>a. A a \<Longrightarrow> mmio_at init (trace s') a = mmio_at init (trace s) a) \<Longrightarrow> Q r s'"
  shows "wp m Q s"
  by (rule wp_frame [OF assms(1)]) (auto simp: mmio_at_frame intro!: assms(2))

text \<open>The last value read from a register, whatever the hardware.\<close>

fun last_readl :: "u64 \<Rightarrow> event list \<Rightarrow> u32 option" where
  "last_readl a [] = None"
| "last_readl a (e # t) =
     (case e of
        Call (Mmio (Readl b)) r \<Rightarrow> if b = a then Some (ucast (r_val r)) else last_readl a t
      | _ \<Rightarrow> last_readl a t)"

section \<open>Changes of hardware state\<close>

text \<open>
  The calls that change a register, a GPIO line, a power state, the device tree or a driver's
  binding. A run without any of them has only looked.
\<close>

fun changes_hardware :: "event \<Rightarrow> bool" where
  "changes_hardware (Call (Mmio c) _) = (case c of Writew _ _ \<Rightarrow> True | Writel _ _ \<Rightarrow> True | _ \<Rightarrow> False)"
| "changes_hardware (Call (Regmap c) _) =
     (case c of RegmapWrite _ _ _ \<Rightarrow> True | RegmapUpdateBits _ _ _ _ \<Rightarrow> True | _ \<Rightarrow> False)"
| "changes_hardware (Call (Gpio c) _) = True"
| "changes_hardware (Call (Pm c) _) = True"
| "changes_hardware (Call (Cs c) _) = True"
| "changes_hardware (Call (Irq c) _) = True"
| "changes_hardware (Call (Pci c) _) = True"
| "changes_hardware (Call (Dev c) _) =
     (case c of PdevSetOfNode _ _ \<Rightarrow> True | DevSetOfNode _ _ \<Rightarrow> True | PlatformDeviceRegisterSimple _ _ \<Rightarrow> True
      | PlatformDeviceUnregister _ \<Rightarrow> True | PlatformDeviceAlloc _ \<Rightarrow> True | PlatformDeviceAdd _ \<Rightarrow> True
      | PlatformDriverRegister _ \<Rightarrow> True | PlatformDriverUnregister _ \<Rightarrow> True
      | RootDeviceRegister _ \<Rightarrow> True | RootDeviceUnregister _ \<Rightarrow> True
      | DeviceSetDriverOverride _ _ \<Rightarrow> True | DeviceAttach _ \<Rightarrow> True | DeviceReleaseDriver _ \<Rightarrow> True
      | _ \<Rightarrow> False)"
| "changes_hardware (Call (Of c) _) =
     (case c of NodeSetPopulated _ \<Rightarrow> True | NodeClearPopulated _ \<Rightarrow> True | OfDetachNode _ \<Rightarrow> True
      | OfPlatformDeviceCreate _ _ \<Rightarrow> True | _ \<Rightarrow> False)"
| "changes_hardware _ = False"

abbreviation read_only :: "event \<Rightarrow> bool" where
  "read_only e \<equiv> \<not> changes_hardware e"

section \<open>What is known of a regmap register\<close>

text \<open>
  A successful uncached read establishes the value; a write or an update leaves it unknown until
  it is read back. Driving the reset line changes its pin register \<open>4 * 77\<close>.
\<close>

abbreviation PMU_WL_REG_ON :: u32 where "PMU_WL_REG_ON \<equiv> 0x406"
abbreviation PIN_PERST :: u32 where "PIN_PERST \<equiv> 4 * 77"
abbreviation PIN_CLKREQ :: u32 where "PIN_CLKREQ \<equiv> 4 * 41"
abbreviation PIN_DEVICE_WAKE :: u32 where "PIN_DEVICE_WAKE \<equiv> 4 * 63"

fun known_reg :: "u32 \<Rightarrow> event list \<Rightarrow> u32 option" where
  "known_reg q [] = None"
| "known_reg q (e # t) =
     (case e of
        Call (Regmap (RegmapWrite m p v)) _ \<Rightarrow> if p = q then None else known_reg q t
      | Call (Regmap (RegmapUpdateBits m p k v)) _ \<Rightarrow> if p = q then None else known_reg q t
      | Call (Regmap (RegmapReadBypassed m p)) r \<Rightarrow>
          if p = q then (if r_ret r = 0 then Some (ucast (r_val r)) else None) else known_reg q t
      | Call (Gpio (GpiodDirectionOutputRaw g v)) _ \<Rightarrow>
          if q = PIN_PERST then None else known_reg q t
      | _ \<Rightarrow> known_reg q t)"

end
