(* ===== verification/Board.thy ===== *)
theory Board
  imports RegisterFile
begin

text \<open>
  The owned J42d board as a concrete kernel: register contents as recorded in
  windows-native/wifi/pmu-probe/README.md, registers that store what is written, and kernel calls
  that succeed. Every answer is computed from the trace, so a whole run of a modelled module
  evaluates. It shows that the hypotheses of the theorems can hold together; no theorem about
  all kernels depends on it.
\<close>

section \<open>Pins and the PMU\<close>

fun board_reg :: "event list \<Rightarrow> u32 \<Rightarrow> u32 option" where
  "board_reg [] q = None"
| "board_reg (e # t) q =
     (case e of
        Call (Regmap (RegmapWrite m p v)) _ \<Rightarrow> if p = q then Some v else board_reg t q
      | Call (Gpio (GpiodDirectionOutputRaw g v)) _ \<Rightarrow>
          if q = PIN_PERST then Some (if v = 0 then 0x76202 else 0x76203) else board_reg t q
      | _ \<Rightarrow> board_reg t q)"

definition reg_or :: "u32 \<Rightarrow> u32 option \<Rightarrow> u32" where
  "reg_or d v = (case v of None \<Rightarrow> d | Some x \<Rightarrow> x)"

text \<open>Power domain \<open>i\<close> is on while its consumer \<open>0x9000 + i\<close> is resumed; forcing clears AUTO.\<close>

fun domain_on :: "event list \<Rightarrow> ptr \<Rightarrow> bool" where
  "domain_on [] d = False"
| "domain_on (e # t) d =
     (case e of
        Call (Pm (PmRuntimeResumeAndGet x)) _ \<Rightarrow> if x = d then True else domain_on t d
      | Call (Pm (PmRuntimePutSyncSuspend x)) _ \<Rightarrow> if x = d then False else domain_on t d
      | _ \<Rightarrow> domain_on t d)"

fun domain_forced :: "event list \<Rightarrow> u32 \<Rightarrow> bool" where
  "domain_forced [] q = False"
| "domain_forced (e # t) q =
     (case e of
        Call (Regmap (RegmapUpdateBits m p k v)) _ \<Rightarrow> if p = q then v = 0 else domain_forced t q
      | _ \<Rightarrow> domain_forced t q)"

definition board_regmap_value :: "event list \<Rightarrow> u32 \<Rightarrow> u32" where
  "board_regmap_value t q =
     (if q = PMU_WL_REG_ON then reg_or 0 (board_reg t q)
      else if q = PIN_PERST then reg_or 0x76200 (board_reg t q)
      else if q = PIN_CLKREQ then (if board_reg t PMU_WL_REG_ON = Some 2 then 0x76220 else 0x76221)
      else if q = PIN_DEVICE_WAKE then 0x72202
      else if q = 0x20308 then
        (if domain_on t 0x9000 then (if domain_forced t q then 0x0f0002ff else 0x1f0002ff) else 0x0f000200)
      else if q = 0x20310 then (if domain_on t 0x9001 then 0x000002ff else 0x00000200)
      else if q = 0x20220 then
        (if domain_on t 0x9002 then (if domain_forced t q then 0x040002ff else 0x1400024f) else 0x04000200)
      else 0)"

section \<open>The kernel\<close>

definition ok :: resp where "ok = Resp 0 1 []"

definition value_resp :: "u64 \<Rightarrow> resp" where "value_resp v = Resp 0 v []"

fun board_regmap :: "event list \<Rightarrow> regmap_call \<Rightarrow> resp" where
  "board_regmap t (RegmapRead m q) = value_resp (ucast (board_regmap_value t q))"
| "board_regmap t (RegmapReadBypassed m q) = value_resp (ucast (board_regmap_value t q))"
| "board_regmap t (RegmapReadPollTimeout m q a b) = value_resp (ucast (board_regmap_value t q))"
| "board_regmap t _ = ok"

fun board_of :: "of_call \<Rightarrow> resp" where
  "board_of (OfFindNodeByPath p) =
     value_resp (if p \<in> {''/soc/iommu@602002000'', ''/soc/a1625-dart-map'', ''/soc/pcie@610000000''}
                 then 0 else 0x100)"
| "board_of (OfFindNodeByPhandle h) = value_resp 0"
| "board_of (ResourceStart n) = value_resp 0x602002000"
| "board_of (ResourceSize n) = value_resp 0x2000"
| "board_of (NodePhandle n) = value_resp 0xa1625001"
| "board_of _ = ok"

fun board_dev :: "device_call \<Rightarrow> resp" where
  "board_dev (I2cClientAddr d) = value_resp 0x74"
| "board_dev (DevDriver d) = value_resp (if d = 0xa100 \<or> d = 0xa200 then 0 else 1)"
| "board_dev (PlatformDeviceRegisterSimple n i) = value_resp (0x9000 OR ucast i)"
| "board_dev (PlatformDeviceAdd d) = Resp 0 1 [MapProbe d]"
| "board_dev _ = ok"

text \<open>One page of memory and one streaming mapping, at IOVA \<open>0x10000\<close>.\<close>

fun iova_mapped :: "event list \<Rightarrow> bool" where
  "iova_mapped [] = False"
| "iova_mapped (e # t) =
     (case e of
        Call (Iommu (DmaMapPage d p)) _ \<Rightarrow> True
      | Call (Iommu (DmaUnmapPage d a)) _ \<Rightarrow> False
      | _ \<Rightarrow> iova_mapped t)"

fun board_iommu :: "event list \<Rightarrow> iommu_call \<Rightarrow> resp" where
  "board_iommu t (DomainType d) = value_resp 3"
| "board_iommu t (ApertureStart d) = value_resp 0"
| "board_iommu t (ApertureEnd d) = value_resp 0xffffffff"
| "board_iommu t AllocPage = value_resp 0x5000"
| "board_iommu t (PageToPhys p) = value_resp 0x880005000"
| "board_iommu t (DmaMapPage d p) = value_resp 0x10000"
| "board_iommu t (DmaMappingError d a) = value_resp 0"
| "board_iommu t (IommuIovaToPhys d a) = value_resp (if iova_mapped t then 0x87fff5000 + a else 0)"
| "board_iommu t _ = ok"

text \<open>
  Initial register contents of the PCIe core, port 1, the DART and the two config pages with their
  capability lists: power management, PCI Express and L1 substates, and MSI at the radio.
\<close>

definition board_init :: "u64 \<Rightarrow> u32" where
  "board_init a =
     (if a = 0x600000180 then 0x11010100
      else if a = 0x600000188 then 0x100
      else if a = 0x602004088 then 0xc
      else if a = 0x602002000 then 0xf02
      else if a = 0x60200200c then 0x80
      else if a = 0x602002010 then 0x100
      else if a = 0x610008000 then 0x1002106b
      else if a = 0x610008008 then 0x06040001
      else if a = 0x610008034 then 0x40
      else if a = 0x610008040 then 0x7001
      else if a = 0x610008070 then 0x10
      else if a = 0x610008100 then 0x1001e
      else if a = 0x610100000 then 0x43a314e4
      else if a = 0x610100008 then 0x02800008
      else if a = 0x610100010 then 4
      else if a = 0x610100034 then 0x48
      else if a = 0x610100048 then 0x5801
      else if a = 0x610100058 then 0x80ac05
      else if a = 0x610100080 then 0x18003000
      else if a = 0x6101000ac then 0x10
      else if a = 0x610100100 then 0x14010001
      else if a = 0x610100140 then 0x1001e
      else 0)"

text \<open>A narrow read returns its lane of the 32-bit word.\<close>

definition board_lane :: "event list \<Rightarrow> u64 \<Rightarrow> u32" where
  "board_lane t a = drop_bit (8 * unat (a AND 3)) (mmio_at board_init t (a AND 0xfffffffffffffffc))"

fun board_mmio :: "event list \<Rightarrow> mmio_call \<Rightarrow> resp" where
  "board_mmio t (Readl a) = value_resp (ucast (mmio_at board_init t a))"
| "board_mmio t (Readw a) = value_resp (ucast (board_lane t a))"
| "board_mmio t (Readb a) = value_resp (ucast (board_lane t a))"
| "board_mmio t (ReadlPollTimeout a x y) = value_resp (ucast (mmio_at board_init t a OR 1))"
| "board_mmio t _ = ok"

text \<open>
  The PCI core: the scan of the root bus sizes a BAR and sets the bus numbers, the walk presents the
  two devices. No driver is bound to them.
\<close>

definition no_bar :: presource where
  "no_bar = \<lparr>pr_parent = False, pr_mem = False, pr_unset = True, pr_start = 0, pr_end = 0\<rparr>"

definition board_port :: pci_dev where
  "board_port = \<lparr>pd_ptr = 0xa100, pd_bus = 0, pd_devfn = 8, pd_vendor = 0x106b, pd_device = 0x1002,
     pd_class = 0x060400, pd_bar0 = no_bar, pd_bar2 = no_bar\<rparr>"

definition board_radio :: pci_dev where
  "board_radio = \<lparr>pd_ptr = 0xa200, pd_bus = 1, pd_devfn = 0, pd_vendor = 0x14e4, pd_device = 0x43a3,
     pd_class = 0x028000, pd_bar0 = no_bar, pd_bar2 = no_bar\<rparr>"

fun board_pci :: "pci_call \<Rightarrow> resp" where
  "board_pci (PciFindBus n b) = value_resp (if b = 0 then 0 else 0xb100)"
| "board_pci (PciScanRootBusBridge b) = Resp 0 0
     [CfgRead 0 8 0 4, CfgWrite 0 8 4 2 0, CfgWrite 1 0 0x10 4 0xffffffff, CfgRead 1 0 0x10 4,
      CfgWrite 1 0 0x10 4 4, CfgWrite 0 8 0x18 4 0x010100]"
| "board_pci (PciWalkBus b) = Resp 0 0 [Identify board_port, Identify board_radio]"
| "board_pci _ = ok"

text \<open>
  Interrupts: virtual numbers from 40 on; the data of number \<open>v\<close> is \<open>0x1000 + v\<close> and its parent data
  \<open>0x2000 + v\<close>, whose hardware numbers are \<open>8 + (v - 40)\<close> and \<open>0x10000 + 232 + (v - 40)\<close>. The next
  number is one more than that of the parent data looked at last.
\<close>

definition next_virq :: "event list \<Rightarrow> u64" where
  "next_virq t = (case t of Call (Irq (IrqDataHwirq data)) _ # _ \<Rightarrow> data - 0x2000 + 1 | _ \<Rightarrow> 40)"

definition board_hwirq :: "u64 \<Rightarrow> u64" where
  "board_hwirq data = (if data < 0x2000 then data - 0x1000 - 40 + 8 else 0x10000 + 232 + (data - 0x2000 - 40))"

definition first_free :: "u64 \<Rightarrow> int" where
  "first_free used =
     (if used AND 1 = 0 then 0 else if used AND 2 = 0 then 1 else if used AND 4 = 0 then 2
      else if used AND 8 = 0 then 3 else if used AND 16 = 0 then 4 else if used AND 32 = 0 then 5
      else if used AND 64 = 0 then 6 else if used AND 128 = 0 then 7 else - ENOMEM)"

fun board_irq :: "event list \<Rightarrow> irq_call \<Rightarrow> resp" where
  "board_irq t (IrqDomainAllocIrqs d n) =
     Resp (uint (next_virq t)) 0 [MsiAlloc (ucast (next_virq t)) n]"
| "board_irq t (IrqDomainFreeIrqs v n) = Resp 0 0 [MsiFree v n]"
| "board_irq t (IrqFindMapping d h) = value_resp 0"
| "board_irq t (IrqDomainGetIrqData d v) = value_resp (0x1000 + ucast v)"
| "board_irq t (IrqDataParent data) = value_resp (0x1000 + data)"
| "board_irq t (IrqDataHwirq data) = value_resp (board_hwirq data)"
| "board_irq t (BitmapFindFreeRegion used n order) =
     Resp (if order = 0 then first_free used else - ENOMEM) 0 []"
| "board_irq t _ = ok"

definition board :: kernel where
  "board t c =
     (case c of Mmio m \<Rightarrow> board_mmio t m | Regmap m \<Rightarrow> board_regmap t m | Of m \<Rightarrow> board_of m
      | Dev m \<Rightarrow> board_dev m
      | Iommu m \<Rightarrow> board_iommu t m | Irq m \<Rightarrow> board_irq t m | Pci m \<Rightarrow> board_pci m | _ \<Rightarrow> ok)"

lemma ucast_ucast_u32: "(ucast (ucast (x :: u32) :: u64) :: u32) = x"
  by (rule ucast_down_ucast_id) (simp add: is_down)

lemma board_register_file: "register_file board_init (\<lambda>_. True) board"
  by (simp add: register_file_def board_def value_resp_def ucast_ucast_u32)

text \<open>The module starts with an empty trace and cleared variables.\<close>

definition no_msi :: msi_state where
  "no_msi = \<lparr>ms_domain = 0, ms_aic = 0, ms_fwnode = 0, ms_params = [], ms_used = 0, ms_delivered = []\<rparr>"

definition no_scan :: pci_scan where
  "no_scan = \<lparr>ps_rc = 0, ps_ep = 0, ps_rejected = False, ps_devices = 0, ps_controls = [],
     ps_require_iommu = False, ps_msi_domain = 0, ps_msi_cap = 0, ps_msi_64 = False,
     ps_assign_memory = False, ps_bind_firmware = False, ps_firmware_active = False,
     ps_hold_seconds = 0, ps_hold_until_signal = False\<rparr>"

definition boot :: machine where
  "boot = \<lparr>trace = [], v_scan_dart = 0, v_scan_msi_domain = 0, the_msi = no_msi, the_scan = no_scan,
     map_result = 0, out_of_fuel = False\<rparr>"

section \<open>Running a program on the board\<close>

text \<open>
  \<open>run_simps\<close> evaluates a program on a concrete kernel step by step; a response is computed
  before the program goes on, so that the trace stays in normal form.
\<close>

named_theorems run_simps \<open>equations that evaluate a program on a concrete kernel\<close>

lemma run_kcall [run_simps]:
  "run_state (kcall K c) s =
     (case K (trace s) c of Resp a v cb \<Rightarrow> (Resp a v cb, s\<lparr>trace := Call c (Resp a v cb) # trace s\<rparr>))"
  by (simp add: kcall_def Let_def split: resp.split)

lemma run_split: "fst (run_state m s) = r \<Longrightarrow> run_state m s = (r, snd (run_state m s))"
  by (cases "run_state m s") simp

lemma run_unit: "run_state m s = ((), snd (run_state m s))"
  by (cases "run_state m s") simp

lemma run_log_result [run_simps]:
  "run_state (log_result cb r v) s = ((), s\<lparr>trace := CallbackResult cb r v # trace s\<rparr>)"
  by (simp add: log_result_def)

lemma run_machine [run_simps]:
  "run_state get_machine s = (s, s)" "run_state (upd_machine f) s = ((), f s)"
  by (simp_all add: get_machine_def upd_machine_def)

lemma boot_fields [simp]:
  "trace boot = []" "v_scan_dart boot = 0" "v_scan_msi_domain boot = 0" "the_msi boot = no_msi"
  "the_scan boot = no_scan" "\<not> out_of_fuel boot"
  by (simp_all add: boot_def)

lemma not_IS_ERR [run_simps]: "\<not> IS_ERR 1" "\<not> IS_ERR 0x9000" "\<not> IS_ERR 0x9001" "\<not> IS_ERR 0x9002"
  by (simp_all add: IS_ERR_def word_le_def)

lemmas [run_simps] = Let_def board_def ok_def value_resp_def board_regmap_value_def reg_or_def first_free_def next_virq_def board_hwirq_def board_init_def board_lane_def board_port_def board_radio_def no_bar_def
  do_call_def int_call_def val_call_def u32_call_def bool_call_def out_call_def pwhen_def
  ioremap_def readb_def readw_def of_node_get_def readl_poll_timeout_def regmap_read_poll_timeout_def is_j42d_t7000_def put_low16_def put_high16_def

end
