(* ===== verification/Msi.thy ===== *)
theory Msi
  imports Board
begin

text \<open>
  a1625_msi.h: eight message-signalled interrupts of port 1 on top of the AIC. The first half is the
  interrupt-domain driver the kernel calls back (allocation and release of slots, composition of a
  message, end of interrupt); the second half is the bounded lifetime that creates the domain,
  enables the port, checks all eight messages and hands the domain to a client.

  Slot \<open>s\<close> is hardware interrupt \<open>8 + s\<close> here and \<open>232 + s\<close> at the AIC.
\<close>

section \<open>The slot bitmap\<close>

text \<open>
  \<open>bitmap_find_free_region\<close> and \<open>bitmap_release_region\<close> of the kernel: the first chooses a region,
  which is its answer, and marks it; the second clears it. A pool of slots in the abstract:
\<close>

locale slot_pool =
  fixes take give :: "'p \<Rightarrow> nat \<Rightarrow> nat \<Rightarrow> 'p"
    and busy :: "'p \<Rightarrow> nat set"
  assumes busy_take: "slot + count \<le> 8 \<Longrightarrow> busy (take p slot count) = busy p \<union> {slot..<slot + count}"
    and busy_give: "slot + count \<le> 8 \<Longrightarrow> busy (give p slot count) = busy p - {slot..<slot + count}"
    and busy_inject: "busy p = busy q \<Longrightarrow> p = q"
begin

text \<open>Giving back what was free before restores the pool; distinct regions do not interfere.\<close>

lemma give_take:
  assumes "slot + count \<le> 8" "busy p \<inter> {slot..<slot + count} = {}"
  shows "give (take p slot count) slot count = p"
  by (rule busy_inject) (use assms in \<open>auto simp: busy_take busy_give\<close>)

lemma give_other:
  assumes "a + m \<le> 8" "b + n \<le> 8" "{a..<a + m} \<inter> {b..<b + n} = {}"
  shows "give (take p a m) b n = take (give p b n) a m"
  by (rule busy_inject) (use assms in \<open>auto simp: busy_take busy_give\<close>)

lemma give_pieces:
  assumes "slot + Suc count \<le> 8"
  shows "give (give p slot 1) (Suc slot) count = give p slot (Suc count)"
  by (rule busy_inject) (use assms in \<open>auto simp: busy_give\<close>)

end

definition take_region :: "u64 \<Rightarrow> nat \<Rightarrow> nat \<Rightarrow> u64" where
  "take_region used slot count = used OR push_bit slot (mask count)"

definition give_region :: "u64 \<Rightarrow> nat \<Rightarrow> nat \<Rightarrow> u64" where
  "give_region used slot count = used AND NOT (push_bit slot (mask count))"

definition busy_slots :: "u64 \<Rightarrow> nat set" where
  "busy_slots used = {i. bit used i}"

interpretation bitmap: slot_pool take_region give_region busy_slots
proof unfold_locales
  fix p q :: u64
  show "busy_slots p = busy_slots q \<Longrightarrow> p = q"
    by (auto simp: busy_slots_def set_eq_iff intro: bit_word_eqI)
  fix slot count :: nat
  assume "slot + count \<le> 8"
  then show "busy_slots (take_region p slot count) = busy_slots p \<union> {slot..<slot + count}"
    "busy_slots (give_region p slot count) = busy_slots p - {slot..<slot + count}"
    by (auto simp: busy_slots_def take_region_def give_region_def bit_simps dest: bit_imp_le_length)
qed

section \<open>The interrupt domain\<close>

definition is_power_of_2 :: "u32 \<Rightarrow> bool" where
  "is_power_of_2 n \<longleftrightarrow> n \<noteq> 0 \<and> n AND (n - 1) = 0"

text \<open>\<open>order_base_2\<close> of include/linux/log2.h, for the counts the driver accepts.\<close>

definition order_base_2 :: "u32 \<Rightarrow> u32" where
  "order_base_2 n = (if n \<le> 1 then 0 else if n \<le> 2 then 1 else if n \<le> 4 then 2 else 3)"

abbreviation mutex_lock :: "kernel \<Rightarrow> unit prog" where
  "mutex_lock K \<equiv> do_call K (Irq MutexLock)"
abbreviation mutex_unlock :: "kernel \<Rightarrow> unit prog" where
  "mutex_unlock K \<equiv> do_call K (Irq MutexUnlock)"

definition set_used :: "(u64 \<Rightarrow> u64) \<Rightarrow> unit prog" where
  "set_used f = upd_machine (\<lambda>s. s\<lparr>the_msi := (the_msi s)\<lparr>ms_used := f (ms_used (the_msi s))\<rparr>\<rparr>)"

fun set_hwirqs :: "kernel \<Rightarrow> ptr \<Rightarrow> u32 \<Rightarrow> u64 \<Rightarrow> nat \<Rightarrow> unit prog" where
  "set_hwirqs K domain virq hwirq 0 = return ()"
| "set_hwirqs K domain virq hwirq (Suc n) = do {
     do_call K (Irq (IrqDomainSetHwirqAndChip domain virq hwirq));
     set_hwirqs K domain (virq + 1) (hwirq + 1) n
   }"

definition a1625_msi_alloc :: "kernel \<Rightarrow> u32 \<Rightarrow> u32 \<Rightarrow> int prog" where
  "a1625_msi_alloc K virq count =
     (if count = 0 \<or> 8 < count \<or> \<not> is_power_of_2 count then return (- EINVAL) else do {
      mutex_lock K;
      s \<leftarrow> get_machine;
      slot \<leftarrow> int_call K (Irq (BitmapFindFreeRegion (ms_used (the_msi s)) 8 (order_base_2 count)));
      pwhen (0 \<le> slot) (set_used (\<lambda>used. take_region used (nat slot) (unat count)));
      mutex_unlock K;
      if slot < 0 then return slot else do {
      r \<leftarrow> int_call K (Irq (IrqDomainAllocIrqsParent (ms_domain (the_msi s)) virq count
             ((ms_params (the_msi s))[1 := 232 + word_of_int slot])));
      if r \<noteq> 0 then do {
        mutex_lock K;
        set_used (\<lambda>used. give_region used (nat slot) (unat count));
        mutex_unlock K;
        return r
      } else do {
        set_hwirqs K (ms_domain (the_msi s)) virq (8 + word_of_int slot) (unat count);
        return 0
      }}
      })"

text \<open>
  \<open>clear_bit(data->hwirq - 8, &msi->used)\<close>: a number outside the one bitmap word would be a write
  to other memory; for the interrupts of this domain it is one of 0 to 7.
\<close>

fun free_slots :: "kernel \<Rightarrow> ptr \<Rightarrow> u32 \<Rightarrow> nat \<Rightarrow> unit prog" where
  "free_slots K domain virq 0 = return ()"
| "free_slots K domain virq (Suc n) = do {
     data \<leftarrow> val_call K (Irq (IrqDomainGetIrqData domain virq));
     mutex_lock K;
     hwirq \<leftarrow> val_call K (Irq (IrqDataHwirq data));
     set_used (\<lambda>used. give_region used (unat (hwirq - 8)) 1);
     mutex_unlock K;
     free_slots K domain (virq + 1) n
   }"

fun reset_irq_data :: "kernel \<Rightarrow> ptr \<Rightarrow> u32 \<Rightarrow> nat \<Rightarrow> unit prog" where
  "reset_irq_data K domain virq 0 = return ()"
| "reset_irq_data K domain virq (Suc n) = do {
     data \<leftarrow> val_call K (Irq (IrqDomainGetIrqData domain virq));
     do_call K (Irq (IrqDomainResetIrqData data));
     reset_irq_data K domain (virq + 1) n
   }"

definition a1625_msi_free :: "kernel \<Rightarrow> u32 \<Rightarrow> u32 \<Rightarrow> unit prog" where
  "a1625_msi_free K virq count = do {
     s \<leftarrow> get_machine;
     free_slots K (ms_domain (the_msi s)) virq (unat count);
     do_call K (Irq (IrqDomainFreeIrqsParent (ms_domain (the_msi s)) virq count));
     reset_irq_data K (ms_domain (the_msi s)) virq (unat count)
   }"

definition a1625_msi_eoi :: "kernel \<Rightarrow> ptr \<Rightarrow> unit prog" where
  "a1625_msi_eoi K data = do {
     hwirq \<leftarrow> val_call K (Irq (IrqDataHwirq data));
     pwhen (8 \<le> hwirq \<and> hwirq < 16)
       (upd_machine (\<lambda>s. s\<lparr>the_msi := (the_msi s)\<lparr>ms_delivered :=
          (ms_delivered (the_msi s))[unat (hwirq - 8) := ms_delivered (the_msi s) ! unat (hwirq - 8) + 1]\<rparr>\<rparr>));
     do_call K (Irq (IrqChipEoiParent data))
   }"

text \<open>\<open>struct msi_msg\<close>: address high, address low, data.\<close>

record msi_msg =
  mm_address_hi :: u32
  mm_address_lo :: u32
  mm_data :: u32

definition a1625_msi_compose :: "u64 \<Rightarrow> msi_msg" where
  "a1625_msi_compose hwirq = \<lparr>mm_address_hi = 0, mm_address_lo = 0xbffff000, mm_data = ucast hwirq\<rparr>"

text \<open>The callbacks into the domain, run while a kernel call is in progress.\<close>

definition msi_callback :: "kernel \<Rightarrow> callback \<Rightarrow> unit prog" where
  "msi_callback K cb =
     (case cb of
        MsiAlloc virq count \<Rightarrow> do { r \<leftarrow> a1625_msi_alloc K virq count; log_result cb r 0 }
      | MsiFree virq count \<Rightarrow> do { a1625_msi_free K virq count; log_result cb 0 0 }
      | MsiEoi data \<Rightarrow> do { a1625_msi_eoi K data; log_result cb 0 0 }
      | _ \<Rightarrow> return ())"

fun run_msi_callbacks :: "kernel \<Rightarrow> callback list \<Rightarrow> unit prog" where
  "run_msi_callbacks K [] = return ()"
| "run_msi_callbacks K (cb # cbs) = do { msi_callback K cb; run_msi_callbacks K cbs }"

definition irq_domain_alloc_irqs :: "kernel \<Rightarrow> ptr \<Rightarrow> int prog" where
  "irq_domain_alloc_irqs K domain = do {
     r \<leftarrow> kcall K (Irq (IrqDomainAllocIrqs domain 1));
     run_msi_callbacks K (r_cbs r);
     return (r_ret r)
   }"

definition irq_domain_free_irqs :: "kernel \<Rightarrow> u32 \<Rightarrow> unit prog" where
  "irq_domain_free_irqs K irq = do {
     r \<leftarrow> kcall K (Irq (IrqDomainFreeIrqs irq 1));
     run_msi_callbacks K (r_cbs r)
   }"

section \<open>The bounded lifetime\<close>

text \<open>\<open>0x10000 | (232 + i)\<close>: the number of slot \<open>i\<close> at the AIC.\<close>

definition aic_hwirq :: "nat \<Rightarrow> u64" where
  "aic_hwirq i = 0x10000 OR (232 + of_nat i)"

text \<open>Does any of the listed AIC interrupts have a mapping? The search stops at the first.\<close>

fun any_mapped :: "kernel \<Rightarrow> ptr \<Rightarrow> nat list \<Rightarrow> bool prog" where
  "any_mapped K parent [] = return False"
| "any_mapped K parent (i # is) = do {
     mapped \<leftarrow> bool_call K (Irq (IrqFindMapping parent (aic_hwirq i)));
     if mapped then return True else any_mapped K parent is
   }"

text \<open>The check after the client goes through all eight.\<close>

fun still_mapped :: "kernel \<Rightarrow> ptr \<Rightarrow> nat list \<Rightarrow> int \<Rightarrow> int prog" where
  "still_mapped K parent [] r = return r"
| "still_mapped K parent (i # is) r = do {
     mapped \<leftarrow> bool_call K (Irq (IrqFindMapping parent (aic_hwirq i)));
     still_mapped K parent is (if mapped then - EIO else r)
   }"

text \<open>One message: \<open>!data || !data->parent_data\<close>, then the two numbers and the composed message.\<close>

definition check_message :: "kernel \<Rightarrow> ptr \<Rightarrow> u32 \<Rightarrow> nat \<Rightarrow> int prog" where
  "check_message K domain irq i = do {
     data \<leftarrow> val_call K (Irq (IrqDomainGetIrqData domain irq));
     if data = 0 then return (- ENODEV) else do {
     parent_data \<leftarrow> val_call K (Irq (IrqDataParent data));
     if parent_data = 0 then return (- ENODEV) else do {
     hwirq \<leftarrow> val_call K (Irq (IrqDataHwirq data));
     let message = a1625_msi_compose hwirq;
     if hwirq \<noteq> 8 + of_nat i then return (- EIO) else do {
     parent_hwirq \<leftarrow> val_call K (Irq (IrqDataHwirq parent_data));
     return (if parent_hwirq \<noteq> aic_hwirq i \<or> mm_address_hi message \<noteq> 0 \<or>
               mm_address_lo message \<noteq> 0xbffff000 \<or> mm_data message \<noteq> 8 + of_nat i
             then - EIO else 0)
     }}}
   }"

text \<open>The loop over the messages; the second result is the filled part of \<open>irqs[8]\<close>.\<close>

fun check_messages :: "kernel \<Rightarrow> ptr \<Rightarrow> nat list \<Rightarrow> u32 list \<Rightarrow> (int \<times> u32 list) prog" where
  "check_messages K domain [] irqs = return (0, irqs)"
| "check_messages K domain (i # is) irqs = do {
     irq \<leftarrow> irq_domain_alloc_irqs K domain;
     if irq < 0 then return (irq, irqs) else do {
     r \<leftarrow> check_message K domain (word_of_int irq) i;
     if r \<noteq> 0 then return (r, irqs @ [word_of_int irq])
     else check_messages K domain is (irqs @ [word_of_int irq])
     }
   }"

text \<open>Both freeing loops; an entry that was never filled is 0 and skipped.\<close>

fun free_irqs :: "kernel \<Rightarrow> u32 list \<Rightarrow> unit prog" where
  "free_irqs K [] = return ()"
| "free_irqs K (irq # irqs) = do {
     pwhen (irq \<noteq> 0) (irq_domain_free_irqs K irq);
     free_irqs K irqs
   }"

text \<open>With the domain: from \<open>touched = true\<close> to the \<open>out\<close> label.\<close>

definition msi_with_domain ::
  "kernel \<Rightarrow> u64 \<Rightarrow> ptr \<Rightarrow> (ptr \<Rightarrow> u64 \<Rightarrow> int prog) option \<Rightarrow> u64 \<Rightarrow> (int \<times> u32 list) prog" where
  "msi_with_domain K port domain operate context = do {
     writel K 0x31 (port + 0x124);
     writel K 0x00080008 (port + 0x128);
     control \<leftarrow> readl K (port + 0x124);
     base \<leftarrow> (if control = 0x31 then readl K (port + 0x128) else return 0);
     if control \<noteq> 0x31 \<or> base \<noteq> 0x00080008 then return (- EIO, []) else do {
     (r, irqs) \<leftarrow> check_messages K domain [0..<8] [];
     if r \<noteq> 0 then return (r, irqs) else do {
     free_irqs K irqs;
     case operate of
       None \<Rightarrow> return (0, [])
     | Some f \<Rightarrow> do { r \<leftarrow> f domain context; return (r, []) }
     }}
   }"

text \<open>The part of the \<open>out\<close> label that depends on the domain.\<close>

definition msi_remove_domain :: "kernel \<Rightarrow> u64 \<Rightarrow> ptr \<Rightarrow> ptr \<Rightarrow> u32 \<Rightarrow> u32 \<Rightarrow> u32 list \<Rightarrow> int \<Rightarrow> int prog" where
  "msi_remove_domain K port parent domain control base irqs r = do {
     free_irqs K irqs;
     s \<leftarrow> get_machine;
     let r = (if ms_used (the_msi s) \<noteq> 0 then - EIO else r);
     r \<leftarrow> still_mapped K parent [0..<8] r;
     do_call K (Irq (IrqDomainRemove domain));
     writel K control (port + 0x124);
     writel K base (port + 0x128);
     c \<leftarrow> readl K (port + 0x124);
     b \<leftarrow> (if c = control then readl K (port + 0x128) else return base);
     return (if c \<noteq> control \<or> b \<noteq> base then - EIO else r)
   }"

definition msi_fwspec :: "u32 list" where
  "msi_fwspec = [0, 232, 1]"

definition init_msi :: "ptr \<Rightarrow> unit prog" where
  "init_msi aic = upd_machine (\<lambda>s. s\<lparr>the_msi := \<lparr>ms_domain = 0, ms_aic = aic, ms_fwnode = 0,
     ms_params = msi_fwspec, ms_used = 0, ms_delivered = replicate 8 0\<rparr>\<rparr>)"

text \<open>From \<open>irq_domain_alloc_named_fwnode\<close> on.\<close>

definition msi_domain_stage ::
  "kernel \<Rightarrow> u64 \<Rightarrow> ptr \<Rightarrow> u32 \<Rightarrow> u32 \<Rightarrow> (ptr \<Rightarrow> u64 \<Rightarrow> int prog) option \<Rightarrow> u64 \<Rightarrow> int prog" where
  "msi_domain_stage K port parent control base operate context = do {
     fwnode \<leftarrow> val_call K (Irq (IrqDomainAllocNamedFwnode ''a1625-msi-probe''));
     if fwnode = 0 then return (- ENOMEM) else do {
     upd_machine (\<lambda>s. s\<lparr>the_msi := (the_msi s)\<lparr>ms_fwnode := fwnode\<rparr>\<rparr>);
     do_call K (Irq MutexInit);
     domain \<leftarrow> val_call K (Irq (MsiCreateParentIrqDomain fwnode parent 16));
     upd_machine (\<lambda>s. s\<lparr>the_msi := (the_msi s)\<lparr>ms_domain := domain\<rparr>\<rparr>);
     r \<leftarrow> (if domain = 0 then return (- ENOMEM) else do {
             (r, irqs) \<leftarrow> msi_with_domain K port domain operate context;
             msi_remove_domain K port parent domain control base irqs r
           });
     do_call K (Irq (IrqDomainFreeFwnode fwnode));
     return r
     }
   }"

definition a1625_with_msi :: "kernel \<Rightarrow> u64 \<Rightarrow> (ptr \<Rightarrow> u64 \<Rightarrow> int prog) option \<Rightarrow> u64 \<Rightarrow> int prog" where
  "a1625_with_msi K port operate context = do {
     control \<leftarrow> readl K (port + 0x124);
     base \<leftarrow> readl K (port + 0x128);
     board \<leftarrow> is_j42d_t7000 K;
     if \<not> board \<or> control \<noteq> 0 \<or> base \<noteq> 0 then return (- EBUSY) else do {
     aic \<leftarrow> of_find_node_by_path K ''/soc/interrupt-controller@20e100000'';
     init_msi aic;
     usable \<leftarrow> (if aic = 0 then return False else of_device_is_compatible K aic ''apple,aic'');
     r \<leftarrow> (if \<not> usable then return (- ENODEV) else do {
             parent \<leftarrow> val_call K (Irq (IrqFindMatchingFwspec aic msi_fwspec));
             if parent = 0 then return (- ENODEV) else do {
             mapped \<leftarrow> any_mapped K parent [0..<8];
             if mapped then return (- EBUSY)
             else msi_domain_stage K port parent control base operate context
             }
           });
     of_node_put K aic;
     return r
     }
   }"

text \<open>The diagnostic without a client.\<close>

definition a1625_msi_probe :: "kernel \<Rightarrow> u64 \<Rightarrow> int prog" where
  "a1625_msi_probe K port = a1625_with_msi K port None 0"

lemmas msi_run = a1625_with_msi_def msi_domain_stage_def msi_with_domain_def msi_remove_domain_def
  check_message_def irq_domain_alloc_irqs_def irq_domain_free_irqs_def msi_callback_def
  a1625_msi_alloc_def a1625_msi_free_def set_used_def init_msi_def msi_fwspec_def is_power_of_2_def
  order_base_2_def take_region_def give_region_def aic_hwirq_def a1625_msi_compose_def a1625_msi_probe_def

section \<open>Nothing leaks\<close>

lemma set_used_emits [emits_rules]: "emits P (set_used f)"
  unfolding set_used_def by (intro emits_rules) simp

lemma wp_set_used [wp_rules]:
  "Q () (s\<lparr>the_msi := (the_msi s)\<lparr>ms_used := f (ms_used (the_msi s))\<rparr>\<rparr>) \<Longrightarrow> wp (set_used f) Q s"
  unfolding set_used_def by (intro wp_rules)

lemma set_hwirqs_emits [emits_rules]:
  "(\<And>v h r. P (Call (Irq (IrqDomainSetHwirqAndChip domain v h)) r)) \<Longrightarrow> emits P (set_hwirqs K domain virq hwirq n)"
  by (induction n arbitrary: virq hwirq) (auto intro!: emits_rules)

lemma reset_irq_data_emits [emits_rules]:
  "(\<And>v r. P (Call (Irq (IrqDomainGetIrqData domain v)) r)) \<Longrightarrow> (\<And>d r. P (Call (Irq (IrqDomainResetIrqData d)) r))
   \<Longrightarrow> emits P (reset_irq_data K domain virq n)"
  by (induction n arbitrary: virq) (auto intro!: emits_rules)

lemma irq_loops_neutral:
  "emits neutral (set_hwirqs K domain virq hwirq n)" "emits neutral (reset_irq_data K domain virq n)"
  by (intro emits_rules; simp add: neutral_def)+

lemma msi_alloc_keeps: "keeps x (a1625_msi_alloc K virq count)"
  unfolding a1625_msi_alloc_def
  by (intro keepsI wp_rules wp_neutral [OF irq_loops_neutral(1)]) simp_all

lemma free_slots_keeps: "keeps x (free_slots K domain virq n)"
proof (induction n arbitrary: virq)
  case (Suc n)
  then show ?case
    unfolding free_slots.simps by (intro keepsI wp_rules wp_keeps [OF Suc]) simp
qed (simp add: keeps_return)

lemma msi_free_keeps: "keeps x (a1625_msi_free K virq count)"
  unfolding a1625_msi_free_def
  by (intro keepsI wp_rules wp_keeps [OF free_slots_keeps [of x]] wp_neutral [OF irq_loops_neutral(2)]) simp

lemma msi_eoi_keeps: "keeps x (a1625_msi_eoi K data)"
  unfolding a1625_msi_eoi_def by (intro keepsI wp_rules) simp_all

lemma msi_callback_keeps: "keeps x (msi_callback K cb)"
  unfolding msi_callback_def
  by (cases cb) (auto intro!: keeps_bind keeps_return log_result_keeps msi_alloc_keeps msi_free_keeps msi_eoi_keeps)

lemma run_msi_callbacks_keeps: "keeps x (run_msi_callbacks K cbs)"
  by (induction cbs) (auto intro!: keeps_bind keeps_return msi_callback_keeps)

text \<open>The interrupts an array holds.\<close>

definition irqs_owned :: "u32 list \<Rightarrow> resource \<Rightarrow> int" where
  "irqs_owned irqs x = sum_list (map (\<lambda>irq. if irq = 0 then 0 else unit_at (Some (IrqNumber irq)) x) irqs)"

lemma irqs_owned_simps [simp]:
  "irqs_owned [] x = 0" "irqs_owned (irq # irqs) x = (if irq = 0 then 0 else unit_at (Some (IrqNumber irq)) x) + irqs_owned irqs x"
  "irqs_owned (irqs @ irqs') x = irqs_owned irqs x + irqs_owned irqs' x"
  by (simp_all add: irqs_owned_def)

lemma wp_alloc_irqs:
  assumes "\<And>r s'. held (trace s') x = held (trace s) x + (if r < 0 then 0 else irqs_owned [word_of_int r] x) \<Longrightarrow> Q r s'"
  shows "wp (irq_domain_alloc_irqs K domain) Q s"
  unfolding irq_domain_alloc_irqs_def
  by (intro wp_rules wp_keeps [OF run_msi_callbacks_keeps [of x]] assms) simp

lemma wp_free_irqs:
  assumes "\<And>s'. held (trace s') x = held (trace s) x - irqs_owned irqs x \<Longrightarrow> Q () s'"
  shows "wp (free_irqs K irqs) Q s"
  using assms
proof (induction irqs arbitrary: s)
  case Nil
  then show ?case by (auto intro!: wp_rules)
next
  case (Cons irq irqs)
  show ?case
    unfolding free_irqs.simps irq_domain_free_irqs_def
    by (intro wp_rules wp_keeps [OF run_msi_callbacks_keeps [of x]] Cons.IH Cons.prems) simp_all
qed

lemma check_message_neutral: "emits neutral (check_message K domain irq i)"
  unfolding check_message_def by (intro emits_rules; simp add: neutral_def)

lemma wp_check_messages:
  assumes "\<And>r irqs' s'. held (trace s') x = held (trace s) x + irqs_owned irqs' x - irqs_owned irqs x \<Longrightarrow> Q (r, irqs') s'"
  shows "wp (check_messages K domain is irqs) Q s"
  using assms
proof (induction "is" arbitrary: irqs s)
  case Nil
  then show ?case by (auto intro!: wp_rules)
next
  case (Cons i "is")
  show ?case
    unfolding check_messages.simps
    by (intro wp_rules wp_alloc_irqs [where x = x] wp_neutral [OF check_message_neutral] Cons.IH Cons.prems)
      simp_all
qed

lemma mapped_neutral:
  "emits neutral (any_mapped K parent is)" "emits neutral (still_mapped K parent is r)"
proof -
  show "emits neutral (any_mapped K parent is)"
    by (induction "is") (auto intro!: emits_rules simp: neutral_def)
  show "emits neutral (still_mapped K parent is r)"
    by (induction "is" arbitrary: r) (auto intro!: emits_rules simp: neutral_def)
qed

lemma wp_msi_with_domain:
  assumes op: "\<And>a. keeps x (client2 operate a)"
    and Q: "\<And>r irqs s'. held (trace s') x = held (trace s) x + irqs_owned irqs x \<Longrightarrow> Q (r, irqs) s'"
  shows "wp (msi_with_domain K port domain operate context) Q s"
proof (cases operate)
  case None
  show ?thesis
    unfolding msi_with_domain_def None option.case
    by (intro wp_rules wp_check_messages [where x = x] wp_free_irqs [where x = x] Q) simp_all
next
  case (Some f)
  have f: "\<And>d c. keeps x (f d c)"
    using op unfolding Some by (rule client2_keeps)
  show ?thesis
    unfolding msi_with_domain_def Some option.case
    by (intro wp_rules wp_check_messages [where x = x] wp_free_irqs [where x = x] wp_keeps [OF f] Q) simp_all
qed

lemma wp_msi_remove_domain:
  assumes "\<And>r s'. held (trace s') x = held (trace s) x - irqs_owned irqs x - unit_at (Some (MsiDomain domain)) x \<Longrightarrow> Q r s'"
  shows "wp (msi_remove_domain K port parent domain control base irqs r) Q s"
  unfolding msi_remove_domain_def
  by (intro wp_rules wp_free_irqs [where x = x] wp_neutral [OF mapped_neutral(2)] assms) simp_all

lemma msi_domain_stage_keeps:
  assumes "\<And>a. keeps x (client2 operate a)"
  shows "keeps x (msi_domain_stage K port parent control base operate context)"
  unfolding msi_domain_stage_def
  by (intro keepsI wp_rules wp_msi_with_domain [where x = x, OF assms] wp_msi_remove_domain [where x = x])
    (simp_all add: unless_null_def)

lemma init_msi_neutral: "emits neutral (init_msi aic)"
  unfolding init_msi_def by (intro emits_rules) simp

lemma with_msi_keeps:
  assumes "\<And>a. keeps x (client2 operate a)"
  shows "keeps x (a1625_with_msi K port operate context)"
  unfolding a1625_with_msi_def
  by (intro keepsI wp_neutral [OF is_j42d_t7000_neutral] wp_neutral [OF init_msi_neutral]
      wp_neutral [OF mapped_neutral(1)] wp_keeps [OF msi_domain_stage_keeps [OF assms]] wp_rules)
    (simp_all add: unless_null_def)

interpretation msi: lifetime "\<lambda>operate. a1625_with_msi K port operate ctx" client2 "\<lambda>_. False" for K port ctx
  by unfold_locales (rule with_msi_keeps)

section \<open>Slots\<close>

text \<open>
  \<open>bitmap_find_free_region(map, bits, order)\<close> answers a negative error, or the start of an aligned
  free region of \<open>2 ^ order\<close> bits inside the map.
\<close>

definition bitmap_finds_free :: "kernel \<Rightarrow> bool" where
  "bitmap_finds_free K \<longleftrightarrow> (\<forall>t used order.
     let r = r_ret (K t (Irq (BitmapFindFreeRegion used 8 order)))
     in 0 \<le> r \<longrightarrow> nat r + 2 ^ unat order \<le> 8 \<and> busy_slots used \<inter> {nat r..<nat r + 2 ^ unat order} = {})"

text \<open>The hardware number last given to an interrupt, and the AIC number last requested for it.\<close>

fun hwirq_set :: "u32 \<Rightarrow> event list \<Rightarrow> u64 option" where
  "hwirq_set v [] = None"
| "hwirq_set v (e # t) =
     (case e of
        Call (Irq (IrqDomainSetHwirqAndChip d w h)) _ \<Rightarrow> if w = v then Some h else hwirq_set v t
      | _ \<Rightarrow> hwirq_set v t)"

fun aic_requested :: "u32 \<Rightarrow> event list \<Rightarrow> u32 option" where
  "aic_requested v [] = None"
| "aic_requested v (e # t) =
     (case e of
        Call (Irq (IrqDomainAllocIrqsParent d w n params)) _ \<Rightarrow> if w = v then Some (params ! 1) else aic_requested v t
      | _ \<Rightarrow> aic_requested v t)"

lemma count_order:
  assumes "count \<noteq> 0" "count \<le> 8" "is_power_of_2 count"
  shows "2 ^ unat (order_base_2 count) = unat count"
proof -
  have "unat count \<le> 8" using assms(2) by (simp add: word_le_nat_alt)
  then have "unat count = 0 \<or> unat count = 1 \<or> unat count = 2 \<or> unat count = 3 \<or> unat count = 4 \<or> unat count = 5 \<or>
    unat count = 6 \<or> unat count = 7 \<or> unat count = 8" by presburger
  moreover have "count = of_nat (unat count)" by simp
  ultimately have "count \<in> {0, 1, 2, 3, 4, 5, 6, 7, 8}" by (elim disjE) simp_all
  then show ?thesis
    using assms(1,3) by (auto simp: order_base_2_def is_power_of_2_def word_le_nat_alt)
qed

lemma of_nat_small_u32: "i < 8 \<Longrightarrow> j < 8 \<Longrightarrow> (of_nat i :: u32) = of_nat j \<longleftrightarrow> i = j"
  by (subst word_unat_eq_iff) (simp add: unat_of_nat)

lemma wp_set_hwirqs:
  assumes "n \<le> 8"
    and "\<And>s'. \<forall>i < n. hwirq_set (virq + of_nat i) (trace s') = Some (hwirq + of_nat i)
      \<Longrightarrow> \<forall>v. (\<forall>i < n. v \<noteq> virq + of_nat i) \<longrightarrow> hwirq_set v (trace s') = hwirq_set v (trace s)
      \<Longrightarrow> (\<And>v. aic_requested v (trace s') = aic_requested v (trace s))
      \<Longrightarrow> the_msi s' = the_msi s \<Longrightarrow> Q () s'"
  shows "wp (set_hwirqs K domain virq hwirq n) Q s"
  using assms
proof (induction n arbitrary: virq hwirq s)
  case 0
  then show ?case by (auto intro!: wp_rules)
next
  case (Suc n)
  have split: "(\<forall>i < Suc n. P i) \<longleftrightarrow> P 0 \<and> (\<forall>i < n. P (Suc i))" for P
    by (metis less_Suc_eq_0_disj)
  have notv: "virq \<noteq> virq + (1 + of_nat i)" if "i < n" for i
    using of_nat_small_u32 [of "Suc i" 0] that Suc.prems(1) by simp
  show ?case
    unfolding set_hwirqs.simps
    by (intro wp_rules Suc.IH Suc.prems(2)) (use Suc.prems(1) notv in \<open>auto simp: split add.assoc\<close>)
qed


text \<open>A slot number as the code computes with it.\<close>

definition slot_taken :: "nat \<Rightarrow> u32 \<Rightarrow> u32 \<Rightarrow> machine \<Rightarrow> machine \<Rightarrow> bool" where
  "slot_taken slot virq count s s' \<longleftrightarrow>
     slot + unat count \<le> 8 \<and>
     busy_slots (ms_used (the_msi s)) \<inter> {slot..<slot + unat count} = {} \<and>
     the_msi s' = (the_msi s)\<lparr>ms_used := take_region (ms_used (the_msi s)) slot (unat count)\<rparr> \<and>
     aic_requested virq (trace s') = Some (232 + of_nat slot) \<and>
     (\<forall>i < unat count. hwirq_set (virq + of_nat i) (trace s') = Some (8 + of_nat slot + of_nat i))"

lemma wp_bitmap_find:
  assumes "bitmap_finds_free K"
    and "\<And>r. (0 \<le> r_ret r \<Longrightarrow> nat (r_ret r) + 2 ^ unat order \<le> 8 \<and> busy_slots used \<inter> {nat (r_ret r)..<nat (r_ret r) + 2 ^ unat order} = {})
      \<Longrightarrow> Q (r_ret r) (s\<lparr>trace := Call (Irq (BitmapFindFreeRegion used 8 order)) r # trace s\<rparr>)"
  shows "wp (int_call K (Irq (BitmapFindFreeRegion used 8 order))) Q s"
  using assms unfolding bitmap_finds_free_def
  by (simp add: wp_def int_call_def kcall_def Let_def)

lemma region_undo:
  assumes "nat slot + n \<le> 8" "busy_slots used \<inter> {nat slot..<nat slot + n} = {}"
  shows "give_region (take_region used (nat slot) n) (nat slot) n = used"
  using bitmap.give_take [OF assms] .

lemma slot_takenI:
  assumes "nat slot + unat count \<le> 8 \<and> busy_slots (ms_used (the_msi s)) \<inter> {nat slot..<nat slot + unat count} = {}"
    and "\<not> slot < 0" "aic_requested virq (trace s') = Some (232 + word_of_int slot)"
    and "\<forall>i < unat count. hwirq_set (virq + of_nat i) (trace s') = Some (8 + word_of_int slot + of_nat i)"
    and "the_msi s' = (the_msi s)\<lparr>ms_used := take_region (ms_used (the_msi s)) (nat slot) (unat count)\<rparr>"
  shows "\<exists>slot. slot_taken slot virq count s s'"
  by (rule exI [of _ "nat slot"]) (use assms in \<open>auto simp: slot_taken_def\<close>)

lemma wp_msi_alloc:
  assumes K: "bitmap_finds_free K" and params: "length (ms_params (the_msi s)) = 3"
    and Q: "\<And>r s'. (r = 0 \<Longrightarrow> \<exists>slot. slot_taken slot virq count s s' \<and> count \<noteq> 0 \<and> count \<le> 8) \<Longrightarrow> (r \<noteq> 0 \<Longrightarrow> the_msi s' = the_msi s) \<Longrightarrow> Q r s'"
  shows "wp (a1625_msi_alloc K virq count) Q s"
proof (cases "count = 0 \<or> 8 < count \<or> \<not> is_power_of_2 count")
  case True
  then show ?thesis
    unfolding a1625_msi_alloc_def by (auto intro!: wp_rules Q)
next
  case False
  then have count: "2 ^ unat (order_base_2 count) = unat count" "unat count \<le> 8" "count \<noteq> 0" "count \<le> 8"
    using count_order [of count] by (auto simp: word_le_nat_alt not_less)
  show ?thesis
    unfolding a1625_msi_alloc_def
    by (intro wp_bitmap_find [OF K] wp_set_hwirqs wp_rules Q)
      (use False params count in \<open>simp_all add: region_undo, auto intro!: slot_takenI\<close>)
qed



section \<open>Release\<close>

text \<open>
  \<open>irq_domain_get_irq_data(domain, virq)->hwirq\<close> is the number set for the interrupt by
  \<open>irq_domain_set_hwirq_and_chip\<close>.
\<close>

definition irq_data_kept :: "kernel \<Rightarrow> bool" where
  "irq_data_kept K \<longleftrightarrow> (\<forall>t t' d virq h. hwirq_set virq t' = Some h \<longrightarrow>
     r_val (K t' (Irq (IrqDataHwirq (r_val (K t (Irq (IrqDomainGetIrqData d virq))))))) = h)"

lemma wp_data_hwirq:
  assumes "irq_data_kept K" "hwirq_set virq (trace s) = Some h"
    and "\<And>data s'. the_msi s' = the_msi s \<Longrightarrow> (\<And>v. hwirq_set v (trace s') = hwirq_set v (trace s)) \<Longrightarrow>
      wp (f data h) Q s'"
  shows "wp (do { data \<leftarrow> val_call K (Irq (IrqDomainGetIrqData d virq)); mutex_lock K;
     hwirq \<leftarrow> val_call K (Irq (IrqDataHwirq data)); f data hwirq }) Q s"
proof -
  let ?t1 = "Call (Irq (IrqDomainGetIrqData d virq)) (K (trace s) (Irq (IrqDomainGetIrqData d virq))) # trace s"
  have "hwirq_set virq (Call (Irq MutexLock) (K ?t1 (Irq MutexLock)) # ?t1) = Some h"
    using assms(2) by simp
  then have "r_val (K (Call (Irq MutexLock) (K ?t1 (Irq MutexLock)) # ?t1)
      (Irq (IrqDataHwirq (r_val (K (trace s) (Irq (IrqDomainGetIrqData d virq))))))) = h"
    using assms(1) unfolding irq_data_kept_def by blast
  then show ?thesis
    using assms(3) unfolding wp_def
    by (simp add: val_call_def do_call_def kcall_def Let_def split: prod.splits)
qed

lemma wp_free_slots:
  assumes K: "irq_data_kept K" and "n \<le> 8" "slot + n \<le> 8"
    and "\<forall>i < n. hwirq_set (virq + of_nat i) (trace s) = Some (8 + of_nat slot + of_nat i)"
    and "\<And>s'. the_msi s' = (the_msi s)\<lparr>ms_used := give_region (ms_used (the_msi s)) slot n\<rparr> \<Longrightarrow> Q () s'"
  shows "wp (free_slots K domain virq n) Q s"
  using assms(2-)
proof (induction n arbitrary: virq slot s)
  case 0
  then show ?case by (auto intro!: wp_rules simp: give_region_def)
next
  case (Suc n)
  have h: "hwirq_set virq (trace s) = Some (8 + of_nat slot)"
    using Suc.prems(3) by auto
  have slot: "unat (8 + of_nat slot - 8 :: u64) = slot"
    using Suc.prems(2) by (simp add: unat_of_nat)
  have rest: "hwirq_set (virq + 1 + of_nat i) (trace s) = Some (8 + of_nat (Suc slot) + of_nat i)" if "i < n" for i
    using Suc.prems(3) [rule_format, of "Suc i"] that by (simp add: ac_simps)
  have pieces: "give_region (give_region p slot 1) (Suc slot) n = give_region p slot (Suc n)" for p
    by (rule bitmap.give_pieces) (use Suc.prems(2) in simp)
  show ?case
    unfolding free_slots.simps
    by (rule wp_data_hwirq [OF K h], intro wp_rules Suc.IH [of "Suc slot"] Suc.prems(4))
      (use Suc.prems(1,2) rest slot pieces in simp_all)
qed

lemma wp_msi_free:
  assumes K: "irq_data_kept K" and "slot_taken slot virq count s0 s"
    and "\<And>s'. the_msi s' = the_msi s0 \<Longrightarrow> Q () s'"
  shows "wp (a1625_msi_free K virq count) Q s"
proof -
  have reset: "wp (reset_irq_data K domain v n) R t" if "\<And>s'. the_msi s' = the_msi t \<Longrightarrow> R () s'" for domain v n R t
    using that
  proof (induction n arbitrary: v t)
    case (Suc n)
    show ?case unfolding reset_irq_data.simps by (intro wp_rules Suc.IH Suc.prems) simp
  qed (auto intro!: wp_rules)
  have "slot + unat count \<le> 8" and free: "busy_slots (ms_used (the_msi s0)) \<inter> {slot..<slot + unat count} = {}"
    and msi: "the_msi s = (the_msi s0)\<lparr>ms_used := take_region (ms_used (the_msi s0)) slot (unat count)\<rparr>"
    and set: "\<forall>i < unat count. hwirq_set (virq + of_nat i) (trace s) = Some (8 + of_nat slot + of_nat i)"
    using assms(2) by (auto simp: slot_taken_def)
  then show ?thesis
    unfolding a1625_msi_free_def
    by (intro wp_rules wp_free_slots [OF K _ _ set] reset assms(3)) (simp_all add: bitmap.give_take)
qed

section \<open>Any sequence of callbacks\<close>

definition msi_wf :: "machine \<Rightarrow> bool" where
  "msi_wf s \<longleftrightarrow> busy_slots (ms_used (the_msi s)) \<subseteq> {..<8} \<and> length (ms_params (the_msi s)) = 3 \<and>
     length (ms_delivered (the_msi s)) = 8"

lemma busy_give_subset: "busy_slots (give_region used slot n) \<subseteq> busy_slots used"
  by (auto simp: busy_slots_def give_region_def bit_simps)

lemma wp_msi_alloc_wf:
  assumes "bitmap_finds_free K" "msi_wf s" "\<And>r s'. msi_wf s' \<Longrightarrow> Q r s'"
  shows "wp (a1625_msi_alloc K virq count) Q s"
proof (rule wp_msi_alloc [OF assms(1)])
  show "length (ms_params (the_msi s)) = 3" using assms(2) by (simp add: msi_wf_def)
  fix r :: int and s' :: machine
  assume ok: "r = 0 \<Longrightarrow> \<exists>slot. slot_taken slot virq count s s' \<and> count \<noteq> 0 \<and> count \<le> 8"
    and err: "r \<noteq> 0 \<Longrightarrow> the_msi s' = the_msi s"
  show "Q r s'"
  proof (rule assms(3), cases "r = 0")
    case True
    from ok [OF this] obtain slot where "slot + unat count \<le> 8"
      and "the_msi s' = (the_msi s)\<lparr>ms_used := take_region (ms_used (the_msi s)) slot (unat count)\<rparr>"
      by (auto simp: slot_taken_def)
    then show "msi_wf s'" using assms(2) by (auto simp: msi_wf_def bitmap.busy_take)
  next
    case False
    from err [OF this] assms(2) show "msi_wf s'" by (simp add: msi_wf_def)
  qed
qed

lemma wp_free_slots_wf:
  assumes "msi_wf s" "\<And>s'. msi_wf s' \<Longrightarrow> Q () s'"
  shows "wp (free_slots K domain virq n) Q s"
  using assms(1)
proof (induction n arbitrary: virq s)
  case (Suc n)
  have "msi_wf (t\<lparr>the_msi := (the_msi t)\<lparr>ms_used := give_region (ms_used (the_msi t)) k 1\<rparr>\<rparr>)" if "msi_wf t" for t k
    using that busy_give_subset [of "ms_used (the_msi t)" k 1] by (auto simp: msi_wf_def)
  then show ?case
    unfolding free_slots.simps using Suc.prems
    by (intro wp_rules Suc.IH) (simp add: msi_wf_def)
qed (auto intro!: wp_rules assms(2))

lemma msi_wf_frame: "the_msi s' = the_msi s \<Longrightarrow> msi_wf s' = msi_wf s"
  by (simp add: msi_wf_def)

lemma wp_reset_irq_data_wf:
  assumes "msi_wf s" "\<And>s'. msi_wf s' \<Longrightarrow> Q () s'"
  shows "wp (reset_irq_data K domain virq n) Q s"
  using assms(1)
proof (induction n arbitrary: virq s)
  case (Suc n)
  then show ?case
    unfolding reset_irq_data.simps by (intro wp_rules Suc.IH) (simp add: msi_wf_def)
qed (auto intro!: wp_rules assms(2))

lemma wp_msi_callback_wf:
  assumes "bitmap_finds_free K" "msi_wf s" "\<And>s'. msi_wf s' \<Longrightarrow> Q () s'"
  shows "wp (msi_callback K cb) Q s"
proof (cases cb)
  case (MsiAlloc virq count)
  show ?thesis
    unfolding msi_callback_def MsiAlloc callback.case
    by (intro wp_rules wp_msi_alloc_wf [OF assms(1,2)] assms(3)) (simp add: msi_wf_def)
next
  case (MsiFree virq count)
  show ?thesis
    unfolding msi_callback_def MsiFree callback.case a1625_msi_free_def
    by (intro wp_rules wp_free_slots_wf wp_reset_irq_data_wf assms(3)) (use assms(2) in \<open>simp_all add: msi_wf_def\<close>)
next
  case (MsiEoi data)
  show ?thesis
    unfolding msi_callback_def MsiEoi callback.case a1625_msi_eoi_def
    by (intro wp_rules assms(3)) (use assms(2) in \<open>simp_all add: msi_wf_def\<close>)
qed (use assms(2,3) in \<open>auto simp: msi_callback_def intro!: wp_rules\<close>)

lemma wp_run_msi_callbacks_wf:
  assumes "bitmap_finds_free K" "msi_wf s" "\<And>s'. msi_wf s' \<Longrightarrow> Q () s'"
  shows "wp (run_msi_callbacks K cbs) Q s"
  using assms(2)
proof (induction cbs arbitrary: s)
  case (Cons cb cbs)
  then show ?case
    unfolding run_msi_callbacks.simps by (intro wp_rules wp_msi_callback_wf [OF assms(1)] Cons.IH)
qed (auto intro!: wp_rules assms(3))

section \<open>The port's registers\<close>

definition msi_register :: "u64 \<Rightarrow> u64 \<Rightarrow> bool" where
  "msi_register port a \<longleftrightarrow> a = port + 0x124 \<or> a = port + 0x128"

lemma msi_register_simps [simp]: "msi_register port (port + 0x124)" "msi_register port (port + 0x128)"
  by (simp_all add: msi_register_def)

lemma wp_msi_remove_domain_restores:
  assumes "\<And>r s'. mmio_at init (trace s') (port + 0x124) = control \<Longrightarrow> mmio_at init (trace s') (port + 0x128) = base
    \<Longrightarrow> Q r s'"
  shows "wp (msi_remove_domain K port parent domain control base irqs r) Q s"
proof -
  have any: "wp n R t" if "\<And>r t'. R r t'" for n :: "'b prog" and R t
    by (rule wp_any) (rule that)
  show ?thesis
    unfolding msi_remove_domain_def
    by (intro any [of _ "free_irqs K irqs"] any [of _ "still_mapped K parent js r" for js r] wp_rules assms) simp_all
qed

lemma wp_msi_domain_stage_restores:
  assumes "mmio_at init (trace s) (port + 0x124) = control" "mmio_at init (trace s) (port + 0x128) = base"
    and Q: "\<And>r s'. mmio_at init (trace s') (port + 0x124) = control \<Longrightarrow> mmio_at init (trace s') (port + 0x128) = base
    \<Longrightarrow> Q r s'"
  shows "wp (msi_domain_stage K port parent control base operate context) Q s"
proof -
  have any: "wp n R t" if "\<And>r t'. R r t'" for n :: "'b prog" and R t
    by (rule wp_any) (rule that)
  show ?thesis
    unfolding msi_domain_stage_def
    by (intro any [of _ "msi_with_domain K port d f c" for d f c]
        wp_msi_remove_domain_restores [where init = init] wp_rules Q) (use assms(1,2) in simp_all)
qed

lemma any_mapped_emits [emits_rules]:
  "(\<And>h r. P (Call (Irq (IrqFindMapping parent h)) r)) \<Longrightarrow> emits P (any_mapped K parent js)"
  by (induction js) (auto intro!: emits_rules)

lemma wp_with_msi_restores:
  assumes K: "register_file init (msi_register port) K"
    and Q: "\<And>r s'. mmio_at init (trace s') (port + 0x124) = mmio_at init (trace s) (port + 0x124) \<Longrightarrow>
      mmio_at init (trace s') (port + 0x128) = mmio_at init (trace s) (port + 0x128) \<Longrightarrow> Q r s'"
  shows "wp (a1625_with_msi K port operate context) Q s"
proof -
  have quiet: "emits (\<lambda>e. \<not> writes_within (msi_register port) e) (is_j42d_t7000 K)"
    "emits (\<lambda>e. \<not> writes_within (msi_register port) e) (any_mapped K parent js)"
    "emits (\<lambda>e. \<not> writes_within (msi_register port) e) (init_msi aic)" for parent js aic
    unfolding init_msi_def by (intro emits_rules; simp add: writes_within_def)+
  show ?thesis
    unfolding a1625_with_msi_def
    by (intro wp_readl_register_file [OF K] wp_no_write_within [OF quiet(1), where init = init] wp_no_write_within [OF quiet(2), where init = init]
        wp_no_write_within [OF quiet(3), where init = init] wp_msi_domain_stage_restores [where init = init] wp_bind wp_if wp_rules Q)
      simp_all
qed

section \<open>Success\<close>

text \<open>The last answer about the mapping of an AIC interrupt.\<close>

fun last_mapping :: "ptr \<Rightarrow> u64 \<Rightarrow> event list \<Rightarrow> bool option" where
  "last_mapping d h [] = None"
| "last_mapping d h (e # t) =
     (case e of
        Call (Irq (IrqFindMapping d' h')) r \<Rightarrow> if d' = d \<and> h' = h then Some (r_val r \<noteq> 0) else last_mapping d h t
      | _ \<Rightarrow> last_mapping d h t)"

definition msi_released :: "u64 \<Rightarrow> machine \<Rightarrow> bool" where
  "msi_released port s \<longleftrightarrow> ms_used (the_msi s) = 0 \<and>
     last_readl (port + 0x124) (trace s) = Some 0 \<and> last_readl (port + 0x128) (trace s) = Some 0 \<and>
     (\<exists>parent. \<forall>i < 8. last_mapping parent (aic_hwirq i) (trace s) = Some False)"

lemma wp_still_mapped:
  assumes "\<And>r s'. the_msi s' = the_msi s \<Longrightarrow>
      (r = 0 \<Longrightarrow> r0 = 0 \<and> (\<forall>i \<in> set js. last_mapping parent (aic_hwirq i) (trace s') = Some False) \<and>
        (\<forall>h. last_mapping parent h (trace s) = Some False \<longrightarrow> last_mapping parent h (trace s') = Some False)) \<Longrightarrow> Q r s'"
  shows "wp (still_mapped K parent js r0) Q s"
  using assms
proof (induction js arbitrary: r0 s)
  case Nil
  then show ?case by (auto intro!: wp_rules)
next
  case (Cons i js)
  show ?case
    unfolding still_mapped.simps
    by (intro wp_rules Cons.IH Cons.prems) (auto split: if_splits)
qed

lemma wp_msi_remove_domain_success:
  assumes "\<And>r s'. (r = 0 \<Longrightarrow> control = 0 \<Longrightarrow> base = 0 \<Longrightarrow> msi_released port s') \<Longrightarrow> Q r s'"
  shows "wp (msi_remove_domain K port parent domain control base irqs r) Q s"
proof -
  have any: "wp (free_irqs K irqs) R t" if "\<And>t'. R () t'" for R t
    by (rule wp_any) (simp add: that)
  have eight: "(\<forall>i \<in> {0..<8}. P i) = (\<forall>i < 8. P i)" for P :: "nat \<Rightarrow> bool"
    by auto
  show ?thesis
    unfolding msi_remove_domain_def
    by (intro any wp_still_mapped wp_rules assms) (auto simp: msi_released_def eight split: if_splits)
qed

lemma wp_with_msi_success:
  assumes "\<And>r s'. (r = 0 \<Longrightarrow> msi_released port s') \<Longrightarrow> Q r s'"
  shows "wp (a1625_with_msi K port operate context) Q s"
proof -
  have keep: "msi_released port (t\<lparr>trace := Call (Irq (IrqDomainFreeFwnode f)) r # trace t\<rparr>)"
    "msi_released port (t\<lparr>trace := Call (Of (OfNodePut n)) r # trace t\<rparr>)" if "msi_released port t" for t f r n
    using that by (auto simp: msi_released_def)
  have any: "wp n R t" if "\<And>r t'. R r t'" for n :: "'b prog" and R t
    by (rule wp_any) (rule that)
  have stage: "wp (msi_domain_stage K port parent control base operate context) R t"
    if "control = 0" "base = 0" "\<And>r s'. (r = 0 \<Longrightarrow> msi_released port s') \<Longrightarrow> R r s'" for parent control base R t
    unfolding that(1,2) msi_domain_stage_def
    by (intro any [of _ "msi_with_domain K port d f c" for d f c] wp_msi_remove_domain_success wp_rules that(3))
      (simp_all add: keep)
  show ?thesis
    unfolding a1625_with_msi_def
    by (intro any [of _ "is_j42d_t7000 K"] any [of _ "init_msi aic" for aic] any [of _ "any_mapped K parent js" for parent js]
        stage wp_rules assms) (auto simp: keep)
qed

section \<open>Properties\<close>

text \<open>
  A kernel whose interrupt core does what is documented, whatever has happened before: the first
  free slot is found, and the number set for an interrupt is read back from its data.
\<close>

definition irq_core :: kernel where
  "irq_core t c =
     (case c of
        Irq (BitmapFindFreeRegion used n order) \<Rightarrow> Resp (if order = 0 then first_free used else - ENOMEM) 0 []
      | Irq (IrqDomainGetIrqData d v) \<Rightarrow> Resp 0 (0x1000 + ucast v) []
      | Irq (IrqDataHwirq data) \<Rightarrow> Resp 0 (case hwirq_set (ucast (data - 0x1000)) t of None \<Rightarrow> 0 | Some h \<Rightarrow> h) []
      | _ \<Rightarrow> Resp 0 1 [])"

lemma first_free_region:
  assumes "0 \<le> first_free used"
  shows "nat (first_free used) + 1 \<le> 8" "\<not> bit used (nat (first_free used))"
proof -
  have bit: "\<not> bit used n" if "used AND (2 ^ n) = 0" for n
    using that by (metis and_exp_eq_0_iff_not_bit)
  show "nat (first_free used) + 1 \<le> 8" "\<not> bit used (nat (first_free used))"
    using assms bit [of 0] bit [of 1] bit [of 2] bit [of 3] bit [of 4] bit [of 5] bit [of 6] bit [of 7]
    by (auto simp: first_free_def split: if_splits)
qed

lemma irq_core_bitmap: "bitmap_finds_free irq_core"
proof -
  have "busy_slots used \<inter> {n..<n + 1} = {}" if "\<not> bit used n" for used n
    using that by (auto simp: busy_slots_def)
  then show ?thesis
    using first_free_region by (auto simp: bitmap_finds_free_def irq_core_def Let_def)
qed

lemma irq_core_data: "irq_data_kept irq_core"
proof -
  have "(ucast (ucast v :: u64) :: u32) = v" for v :: u32
    by (rule ucast_down_ucast_id) (simp add: is_down)
  then show ?thesis by (auto simp: irq_data_kept_def irq_core_def)
qed

text \<open>A machine with an empty interrupt domain.\<close>

definition msi_boot :: machine where
  "msi_boot = boot\<lparr>the_msi := no_msi\<lparr>ms_domain := 7, ms_params := msi_fwspec, ms_delivered := replicate 8 0\<rparr>\<rparr>"


lemma irq_core_alloc: "fst (run_state (a1625_msi_alloc irq_core 40 1) msi_boot) = 0"
  by (simp add: msi_run run_simps irq_core_def msi_boot_def no_msi_def)







text \<open>
  The port's two MSI registers hold after the lifetime what they held before, for every client and on
  every path, if they store what is written to them.
\<close>

theorem with_msi_restores_port:
  assumes "run_state (a1625_with_msi K port operate ctx) s = (r, s')"
    and "register_file init (msi_register port) K" and "msi_register port a"
  shows "mmio_at init (trace s') a = mmio_at init (trace s) a"
proof -
  have "wp (a1625_with_msi K port operate ctx) (\<lambda>_ s'.
      mmio_at init (trace s') (port + 0x124) = mmio_at init (trace s) (port + 0x124) \<and>
      mmio_at init (trace s') (port + 0x128) = mmio_at init (trace s) (port + 0x128)) s"
    by (rule wp_with_msi_restores [OF assms(2)]) simp
  from wp_run [OF this assms(1)] assms(3) show ?thesis by (auto simp: msi_register_def)
qed

theorem with_msi_restores_port_witness:
  "mmio_at board_init (trace (snd (run_state (a1625_with_msi board 0x602004000 None 0) boot))) 0x602004124 = 0"
proof -
  have regs: "register_file board_init (msi_register 0x602004000) board"
    using board_register_file by (simp add: register_file_def)
  have a: "msi_register 0x602004000 0x602004124" by (simp add: msi_register_def)
  show ?thesis
    using with_msi_restores_port [OF run_split [OF refl] regs a, where operate = None and ctx = 0 and s = boot]
    by (simp add: board_init_def)
qed

text \<open>
  C21. On any hardware a lifetime that reports success ended with an empty slot bitmap, none of the eight
  AIC interrupts mapped, and both port registers read back as 0; and whatever it reports, no
  interrupt, domain, firmware node or reference is left.
\<close>

theorem with_msi_success_released:
  assumes "run_state (a1625_with_msi K port operate ctx) s = (r, s')"
    and "\<And>x a. keeps x (client2 operate a)"
  shows "held (trace s') x = held (trace s) x \<and> (r = 0 \<longrightarrow> msi_released port s')"
proof
  show "held (trace s') x = held (trace s) x"
    by (rule msi.run_keeps [OF _ assms(2,1)]) simp
  have "wp (a1625_with_msi K port operate ctx) (\<lambda>r s'. r = 0 \<longrightarrow> msi_released port s') s"
    by (rule wp_with_msi_success) simp
  from wp_run [OF this assms(1)] show "r = 0 \<longrightarrow> msi_released port s'" .
qed

lemma upto_eight: "[0..<8] = [0, 1, 2, 3, 4, 5, 6, 7 :: nat]"
  by (simp add: upt_rec)

text \<open>On the board all eight messages are allocated, checked and released.\<close>

lemma msi_on_board: "fst (run_state (a1625_with_msi board 0x602004000 None 0) boot) = 0"
  by (simp add: msi_run run_simps upto_eight)

theorem with_msi_success_released_witness:
  "msi_released 0x602004000 (snd (run_state (a1625_with_msi board 0x602004000 None 0) boot))"
proof -
  have "keeps x (client2 None a)" for x and a :: "ptr \<times> u64"
    by (simp add: client2_def keeps_return)
  from with_msi_success_released [OF run_split [OF msi_on_board] this] show ?thesis by simp
qed

end
