(* ===== verification/DeviceTree.thy ===== *)
theory DeviceTree
  imports Board
begin

text \<open>
  What the three users of a device-tree changeset share: adding a list of properties until the first
  failure, the removal of a node after its changeset, and what a trace says about a changeset: the
  queue of its entries, and whether automatic population of the node is suppressed.
\<close>

section \<open>Adding properties\<close>

text \<open>\<open>ret = add(...); if (!ret) ret = add(...); ...\<close>\<close>

fun add_props :: "kernel \<Rightarrow> changeset \<Rightarrow> ptr \<Rightarrow> (string \<times> prop_value) list \<Rightarrow> int prog" where
  "add_props K cs n [] = return 0"
| "add_props K cs n (p # ps) = do {
     r \<leftarrow> of_changeset_add_prop K cs n (fst p) (snd p);
     if r \<noteq> 0 then return r else add_props K cs n ps
   }"

text \<open>
  Revert what was applied, detach any remainder, lift the population flag; a failure of either
  step replaces the status.
\<close>

definition remove_node :: "kernel \<Rightarrow> changeset \<Rightarrow> ptr \<Rightarrow> bool \<Rightarrow> int \<Rightarrow> int prog" where
  "remove_node K cs n applied r0 = do {
     r \<leftarrow> (if applied then do {
             cleanup \<leftarrow> of_changeset_revert K cs;
             return (if cleanup \<noteq> 0 then cleanup else r0)
           } else return r0);
     detached \<leftarrow> node_is_detached K n;
     r \<leftarrow> (if \<not> detached then do {
             cleanup \<leftarrow> of_detach_node K n;
             return (if cleanup \<noteq> 0 then cleanup else r)
           } else return r);
     clear_populated K n;
     return r
   }"

lemma add_props_emits [emits_rules]:
  "(\<And>p r. P (Call (Cs (ChangesetAddProp cs n (fst p) (snd p))) r)) \<Longrightarrow> emits P (add_props K cs n ps)"
  by (induction ps) (auto intro!: emits_rules)

lemma add_props_neutral: "emits neutral (add_props K cs n ps)"
  by (intro emits_rules) (simp add: neutral_def)

section \<open>The queue of a changeset\<close>

datatype (plugins only: code) cs_entry = AttachNode ptr | SetProp string prop_value

fun move_first_to_last :: "'a list \<Rightarrow> 'a list" where
  "move_first_to_last [] = []"
| "move_first_to_last (x # xs) = xs @ [x]"

fun cs_queue :: "changeset \<Rightarrow> event list \<Rightarrow> cs_entry list" where
  "cs_queue c [] = []"
| "cs_queue c (e # t) =
     (case e of
        Call (Cs (ChangesetInit d)) r \<Rightarrow> if d = c then [] else cs_queue c t
      | Call (Cs (ChangesetCreateNode d p n)) r \<Rightarrow>
          if d = c \<and> r_val r \<noteq> 0 then cs_queue c t @ [AttachNode (r_val r)] else cs_queue c t
      | Call (Cs (ChangesetAddProp d n s v)) r \<Rightarrow>
          if d = c \<and> r_ret r = 0 then cs_queue c t @ [SetProp s v] else cs_queue c t
      | Call (Cs (ChangesetAttachLast d)) r \<Rightarrow>
          if d = c then move_first_to_last (cs_queue c t) else cs_queue c t
      | _ \<Rightarrow> cs_queue c t)"

definition set_props :: "(string \<times> prop_value) list \<Rightarrow> cs_entry list" where
  "set_props ps = map (\<lambda>p. SetProp (fst p) (snd p)) ps"

lemma move_first_to_last_Cons_append [simp]: "move_first_to_last ([x] @ xs) = xs @ [x]"
  by simp

lemma wp_add_props:
  assumes "\<And>r s'. (r = 0 \<Longrightarrow> cs_queue cs (trace s') = cs_queue cs (trace s) @ set_props ps) \<Longrightarrow> Q r s'"
  shows "wp (add_props K cs n ps) Q s"
  using assms
proof (induction ps arbitrary: s)
  case Nil
  then show ?case by (auto intro!: wp_rules simp: set_props_def)
next
  case (Cons p ps)
  show ?case
    unfolding add_props.simps
    by (intro wp_rules Cons.IH Cons.prems) (auto simp: set_props_def)
qed

section \<open>Automatic population\<close>

text \<open>
  While \<open>OF_POPULATED\<close> is set on a node the kernel does not create a device for it. The discipline:
  a changeset is applied and reverted only with the flag set and with no device
  of the stage left, so that the only device for the node is the one the stage creates and removes.
  \<open>device_gone\<close> says from the trace that the stage has no live device.
\<close>

fun populated :: "ptr \<Rightarrow> event list \<Rightarrow> bool" where
  "populated n [] = False"
| "populated n (e # t) =
     (case e of
        Call (Of (NodeSetPopulated m)) _ \<Rightarrow> m = n \<or> populated n t
      | Call (Of (NodeClearPopulated m)) _ \<Rightarrow> m \<noteq> n \<and> populated n t
      | _ \<Rightarrow> populated n t)"

fun cs_node :: "changeset \<Rightarrow> event list \<Rightarrow> ptr" where
  "cs_node c [] = 0"
| "cs_node c (e # t) =
     (case e of
        Call (Cs (ChangesetCreateNode d p n)) r \<Rightarrow> if d = c then r_val r else cs_node c t
      | _ \<Rightarrow> cs_node c t)"

fun tree_guarded :: "changeset \<Rightarrow> (event list \<Rightarrow> bool) \<Rightarrow> event list \<Rightarrow> bool" where
  "tree_guarded c device_gone [] = True"
| "tree_guarded c device_gone (e # t) =
     (tree_guarded c device_gone t \<and>
      (case e of
         Call (Cs (ChangesetApply d)) _ \<Rightarrow> d = c \<longrightarrow> populated (cs_node c t) t \<and> device_gone t
       | Call (Cs (ChangesetRevert d)) _ \<Rightarrow> d = c \<longrightarrow> populated (cs_node c t) t \<and> device_gone t
       | _ \<Rightarrow> True))"

text \<open>Events that leave a changeset alone.\<close>

definition cs_event :: "changeset \<Rightarrow> event \<Rightarrow> bool" where
  "cs_event c e \<longleftrightarrow> (case e of
     Call (Cs x) _ \<Rightarrow>
       (case x of ChangesetInit d \<Rightarrow> d = c | ChangesetDestroy d \<Rightarrow> d = c
        | ChangesetCreateNode d _ _ \<Rightarrow> d = c | ChangesetAddProp d _ _ _ \<Rightarrow> d = c
        | ChangesetAttachLast d \<Rightarrow> d = c | ChangesetApply d \<Rightarrow> d = c | ChangesetRevert d \<Rightarrow> d = c)
   | _ \<Rightarrow> False)"

lemma cs_frame:
  assumes "list_all (\<lambda>e. \<not> cs_event c e) new"
  shows "tree_guarded c g (new @ t) = tree_guarded c g t" "cs_node c (new @ t) = cs_node c t"
    "cs_queue c (new @ t) = cs_queue c t"
  using assms
  by (induction new) (auto simp: cs_event_def split: event.splits call.splits changeset_call.splits)

end
