(* ===== verification/PciNode.thy ===== *)
theory PciNode
  imports DeviceTree
begin

text \<open>
  a1625_pci_node.h: the temporary device-tree node that routes the DMA of the Wi-Fi endpoint to
  stream 0 of the DART. Created before the PCI scan and removed after all PCI devices are gone.
\<close>

section \<open>Model\<close>

text \<open>\<open>struct a1625_pci_node\<close>; its changeset is \<open>PciChanges\<close>.\<close>

record pci_node =
  pn_node :: ptr
  pn_applied :: bool

definition no_pci_node :: pci_node where
  "no_pci_node = \<lparr>pn_node = 0, pn_applied = False\<rparr>"

definition pci_props :: "(string \<times> prop_value) list" where
  "pci_props =
     [(''device_type'', PropString ''pci''),
      (''#address-cells'', PropU32 3),
      (''#size-cells'', PropU32 2),
      (''bus-range'', PropU32s [0, 1]),
      (''iommu-map'', PropU32s [0x100, 0xa1625001, 0, 1]),
      (''iommu-map-mask'', PropU32 0xffff)]"

definition a1625_pci_node_remove :: "kernel \<Rightarrow> pci_node \<Rightarrow> int prog" where
  "a1625_pci_node_remove K st = do {
     r \<leftarrow> (if pn_applied st then of_changeset_revert K PciChanges else return 0);
     r \<leftarrow> (if pn_node st \<noteq> 0 then do {
             detached \<leftarrow> node_is_detached K (pn_node st);
             r \<leftarrow> (if \<not> detached then do {
                     cleanup \<leftarrow> of_detach_node K (pn_node st);
                     return (if cleanup \<noteq> 0 then cleanup else r)
                   } else return r);
             clear_populated K (pn_node st);
             return r
           } else return r);
     of_changeset_destroy K PciChanges;
     of_node_put K (pn_node st);
     return r
   }"

text \<open>The status and the structure as the function leaves it.\<close>

definition a1625_pci_node_create :: "kernel \<Rightarrow> ptr \<Rightarrow> (int \<times> pci_node) prog" where
  "a1625_pci_node_create K dart = do {
     of_changeset_init K PciChanges;
     dn \<leftarrow> dev_of_node K dart;
     ph \<leftarrow> (if dn = 0 then return 0 else node_phandle K dn);
     if dn = 0 \<or> ph \<noteq> 0xa1625001 then return (- EINVAL, no_pci_node) else do {
     existing \<leftarrow> of_find_node_by_path K ''/soc/pcie@610000000'';
     if existing \<noteq> 0 then do { of_node_put K existing; return (- EBUSY, no_pci_node) } else do {
     dn \<leftarrow> dev_of_node K dart;
     parent \<leftarrow> node_parent K dn;
     node \<leftarrow> of_changeset_create_node K PciChanges parent ''pcie@610000000'';
     if node = 0 then return (- ENOMEM, no_pci_node) else do {
     r \<leftarrow> add_props K PciChanges node pci_props;
     if r \<noteq> 0 then return (r, \<lparr>pn_node = node, pn_applied = False\<rparr>) else do {
     set_populated K node;
     r \<leftarrow> of_changeset_apply K PciChanges;
     return (r, \<lparr>pn_node = node, pn_applied = (r = 0)\<rparr>)
     }}}}
   }"

section \<open>What the structure owns\<close>

definition node_owned :: "pci_node \<Rightarrow> resource \<Rightarrow> int" where
  "node_owned st x = unit_at (Some (ChangesetLive PciChanges)) x + unit_at (unless_null NodeRef (pn_node st)) x +
     (if pn_applied st then unit_at (Some (ChangesetApplied PciChanges)) x else 0)"

lemma wp_pci_node_create:
  assumes "\<And>r st s'. (\<And>x. held (trace s') x = held (trace s) x + node_owned st x) \<Longrightarrow> (r = 0 \<Longrightarrow> pn_applied st \<and> pn_node st \<noteq> 0)
    \<Longrightarrow> Q (r, st) s'"
  shows "wp (a1625_pci_node_create K dart) Q s"
  unfolding a1625_pci_node_create_def
  by (intro wp_rules wp_neutral [OF add_props_neutral] assms)
    (simp_all add: node_owned_def no_pci_node_def unless_null_def)

lemma wp_pci_node_remove:
  assumes "\<And>r s'. (\<And>x. held (trace s') x = held (trace s) x - node_owned st x) \<Longrightarrow> Q r s'"
  shows "wp (a1625_pci_node_remove K st) Q s"
  unfolding a1625_pci_node_remove_def
  by (intro wp_rules assms) (simp_all add: node_owned_def unless_null_def)

section \<open>Around a client\<close>

text \<open>
  Between creation and removal a client may run. The bracket gives everything back on every path,
  whether or not the creation succeeded.
\<close>

definition with_pci_node :: "kernel \<Rightarrow> ptr \<Rightarrow> (pci_node \<Rightarrow> int prog) \<Rightarrow> int prog" where
  "with_pci_node K dart f = do {
     (r, st) \<leftarrow> a1625_pci_node_create K dart;
     r \<leftarrow> (if r \<noteq> 0 then return r else f st);
     cleanup \<leftarrow> a1625_pci_node_remove K st;
     return (if cleanup \<noteq> 0 then cleanup else r)
   }"

lemma with_pci_node_keeps:
  assumes "\<And>st. keeps x (f st)"
  shows "keeps x (with_pci_node K dart f)"
  unfolding with_pci_node_def
  by (intro keepsI wp_rules wp_pci_node_create wp_pci_node_remove wp_keeps [OF assms]) simp_all

interpretation pci_node: lifetime "with_pci_node K dart" "\<lambda>f. f" "\<lambda>_. False" for K dart
  by unfold_locales (rule with_pci_node_keeps)

section \<open>The applied node\<close>

fun pci_queued :: "event list \<Rightarrow> bool" where
  "pci_queued [] = True"
| "pci_queued (e # t) =
     (pci_queued t \<and>
      (case e of
         Call (Cs (ChangesetApply d)) _ \<Rightarrow> d = PciChanges \<longrightarrow>
           cs_queue PciChanges t = AttachNode (cs_node PciChanges t) # set_props pci_props \<and>
           populated (cs_node PciChanges t) t
       | _ \<Rightarrow> True))"

lemma wp_pci_node_create_queued:
  assumes "pci_queued (trace s)" and "\<And>r st s'. pci_queued (trace s') \<Longrightarrow> Q (r, st) s'"
  shows "wp (a1625_pci_node_create K dart) Q s"
proof -
  have props: "wp (add_props K PciChanges node ps) R t"
    if "pci_queued (trace t)" "cs_node PciChanges (trace t) = node"
      "\<And>r s'. (r = 0 \<Longrightarrow> cs_queue PciChanges (trace s') = cs_queue PciChanges (trace t) @ set_props ps)
        \<Longrightarrow> pci_queued (trace s') \<Longrightarrow> cs_node PciChanges (trace s') = node \<Longrightarrow> R r s'" for node ps R t
    using that
  proof (induction ps arbitrary: t)
    case Nil
    then show ?case by (auto intro!: wp_rules simp: set_props_def)
  next
    case (Cons p ps)
    from Cons.prems(1,2) show ?case
      unfolding add_props.simps by (intro wp_rules Cons.IH Cons.prems(3)) (simp_all add: set_props_def)
  qed
  show ?thesis
    unfolding a1625_pci_node_create_def using assms(1)
    by (intro wp_rules props assms(2)) (simp_all add: set_props_def)
qed

section \<open>Properties\<close>

text \<open>
  The PCI node's lifetime: creating the node, running any client that gives back what it takes,
  and removing the node leaves every resource count unchanged, also when the creation stopped
  half-way and when the removal reports an error.
\<close>

theorem pci_node_leak_free:
  assumes "run_state (a1625_pci_node_create K dart) s = ((r, st), s1)"
    and "held (trace s2) x = held (trace s1) x"
    and "run_state (a1625_pci_node_remove K st) s2 = (r', s3)"
  shows "held (trace s3) x = held (trace s) x"
proof -
  have "wp (a1625_pci_node_create K dart) (\<lambda>p s'. held (trace s') x = held (trace s) x + node_owned (snd p) x) s"
    by (rule wp_pci_node_create) simp
  from wp_run [OF this assms(1)] have 1: "held (trace s1) x = held (trace s) x + node_owned st x" by simp
  have "wp (a1625_pci_node_remove K st) (\<lambda>_ s'. held (trace s') x = held (trace s2) x - node_owned st x) s2"
    by (rule wp_pci_node_remove) simp
  from wp_run [OF this assms(3)] 1 assms(2) show ?thesis by simp
qed


lemmas pci_node_run = a1625_pci_node_create_def a1625_pci_node_remove_def pci_props_def no_pci_node_def

lemma pci_node_on_board:
  "fst (run_state (a1625_pci_node_create board 0x700) boot) = (0, \<lparr>pn_node = 1, pn_applied = True\<rparr>)"
  by (simp add: pci_node_run run_simps)


theorem pci_node_leak_free_witness:
  "let s1 = snd (run_state (a1625_pci_node_create board 0x700) boot);
       s3 = snd (run_state (a1625_pci_node_remove board \<lparr>pn_node = 1, pn_applied = True\<rparr>) s1)
   in held (trace s3) (ChangesetApplied PciChanges) = 0"
  using pci_node_leak_free [OF run_split [OF pci_node_on_board] refl run_split [OF refl]]
  by (simp add: Let_def)

end
