(* ===== verification/ScanConfig.thy ===== *)
theory ScanConfig
  imports Msi PciNode
begin

text \<open>
  The configuration-space half of a1625_pci_scan.h: the bounded walks through the capability lists,
  the controls that are saved before the scan, and the two accessors the PCI core calls back, with
  the filter that decides which configuration writes reach the hardware.
\<close>

section \<open>Constants (include/uapi/linux/pci_regs.h)\<close>

abbreviation PCI_COMMAND :: int where "PCI_COMMAND \<equiv> 4"
abbreviation PCI_COMMAND_MASTER :: u32 where "PCI_COMMAND_MASTER \<equiv> 4"
abbreviation PCI_PRIMARY_BUS :: int where "PCI_PRIMARY_BUS \<equiv> 0x18"
abbreviation PCI_SEC_STATUS :: int where "PCI_SEC_STATUS \<equiv> 0x1e"
abbreviation PCI_BRIDGE_CONTROL :: int where "PCI_BRIDGE_CONTROL \<equiv> 0x3e"
abbreviation PCI_BRIDGE_CTL_BUS_RESET :: u32 where "PCI_BRIDGE_CTL_BUS_RESET \<equiv> 0x40"
abbreviation PCI_ROM_ADDRESS :: int where "PCI_ROM_ADDRESS \<equiv> 0x30"
abbreviation PCI_ROM_ADDRESS1 :: int where "PCI_ROM_ADDRESS1 \<equiv> 0x38"
abbreviation PCI_ROM_ADDRESS_ENABLE :: u32 where "PCI_ROM_ADDRESS_ENABLE \<equiv> 1"
abbreviation PCI_PM_CTRL_STATE_MASK :: u32 where "PCI_PM_CTRL_STATE_MASK \<equiv> 3"
abbreviation PCI_EXP_LNKCTL_LD :: u32 where "PCI_EXP_LNKCTL_LD \<equiv> 0x10"
abbreviation PCI_MSI_FLAGS_ENABLE :: u32 where "PCI_MSI_FLAGS_ENABLE \<equiv> 1"
abbreviation PCI_MSI_FLAGS_QSIZE :: u32 where "PCI_MSI_FLAGS_QSIZE \<equiv> 0x70"
abbreviation PCI_MSI_FLAGS_64BIT :: u32 where "PCI_MSI_FLAGS_64BIT \<equiv> 0x80"
abbreviation PCI_MSI_FLAGS_MASKBIT :: u32 where "PCI_MSI_FLAGS_MASKBIT \<equiv> 0x100"

text \<open>\<open>0xffff & ~PCI_PM_CTRL_PME_STATUS\<close> and \<open>0xffff & ~PCI_EXP_LNKCTL_RL\<close>.\<close>

abbreviation PM_CONTROL_MASK :: u32 where "PM_CONTROL_MASK \<equiv> 0x7fff"
abbreviation LINK_CONTROL_MASK :: u32 where "LINK_CONTROL_MASK \<equiv> 0xffdf"

section \<open>Capability lists\<close>

text \<open>The loops with their own bounds: 48 and 256 rounds; the last argument is what is left.\<close>

fun scan_cap_loop :: "kernel \<Rightarrow> u64 \<Rightarrow> u32 \<Rightarrow> u32 \<Rightarrow> nat \<Rightarrow> int prog" where
  "scan_cap_loop K cfg cap_id pos 0 = return (- ENOENT)"
| "scan_cap_loop K cfg cap_id pos (Suc n) =
     (if pos = 0 then return (- ENOENT)
      else if pos < 0x40 \<or> 0xfc < pos \<or> pos AND 3 \<noteq> 0 then return (- EINVAL)
      else do {
        found \<leftarrow> readb K (cfg + ucast pos);
        if found = cap_id then return (uint pos) else do {
        pos \<leftarrow> readb K (cfg + ucast pos + 1);
        scan_cap_loop K cfg cap_id pos n
        }
      })"

definition a1625_scan_cap :: "kernel \<Rightarrow> u64 \<Rightarrow> u32 \<Rightarrow> int prog" where
  "a1625_scan_cap K cfg cap_id = do {
     pos \<leftarrow> readb K (cfg + 0x34);
     scan_cap_loop K cfg cap_id pos 48
   }"

fun scan_extcap_loop :: "kernel \<Rightarrow> u64 \<Rightarrow> u32 \<Rightarrow> u32 \<Rightarrow> nat \<Rightarrow> int prog" where
  "scan_extcap_loop K cfg cap_id pos 0 = return (- ENOENT)"
| "scan_extcap_loop K cfg cap_id pos (Suc n) =
     (if pos = 0 then return (- ENOENT)
      else if pos < 0x100 \<or> 0xffc < pos \<or> pos AND 3 \<noteq> 0 then return (- EINVAL)
      else do {
        header \<leftarrow> readl K (cfg + ucast pos);
        if header = 0 \<or> header = all_ones then return (- ENOENT)
        else if header AND 0xffff = cap_id then return (uint pos)
        else scan_extcap_loop K cfg cap_id (drop_bit 20 header AND 0xffc) n
      })"

definition a1625_scan_extcap :: "kernel \<Rightarrow> u64 \<Rightarrow> u32 \<Rightarrow> int prog" where
  "a1625_scan_extcap K cfg cap_id = scan_extcap_loop K cfg cap_id 0x100 256"

section \<open>Saved controls\<close>

definition upd_scan :: "(pci_scan \<Rightarrow> pci_scan) \<Rightarrow> unit prog" where
  "upd_scan f = upd_machine (\<lambda>s. s\<lparr>the_scan := f (the_scan s)\<rparr>)"

definition get_scan :: "pci_scan prog" where
  "get_scan = do { s \<leftarrow> get_machine; return (the_scan s) }"

definition reject :: "unit prog" where
  "reject = upd_scan (\<lambda>scan. scan\<lparr>ps_rejected := True\<rparr>)"

definition cfg_of_bus :: "pci_scan \<Rightarrow> u32 \<Rightarrow> u64" where
  "cfg_of_bus scan bus = (if bus \<noteq> 0 then ps_ep scan else ps_rc scan)"

text \<open>
  \<open>offset\<close> is stored in the \<open>u16\<close> member \<open>where\<close>, \<open>bus\<close> and \<open>width\<close> in \<open>u8\<close> members.
\<close>

definition a1625_scan_save_control :: "kernel \<Rightarrow> u32 \<Rightarrow> int \<Rightarrow> u32 \<Rightarrow> u32 \<Rightarrow> unit prog" where
  "a1625_scan_save_control K bus offset width msk = do {
     scan \<leftarrow> get_scan;
     value \<leftarrow> (if width = 2 then readw K (cfg_of_bus scan bus + word_of_int offset)
               else readl K (cfg_of_bus scan bus + word_of_int offset));
     upd_scan (\<lambda>scan. scan\<lparr>ps_controls := ps_controls scan @
       [\<lparr>sc_where = word_of_int offset, sc_bus = ucast bus, sc_size = ucast width,
         sc_saved = value AND msk, sc_mask = msk\<rparr>]\<rparr>)
   }"

text \<open>A list of \<open>(bus, offset, width, mask)\<close> saved in order.\<close>

fun save_all :: "kernel \<Rightarrow> (u32 \<times> int \<times> u32 \<times> u32) list \<Rightarrow> unit prog" where
  "save_all K [] = return ()"
| "save_all K (c # cs) = do {
     (case c of (bus, offset, width, msk) \<Rightarrow> a1625_scan_save_control K bus offset width msk);
     save_all K cs
   }"

text \<open>One round of the loop over the two buses.\<close>

definition save_bus_controls :: "kernel \<Rightarrow> u32 \<Rightarrow> int prog" where
  "save_bus_controls K bus = do {
     scan \<leftarrow> get_scan;
     let cfg = cfg_of_bus scan bus;
     pm \<leftarrow> a1625_scan_cap K cfg 1;
     exp \<leftarrow> a1625_scan_cap K cfg 0x10;
     l1ss \<leftarrow> a1625_scan_extcap K cfg 0x1e;
     if pm < 0 \<or> exp < 0 \<or> l1ss < 0 \<or> 0xfe < exp + 0x28 \<or> 0xffc < l1ss + 0xc then return (- ENODEV) else do {
     state \<leftarrow> readw K (cfg + word_of_int (pm + 4));
     if state AND PCI_PM_CTRL_STATE_MASK \<noteq> 0 then return (- EBUSY) else do {
     save_all K
       [(bus, pm + 4, 2, PM_CONTROL_MASK),
        (bus, exp + 0x28, 2, 0xffff),
        (bus, exp + 0x10, 2, LINK_CONTROL_MASK),
        (bus, l1ss + 8, 4, all_ones),
        (bus, l1ss + 0xc, 4, all_ones)];
     return 0
     }}
   }"

definition save_msi_controls :: "kernel \<Rightarrow> int prog" where
  "save_msi_controls K = do {
     scan \<leftarrow> get_scan;
     cap \<leftarrow> a1625_scan_cap K (ps_ep scan) 5;
     upd_scan (\<lambda>scan. scan\<lparr>ps_msi_cap := cap\<rparr>);
     if cap < 0 \<or> 0xe8 < cap then return (- ENODEV) else do {
     flags \<leftarrow> readw K (ps_ep scan + word_of_int (cap + 2));
     if flags AND PCI_MSI_FLAGS_ENABLE \<noteq> 0 then return (- EBUSY) else do {
     let msi_64 = (flags AND PCI_MSI_FLAGS_64BIT \<noteq> 0);
     upd_scan (\<lambda>scan. scan\<lparr>ps_msi_64 := msi_64\<rparr>);
     save_all K
       ([(1, cap + 2, 2, 0xffff), (1, cap + 4, 4, all_ones)] @
        (if msi_64 then [(1, cap + 8, 4, all_ones)] else []) @
        [(1, cap + (if msi_64 then 0xc else 8), 2, 0xffff)] @
        (if flags AND PCI_MSI_FLAGS_MASKBIT \<noteq> 0
         then [(1, cap + (if msi_64 then 0x10 else 0xc), 4, all_ones)] else []));
     return 0
     }}
   }"

definition a1625_scan_save_controls :: "kernel \<Rightarrow> int prog" where
  "a1625_scan_save_controls K = do {
     r \<leftarrow> save_bus_controls K 0;
     if r \<noteq> 0 then return r else do {
     r \<leftarrow> save_bus_controls K 1;
     if r \<noteq> 0 then return r else do {
     save_all K [(0, 0x1c, 2, 0xffff), (0, 0x24, 4, all_ones)];
     scan \<leftarrow> get_scan;
     pwhen (ps_assign_memory scan) (save_all K
       [(0, 0x20, 4, all_ones), (0, 0x28, 4, all_ones), (0, 0x2c, 4, all_ones), (0, 0x30, 4, all_ones)]);
     r \<leftarrow> (if ps_msi_domain scan \<noteq> 0 then save_msi_controls K else return 0);
     if r \<noteq> 0 then return r else do {
     pwhen (ps_bind_firmware scan) (save_all K
       [(1, 0x80, 4, all_ones), (1, 0xdc, 2, 0xffff), (1, 0x228, 4, all_ones),
        (1, 0x4e0, 4, all_ones), (1, 0x4f4, 4, all_ones)]);
     return 0
     }}}
   }"

section \<open>The accessors of the host bridge\<close>

text \<open>\<open>PCI_DEVFN(1, 0)\<close> is 8.\<close>

definition a1625_scan_config :: "pci_scan \<Rightarrow> u32 \<Rightarrow> u32 \<Rightarrow> u64" where
  "a1625_scan_config scan bus devfn =
     (if bus = 0 \<and> devfn = 8 then ps_rc scan
      else if bus = 1 \<and> devfn = 0 then ps_ep scan
      else 0)"

abbreviation PCIBIOS_DEVICE_NOT_FOUND :: int where "PCIBIOS_DEVICE_NOT_FOUND \<equiv> 0x86"
abbreviation PCIBIOS_BAD_REGISTER_NUMBER :: int where "PCIBIOS_BAD_REGISTER_NUMBER \<equiv> 0x87"
abbreviation PCIBIOS_SET_FAILED :: int where "PCIBIOS_SET_FAILED \<equiv> 0x88"

definition a1625_scan_read :: "kernel \<Rightarrow> u32 \<Rightarrow> u32 \<Rightarrow> int \<Rightarrow> int \<Rightarrow> (int \<times> u32) prog" where
  "a1625_scan_read K bus devfn offset width = do {
     scan \<leftarrow> get_scan;
     let cfg = a1625_scan_config scan bus devfn;
     if cfg = 0 then return (PCIBIOS_DEVICE_NOT_FOUND, all_ones)
     else if offset < 0 \<or> 4096 < offset + width \<or> (width \<noteq> 1 \<and> width \<noteq> 2 \<and> width \<noteq> 4) \<or> offset AND (width - 1) \<noteq> 0
     then return (PCIBIOS_BAD_REGISTER_NUMBER, all_ones)
     else do {
       value \<leftarrow> (if width = 4 then readl K (cfg + word_of_int offset)
                 else if width = 2 then readw K (cfg + word_of_int offset)
                 else readb K (cfg + word_of_int offset));
       return (0, value)
     }
   }"

text \<open>The loop over the saved controls: a matching entry overrides what was decided before.\<close>

definition control_matches :: "u32 \<Rightarrow> int \<Rightarrow> int \<Rightarrow> scan_control \<Rightarrow> bool" where
  "control_matches bus offset width c \<longleftrightarrow>
     uint (sc_bus c) = uint bus \<and> uint (sc_where c) = offset \<and> uint (sc_size c) = width"

definition control_allows :: "u32 \<Rightarrow> scan_control \<Rightarrow> bool" where
  "control_allows value c =
     (if sc_mask c = LINK_CONTROL_MASK then value AND PCI_EXP_LNKCTL_LD = 0
      else if sc_mask c = PM_CONTROL_MASK then value AND PCI_PM_CTRL_STATE_MASK = 0
      else True)"

fun filter_controls :: "scan_control list \<Rightarrow> u32 \<Rightarrow> int \<Rightarrow> int \<Rightarrow> u32 \<Rightarrow> bool \<Rightarrow> bool" where
  "filter_controls [] bus offset width value allowed = allowed"
| "filter_controls (c # cs) bus offset width value allowed =
     filter_controls cs bus offset width value
       (if control_matches bus offset width c then control_allows value c else allowed)"

text \<open>
  The decision of \<open>a1625_scan_write\<close>, in the order of the code, with the width and value that are
  finally written.
\<close>

definition write_filter :: "pci_scan \<Rightarrow> u32 \<Rightarrow> int \<Rightarrow> int \<Rightarrow> u32 \<Rightarrow> bool \<times> int \<times> u32" where
  "write_filter scan bus offset width value =
     (let allowed = (offset = PCI_COMMAND \<and> width = 2 \<and> (value AND PCI_COMMAND_MASTER = 0 \<or> ps_firmware_active scan));
          allowed = (if width = 4 \<and> 0x10 \<le> offset \<and> offset \<le> (if bus \<noteq> 0 then 0x24 else 0x14) \<and> offset AND 3 = 0
                     then True else allowed);
          allowed = (if bus = 0 \<and> offset = PCI_PRIMARY_BUS \<and> width = 4
                     then value AND 0xffffff = 0x010100 \<or> value AND 0xffffff = 0 else allowed);
          allowed = (if bus = 0 \<and> offset = PCI_BRIDGE_CONTROL \<and> width = 2
                     then value AND PCI_BRIDGE_CTL_BUS_RESET = 0 else allowed);
          allowed = (if offset = (if bus \<noteq> 0 then PCI_ROM_ADDRESS else PCI_ROM_ADDRESS1) \<and> width = 4
                     then value AND PCI_ROM_ADDRESS_ENABLE = 0 else allowed);
          allowed = filter_controls (ps_controls scan) bus offset width value allowed;
          active = (bus = 1 \<and> ps_firmware_active scan);
          allowed = (if active \<and> offset = 0x80 \<and> width = 4
                     then value AND 0xfff = 0 \<and> 0x18000000 \<le> value \<and> value \<le> 0x1810f000 else allowed);
          link = (active \<and> offset = 0xbc \<and> width = 4);
          allowed = (if link then value AND PCI_EXP_LNKCTL_LD = 0 else allowed);
          width = (if link then 2 else width);
          value = (if link then value AND 0xffff else value);
          allowed = (if active \<and> offset = 0x98 \<and> width = 4 then value = 1 else allowed);
          allowed = (if bus = 0 \<and> offset = PCI_SEC_STATUS \<and> width = 2 \<and> value = 0xffff then True else allowed)
      in (allowed, width, value))"

definition a1625_scan_write :: "kernel \<Rightarrow> u32 \<Rightarrow> u32 \<Rightarrow> int \<Rightarrow> int \<Rightarrow> u32 \<Rightarrow> int prog" where
  "a1625_scan_write K bus devfn offset width value = do {
     scan \<leftarrow> get_scan;
     let cfg = a1625_scan_config scan bus devfn;
     if cfg = 0 then return PCIBIOS_DEVICE_NOT_FOUND
     else case write_filter scan bus offset width value of
       (allowed, width, value) \<Rightarrow>
         if \<not> allowed then do { reject; return PCIBIOS_SET_FAILED }
         else do {
           (if width = 2 then writew K value (cfg + word_of_int offset)
            else writel K value (cfg + word_of_int offset));
           return 0
         }
   }"

section \<open>Callbacks without further callbacks\<close>

definition leaf_callback :: "kernel \<Rightarrow> callback \<Rightarrow> unit prog" where
  "leaf_callback K cb =
     (case cb of
        CfgRead bus devfn offset width \<Rightarrow> do {
          (r, v) \<leftarrow> a1625_scan_read K bus devfn offset width;
          log_result cb r v
        }
      | CfgWrite bus devfn offset width value \<Rightarrow> do {
          r \<leftarrow> a1625_scan_write K bus devfn offset width value;
          log_result cb r 0
        }
      | _ \<Rightarrow> msi_callback K cb)"

fun run_leaf_callbacks :: "kernel \<Rightarrow> callback list \<Rightarrow> unit prog" where
  "run_leaf_callbacks K [] = return ()"
| "run_leaf_callbacks K (cb # cbs) = do { leaf_callback K cb; run_leaf_callbacks K cbs }"

text \<open>A kernel call during which the PCI core or a bound driver may call back.\<close>

definition call_with_leaves :: "kernel \<Rightarrow> call \<Rightarrow> resp prog" where
  "call_with_leaves K c = do {
     r \<leftarrow> kcall K c;
     run_leaf_callbacks K (r_cbs r);
     return r
   }"

end
