(* ===== verification/PciScan.thy ===== *)
theory PciScan
  imports ScanConfig
begin

text \<open>
  The enumeration half of a1625_pci_scan.h: the temporary host bridge, the identification of the two
  devices, the optional firmware binding with its bounded observation and its hold, and the
  restoration of the configuration space.

  \<open>HZ\<close> is a constant of the kernel's configuration and the parameter \<open>hz\<close>. The hold is the only
  loop of the program that may run forever; \<open>fuel\<close> bounds its rounds, and a run that needs more is
  marked \<open>out_of_fuel\<close>.
\<close>

section \<open>Identification\<close>

definition a1625_scan_endpoint_msi :: "kernel \<Rightarrow> ptr \<Rightarrow> int prog" where
  "a1625_scan_endpoint_msi K dev = do {
     res \<leftarrow> call_with_leaves K (Pci (PciAllocIrqVectors dev 1 1));
     if r_ret res < 0 then return (r_ret res) else do {
     irq \<leftarrow> int_call K (Pci (PciIrqVector dev 0));
     scan \<leftarrow> get_scan;
     let cap = ps_ep scan + word_of_int (ps_msi_cap scan);
     data \<leftarrow> (if 0 \<le> irq then val_call K (Irq (IrqDomainGetIrqData (ps_msi_domain scan) (word_of_int irq))) else return 0);
     flags \<leftarrow> readw K (cap + 2);
     parent_data \<leftarrow> (if data \<noteq> 0 then val_call K (Irq (IrqDataParent data)) else return 0);
     hwirq \<leftarrow> (if parent_data \<noteq> 0 then val_call K (Irq (IrqDataHwirq data)) else return 0);
     parent_hwirq \<leftarrow> (if parent_data \<noteq> 0 \<and> hwirq = 8 then val_call K (Irq (IrqDataHwirq parent_data)) else return 0);
     r \<leftarrow> (if \<not> (data \<noteq> 0 \<and> parent_data \<noteq> 0 \<and> hwirq = 8 \<and> parent_hwirq = 0x100e8 \<and>
                  flags AND PCI_MSI_FLAGS_ENABLE \<noteq> 0 \<and> flags AND PCI_MSI_FLAGS_QSIZE = 0)
           then return (- EIO) else do {
             lo \<leftarrow> readl K (cap + 4);
             if lo \<noteq> 0xbffff000 then return (- EIO) else do {
             hi \<leftarrow> (if ps_msi_64 scan then readl K (cap + 8) else return 0);
             if hi \<noteq> 0 then return (- EIO) else do {
             message \<leftarrow> readw K (cap + (if ps_msi_64 scan then 0xc else 8));
             return (if message = 8 then 0 else - EIO)
             }}
           });
     call_with_leaves K (Pci (PciFreeIrqVectors dev));
     flags \<leftarrow> readw K (cap + 2);
     return (if flags AND PCI_MSI_FLAGS_ENABLE \<noteq> 0 then - EIO else r)
     }
   }"

abbreviation DART_REGS :: u64 where "DART_REGS \<equiv> 0x602002000"

definition is_root_port :: "pci_dev \<Rightarrow> bool" where
  "is_root_port dev \<longleftrightarrow> pd_bus dev = 0 \<and> pd_devfn dev = 8 \<and> pd_vendor dev = 0x106b \<and> pd_device dev = 0x1002 \<and>
     pd_class dev = 0x060400"

definition is_radio :: "pci_dev \<Rightarrow> bool" where
  "is_radio dev \<longleftrightarrow> pd_bus dev = 1 \<and> pd_devfn dev = 0 \<and> pd_vendor dev = 0x14e4 \<and> pd_device dev = 0x43a3 \<and>
     pd_class dev = 0x028000"

text \<open>The reserved regions are the list the kernel hands out; the MSI page must be among them.\<close>

definition msi_page_reserved :: "callback list \<Rightarrow> bool" where
  "msi_page_reserved regions \<longleftrightarrow> ResvRegion 0xbffff000 4096 True \<in> set regions"

text \<open>
  The check of the radio's DMA domain; False when the function returns \<open>- ENODEV\<close> from inside.
\<close>

definition check_radio_iommu :: "kernel \<Rightarrow> ptr \<Rightarrow> bool prog" where
  "check_radio_iommu K dev = do {
     domain \<leftarrow> val_call K (Iommu (IommuGetDomainForDev dev));
     type \<leftarrow> (if domain = 0 then return 0 else u32_call K (Iommu (DomainType domain)));
     if domain = 0 \<or> (type \<noteq> 3 \<and> type \<noteq> 11) then do { reject; return False } else do {
     res \<leftarrow> kcall K (Iommu (IommuGetResvRegions dev));
     do_call K (Iommu (IommuPutResvRegions dev));
     regs \<leftarrow> ioremap K DART_REGS 0x100;
     tcr \<leftarrow> (if regs = 0 \<or> \<not> msi_page_reserved (r_cbs res) then return 0 else readl K (regs + 0xc));
     pwhen (regs = 0 \<or> \<not> msi_page_reserved (r_cbs res) \<or> tcr \<noteq> 0x80) reject;
     pwhen (regs \<noteq> 0) (iounmap K regs);
     return True
     }
   }"

text \<open>One BAR: assigned, in the window of the board, and of the expected size.\<close>

definition bar_valid :: "presource \<Rightarrow> u64 \<Rightarrow> bool" where
  "bar_valid res expected \<longleftrightarrow> pr_parent res \<and> pr_mem res \<and> \<not> pr_unset res \<and>
     pr_end res - pr_start res + 1 = expected \<and> 0x7c0000000 \<le> pr_start res \<and> pr_end res \<le> 0x7ffffffff"

definition a1625_scan_identify :: "kernel \<Rightarrow> pci_dev \<Rightarrow> int prog" where
  "a1625_scan_identify K dev = do {
     upd_scan (\<lambda>scan. scan\<lparr>ps_devices := ps_devices scan + 1\<rparr>);
     pwhen (\<not> is_root_port dev \<and> \<not> is_radio dev) reject;
     scan \<leftarrow> get_scan;
     bound \<leftarrow> dev_driver K (pd_ptr dev);
     command \<leftarrow> (if bound then return 0 else readw K ((if is_radio dev then ps_ep scan else ps_rc scan) + 4));
     pwhen (bound \<or> command AND PCI_COMMAND_MASTER \<noteq> 0) reject;
     translated \<leftarrow> (if is_radio dev \<and> ps_require_iommu scan then check_radio_iommu K (pd_ptr dev) else return True);
     if \<not> translated then return (- ENODEV) else do {
     scan \<leftarrow> get_scan;
     pwhen (is_radio dev \<and> ps_msi_domain scan \<noteq> 0 \<and> \<not> ps_bind_firmware scan \<and> \<not> ps_rejected scan) (do {
       r \<leftarrow> a1625_scan_endpoint_msi K (pd_ptr dev);
       pwhen (r \<noteq> 0) reject
     });
     pwhen (is_radio dev \<and> ps_assign_memory scan) (do {
       pwhen (\<not> bar_valid (pd_bar0 dev) 0x8000) reject;
       pwhen (\<not> bar_valid (pd_bar2 dev) 0x400000) reject
     });
     return (if is_root_port dev \<or> is_radio dev then 0 else - ENODEV)
     }
   }"

section \<open>Callbacks of the scan\<close>

definition scan_callback :: "kernel \<Rightarrow> callback \<Rightarrow> unit prog" where
  "scan_callback K cb =
     (case cb of
        Identify dev \<Rightarrow> do {
          r \<leftarrow> a1625_scan_identify K dev;
          log_result cb r 0
        }
      | _ \<Rightarrow> leaf_callback K cb)"

fun run_scan_callbacks :: "kernel \<Rightarrow> callback list \<Rightarrow> unit prog" where
  "run_scan_callbacks K [] = return ()"
| "run_scan_callbacks K (cb # cbs) = do { scan_callback K cb; run_scan_callbacks K cbs }"

definition call_with_scan :: "kernel \<Rightarrow> call \<Rightarrow> resp prog" where
  "call_with_scan K c = do {
     r \<leftarrow> kcall K c;
     run_scan_callbacks K (r_cbs r);
     return r
   }"

section \<open>Observation of the DART\<close>

text \<open>At most 2000 attempts, ten milliseconds apart; the last value read, 0 before the first.\<close>

fun await_fault :: "kernel \<Rightarrow> u64 \<Rightarrow> nat \<Rightarrow> u32 \<Rightarrow> u32 prog" where
  "await_fault K regs 0 error = return error"
| "await_fault K regs (Suc n) error = do {
     error \<leftarrow> readl K (regs + 0x10);
     if error AND BIT 31 \<noteq> 0 then return error
     else do {
       call_with_leaves K (Time (Msleep 10));
       await_fault K regs n error
     }
   }"

fun report_tables :: "kernel \<Rightarrow> u64 \<Rightarrow> ptr \<Rightarrow> u32 \<Rightarrow> u64 list \<Rightarrow> unit prog" where
  "report_tables K regs domain addr [] = return ()"
| "report_tables K regs domain addr (table # tables) = do {
     pwhen (domain \<noteq> 0) (do_call K (Iommu (IommuIovaToPhys domain ((ucast addr AND 0x3fffffff) OR push_bit 30 table))));
     ttbr \<leftarrow> readl K (regs + 0x40 + 4 * table);
     let base = push_bit 12 (ucast (ttbr AND 0xffffff) :: u64);
     valid \<leftarrow> (if ttbr AND BIT 31 = 0 then return False else bool_call K (Iommu (PfnValid (drop_bit 12 base))));
     pwhen valid (do_call K (Iommu (ReadOnceEntry (base + 8 * ucast (drop_bit 21 addr AND 0x1ff)))));
     report_tables K regs domain addr tables
   }"

definition a1625_scan_fault_tables :: "kernel \<Rightarrow> ptr \<Rightarrow> int prog" where
  "a1625_scan_fault_tables K dev = do {
     domain \<leftarrow> val_call K (Iommu (IommuGetDomainForDev dev));
     regs \<leftarrow> ioremap K DART_REGS 0x100;
     if regs = 0 then return (- ENOMEM) else do {
     error \<leftarrow> await_fault K regs 2000 0;
     pwhen (error AND BIT 31 \<noteq> 0) (do {
       addr \<leftarrow> readl K (regs + 0x1c);
       report_tables K regs domain addr [0, 1, 2, 3]
     });
     iounmap K regs;
     return 0
     }
   }"

section \<open>Hold\<close>

text \<open>\<open>time_before(a, b)\<close> of include/linux/jiffies.h.\<close>

definition time_before :: "u64 \<Rightarrow> u64 \<Rightarrow> bool" where
  "time_before a b \<longleftrightarrow> sint (a - b) < 0"

fun hold_loop :: "kernel \<Rightarrow> nat \<Rightarrow> ptr \<Rightarrow> u64 \<Rightarrow> bool \<Rightarrow> u64 \<Rightarrow> int prog" where
  "hold_loop K 0 dev regs until_signal deadline = do {
     upd_machine (\<lambda>s. s\<lparr>out_of_fuel := True\<rparr>);
     return 0
   }"
| "hold_loop K (Suc n) dev regs until_signal deadline = do {
     go \<leftarrow> (if until_signal then return True else do {
              now \<leftarrow> jiffies K;
              return (time_before now deadline)
            });
     if \<not> go then return 0 else do {
     signalled \<leftarrow> signal_pending K;
     if signalled then return 0 else do {
     device_lock K dev;
     bound \<leftarrow> dev_driver K dev;
     device_unlock K dev;
     error \<leftarrow> (if bound then readl K (regs + 0x10) else return 0);
     if \<not> bound \<or> error AND BIT 31 \<noteq> 0 then return (- EIO) else do {
     call_with_leaves K (Time (MsleepInterruptible 100));
     hold_loop K n dev regs until_signal deadline
     }}}
   }"

definition a1625_hold_wifi :: "kernel \<Rightarrow> u64 \<Rightarrow> nat \<Rightarrow> ptr \<Rightarrow> u32 \<Rightarrow> bool \<Rightarrow> int prog" where
  "a1625_hold_wifi K hz fuel dev seconds until_signal =
     (if seconds = 0 \<and> \<not> until_signal then return 0 else do {
      netdev \<leftarrow> val_call K (Dev (DevGetByName ''wlan0''));
      if netdev = 0 then return (- ENODEV) else do {
      ours \<leftarrow> bool_call K (Dev (NetdevParentIs netdev dev));
      do_call K (Dev (NetdevPut netdev));
      if \<not> ours then return (- ENODEV) else do {
      regs \<leftarrow> ioremap K DART_REGS 0x100;
      if regs = 0 then return (- ENOMEM) else do {
      now \<leftarrow> jiffies K;
      r \<leftarrow> hold_loop K fuel dev regs until_signal (now + ucast (seconds * ucast hz));
      iounmap K regs;
      return r
      }}}})"

section \<open>Firmware\<close>

definition firmware_observe :: "kernel \<Rightarrow> u64 \<Rightarrow> nat \<Rightarrow> ptr \<Rightarrow> int prog" where
  "firmware_observe K hz fuel dev = do {
     r \<leftarrow> a1625_scan_fault_tables K dev;
     device_lock K dev;
     device_unlock K dev;
     scan \<leftarrow> get_scan;
     if r = 0 then a1625_hold_wifi K hz fuel dev (ps_hold_seconds scan) (ps_hold_until_signal scan)
     else return r
   }"

text \<open>The snapshot of the translation registers after the driver is gone.\<close>

fun read_registers :: "kernel \<Rightarrow> u64 \<Rightarrow> u64 list \<Rightarrow> unit prog" where
  "read_registers K base [] = return ()"
| "read_registers K base (off # offs) = do { _ \<leftarrow> readl K (base + off); read_registers K base offs }"

definition firmware_bind :: "kernel \<Rightarrow> u64 \<Rightarrow> nat \<Rightarrow> ptr \<Rightarrow> int prog" where
  "firmware_bind K hz fuel dev = do {
     upd_scan (\<lambda>scan. scan\<lparr>ps_firmware_active := True\<rparr>);
     call_with_leaves K (Pci (PciBusAddDevice dev));
     res \<leftarrow> call_with_leaves K (Dev (DeviceAttach dev));
     r \<leftarrow> (if r_ret res < 0 then return (r_ret res) else firmware_observe K hz fuel dev);
     call_with_leaves K (Dev (DeviceReleaseDriver dev));
     regs \<leftarrow> ioremap K DART_REGS 0x100;
     r \<leftarrow> (if regs \<noteq> 0 then do {
             read_registers K regs [0xc, 0x10, 0x1c, 0x40, 0x44, 0x48, 0x4c];
             iounmap K regs;
             return r
           } else return (- ENOMEM));
     call_with_leaves K (Pci (PciClearMaster dev));
     return r
   }"

definition a1625_scan_firmware :: "kernel \<Rightarrow> u64 \<Rightarrow> nat \<Rightarrow> ptr \<Rightarrow> int prog" where
  "a1625_scan_firmware K hz fuel root = do {
     nr \<leftarrow> u32_call K (Pci (PciDomainNr root));
     child \<leftarrow> val_call K (Pci (PciFindBus nr 1));
     scan \<leftarrow> get_scan;
     if child = 0 \<or> \<not> ps_require_iommu scan \<or> ps_msi_domain scan = 0 \<or> \<not> ps_assign_memory scan \<or> ps_rejected scan
     then return (- EINVAL) else do {
     dev \<leftarrow> val_call K (Pci (PciGetSlot child 0));
     if dev = 0 then return (- ENODEV) else do {
     r \<leftarrow> int_call K (Dev (DeviceSetDriverOverride dev ''brcmfmac''));
     r \<leftarrow> (if r \<noteq> 0 then return r else firmware_bind K hz fuel dev);
     do_call K (Pci (PciDevPut dev));
     return (if r < 0 then r else 0)
     }}
   }"

section \<open>The saved header\<close>

text \<open>
  The local variables of \<open>a1625_pci_scan\<close> that hold configuration registers: command and bridge
  control as \<open>u16\<close> reads, bus numbers, BARs and ROM addresses.
\<close>

record scan_header =
  sh_rc_command :: u32
  sh_ep_command :: u32
  sh_control :: u32
  sh_bus_numbers :: u32
  sh_rc_bars :: "u32 list"
  sh_ep_bars :: "u32 list"
  sh_rc_rom :: u32
  sh_ep_rom :: u32

definition rc_bar_offsets :: "u64 list" where
  "rc_bar_offsets = [0x10, 0x14]"

definition ep_bar_offsets :: "u64 list" where
  "ep_bar_offsets = [0x10, 0x14, 0x18, 0x1c, 0x20, 0x24]"

fun read_bars :: "kernel \<Rightarrow> u64 \<Rightarrow> u64 list \<Rightarrow> u32 list prog" where
  "read_bars K cfg [] = return []"
| "read_bars K cfg (off # offs) = do {
     v \<leftarrow> readl K (cfg + off);
     vs \<leftarrow> read_bars K cfg offs;
     return (v # vs)
   }"

text \<open>None stands for the returns of \<open>- EBUSY\<close> before anything has been done.\<close>

definition scan_read_header :: "kernel \<Rightarrow> u64 \<Rightarrow> u64 \<Rightarrow> scan_header option prog" where
  "scan_read_header K rc ep = do {
     found \<leftarrow> bool_call K (Pci (PciFindBus 0 0));
     if found then return None else do {
     rc_id \<leftarrow> readl K rc;
     if rc_id \<noteq> 0x1002106b then return None else do {
     ep_id \<leftarrow> readl K ep;
     if ep_id \<noteq> 0x43a314e4 then return None else do {
     rc_command \<leftarrow> readw K (rc + 4);
     ep_command \<leftarrow> readw K (ep + 4);
     if rc_command \<noteq> 0 \<or> ep_command \<noteq> 0 then return None else do {
     control \<leftarrow> readw K (rc + 0x3e);
     bus_numbers \<leftarrow> readl K (rc + 0x18);
     if bus_numbers AND 0xffffff \<noteq> 0x010100 \<or> control AND PCI_BRIDGE_CTL_BUS_RESET \<noteq> 0 then return None else do {
     rc_bars \<leftarrow> read_bars K rc rc_bar_offsets;
     ep_bars \<leftarrow> read_bars K ep ep_bar_offsets;
     rc_rom \<leftarrow> readl K (rc + 0x38);
     ep_rom \<leftarrow> readl K (ep + 0x30);
     if (rc_rom OR ep_rom) AND PCI_ROM_ADDRESS_ENABLE \<noteq> 0 then return None
     else return (Some \<lparr>sh_rc_command = rc_command, sh_ep_command = ep_command, sh_control = control,
       sh_bus_numbers = bus_numbers, sh_rc_bars = rc_bars, sh_ep_bars = ep_bars,
       sh_rc_rom = rc_rom, sh_ep_rom = ep_rom\<rparr>)
     }}}}}
   }"

section \<open>Restoration\<close>

text \<open>The loop from the last saved control to the first; the list is given reversed.\<close>

fun restore_controls :: "kernel \<Rightarrow> u64 \<Rightarrow> u64 \<Rightarrow> scan_control list \<Rightarrow> int \<Rightarrow> int prog" where
  "restore_controls K rc ep [] r = return r"
| "restore_controls K rc ep (c # cs) r = do {
     let reg = (if sc_bus c \<noteq> 0 then ep else rc) + ucast (sc_where c);
     (if sc_size c = 2 then writew K (sc_saved c) reg else writel K (sc_saved c) reg);
     observed \<leftarrow> (if sc_size c = 2 then readw K reg else readl K reg);
     restore_controls K rc ep cs (if observed AND sc_mask c \<noteq> sc_saved c then - EIO else r)
   }"

fun restore_bars :: "kernel \<Rightarrow> u64 \<Rightarrow> (u64 \<times> u32) list \<Rightarrow> int \<Rightarrow> int prog" where
  "restore_bars K cfg [] r = return r"
| "restore_bars K cfg (b # bs) r = do {
     writel K (snd b) (cfg + fst b);
     v \<leftarrow> readl K (cfg + fst b);
     restore_bars K cfg bs (if v \<noteq> snd b then - EIO else r)
   }"

text \<open>The last comparison; reading stops at the first register that differs.\<close>

definition header_restored :: "kernel \<Rightarrow> u64 \<Rightarrow> u64 \<Rightarrow> scan_header \<Rightarrow> bool prog" where
  "header_restored K rc ep h = do {
     v \<leftarrow> readw K (rc + 4);
     if v \<noteq> sh_rc_command h then return False else do {
     v \<leftarrow> readw K (ep + 4);
     if v \<noteq> sh_ep_command h then return False else do {
     v \<leftarrow> readl K (rc + 0x38);
     if v \<noteq> sh_rc_rom h then return False else do {
     v \<leftarrow> readl K (ep + 0x30);
     if v \<noteq> sh_ep_rom h then return False else do {
     v \<leftarrow> readl K (rc + 0x18);
     if v \<noteq> sh_bus_numbers h then return False else do {
     v \<leftarrow> readw K (rc + 0x3e);
     return (v = sh_control h)
     }}}}}
   }"

definition scan_restore :: "kernel \<Rightarrow> u64 \<Rightarrow> u64 \<Rightarrow> scan_header \<Rightarrow> int \<Rightarrow> int prog" where
  "scan_restore K rc ep h r = do {
     scan \<leftarrow> get_scan;
     r \<leftarrow> restore_controls K rc ep (rev (ps_controls scan)) r;
     writew K (sh_ep_command h) (ep + 4);
     writew K (sh_rc_command h) (rc + 4);
     r \<leftarrow> restore_bars K rc (zip rc_bar_offsets (sh_rc_bars h)) r;
     r \<leftarrow> restore_bars K ep (zip ep_bar_offsets (sh_ep_bars h)) r;
     writel K (sh_rc_rom h) (rc + 0x38);
     writel K (sh_ep_rom h) (ep + 0x30);
     writel K (sh_bus_numbers h) (rc + 0x18);
     writew K (sh_control h) (rc + 0x3e);
     same \<leftarrow> header_restored K rc ep h;
     scan \<leftarrow> get_scan;
     return (if \<not> same \<or> ps_rejected scan then - EIO else r)
   }"

section \<open>The temporary host bridge\<close>

abbreviation bridge_bus :: "kernel \<Rightarrow> ptr \<Rightarrow> ptr prog" where
  "bridge_bus K bridge \<equiv> val_call K (Pci (BridgeBus bridge))"

definition scan_enumerate :: "kernel \<Rightarrow> u64 \<Rightarrow> nat \<Rightarrow> ptr \<Rightarrow> bool \<Rightarrow> bool \<Rightarrow> int prog" where
  "scan_enumerate K hz fuel bridge assign_memory bind_firmware = do {
     res \<leftarrow> call_with_leaves K (Pci (PciScanRootBusBridge bridge));
     let r = r_ret res;
     pwhen (r = 0 \<and> assign_memory) (do {
       bus \<leftarrow> bridge_bus K bridge;
       call_with_leaves K (Pci (PciBusSizeBridges bus));
       bus \<leftarrow> bridge_bus K bridge;
       call_with_leaves K (Pci (PciBusAssignResources bus));
       return ()
     });
     pwhen (r = 0) (do {
       bus \<leftarrow> bridge_bus K bridge;
       call_with_scan K (Pci (PciWalkBus bus));
       return ()
     });
     scan \<leftarrow> get_scan;
     let r = (if r = 0 \<and> (ps_rejected scan \<or> ps_devices scan \<noteq> 2) then - EIO else r);
     r \<leftarrow> (if r = 0 \<and> bind_firmware then do {
            bus \<leftarrow> bridge_bus K bridge;
            a1625_scan_firmware K hz fuel bus
          } else return r);
     bus \<leftarrow> bridge_bus K bridge;
     pwhen (bus \<noteq> 0) (do {
       bus \<leftarrow> bridge_bus K bridge;
       call_with_leaves K (Pci (PciStopRootBus bus));
       bus \<leftarrow> bridge_bus K bridge;
       call_with_leaves K (Pci (PciRemoveRootBus bus));
       return ()
     });
     return r
   }"

definition scan_with_bridge ::
  "kernel \<Rightarrow> u64 \<Rightarrow> nat \<Rightarrow> u64 \<Rightarrow> u64 \<Rightarrow> ptr \<Rightarrow> ptr \<Rightarrow> ptr \<Rightarrow> bool \<Rightarrow> bool \<Rightarrow> scan_header \<Rightarrow> int prog" where
  "scan_with_bridge K hz fuel rc ep parent bridge msi_domain assign_memory bind_firmware h = do {
     do_call K (Pci (BridgeConfigure bridge parent msi_domain));
     do_call K (Pci (PciAddResource bridge ''a1625-pci-buses''));
     r \<leftarrow> (if assign_memory then int_call K (Pci (RequestResource ''a1625-pci-memory'')) else return 0);
     if r \<noteq> 0 then do { do_call K (Pci (PciFreeHostBridge bridge)); return r } else do {
     pwhen assign_memory (do_call K (Pci (PciAddResourceOffset bridge ''a1625-pci-memory'' 0x700000000)));
     r \<leftarrow> scan_enumerate K hz fuel bridge assign_memory bind_firmware;
     do_call K (Pci (PciFreeHostBridge bridge));
     cleanup \<leftarrow> (if assign_memory then int_call K (Pci (ReleaseResource ''a1625-pci-memory'')) else return 0);
     scan_restore K rc ep h (if cleanup \<noteq> 0 then - EIO else r)
     }
   }"

text \<open>Between creation and removal of the parent device, which carries the PCI node.\<close>

definition scan_with_parent ::
  "kernel \<Rightarrow> u64 \<Rightarrow> nat \<Rightarrow> u64 \<Rightarrow> u64 \<Rightarrow> ptr \<Rightarrow> ptr \<Rightarrow> bool \<Rightarrow> bool \<Rightarrow> scan_header \<Rightarrow> int prog" where
  "scan_with_parent K hz fuel rc ep node msi_domain assign_memory bind_firmware h = do {
     parent \<leftarrow> val_call K (Dev (RootDeviceRegister ''a1625-pci-scan''));
     if IS_ERR parent then return (PTR_ERR parent) else do {
     of_node_get K node;
     do_call K (Dev (DevSetOfNode parent node));
     bridge \<leftarrow> val_call K (Pci PciAllocHostBridge);
     r \<leftarrow> (if bridge = 0 then return (- ENOMEM)
          else scan_with_bridge K hz fuel rc ep parent bridge msi_domain assign_memory bind_firmware h);
     of_node_put K node;
     do_call K (Dev (DevSetOfNode parent 0));
     do_call K (Dev (RootDeviceUnregister parent));
     return r
     }
   }"

definition init_scan :: "u64 \<Rightarrow> u64 \<Rightarrow> ptr \<Rightarrow> ptr \<Rightarrow> bool \<Rightarrow> bool \<Rightarrow> u32 \<Rightarrow> bool \<Rightarrow> pci_scan" where
  "init_scan rc ep dart msi_domain assign_memory bind_firmware hold_seconds hold_until_signal =
     \<lparr>ps_rc = rc, ps_ep = ep, ps_rejected = False, ps_devices = 0, ps_controls = [],
      ps_require_iommu = (dart \<noteq> 0), ps_msi_domain = msi_domain, ps_msi_cap = 0, ps_msi_64 = False,
      ps_assign_memory = assign_memory, ps_bind_firmware = bind_firmware, ps_firmware_active = False,
      ps_hold_seconds = hold_seconds, ps_hold_until_signal = hold_until_signal\<rparr>"

definition a1625_pci_scan ::
  "kernel \<Rightarrow> u64 \<Rightarrow> nat \<Rightarrow> u64 \<Rightarrow> u64 \<Rightarrow> ptr \<Rightarrow> ptr \<Rightarrow> bool \<Rightarrow> bool \<Rightarrow> u32 \<Rightarrow> bool \<Rightarrow> int prog" where
  "a1625_pci_scan K hz fuel rc ep dart msi_domain assign_memory bind_firmware hold_seconds hold_until_signal = do {
     upd_scan (\<lambda>_. init_scan rc ep dart msi_domain assign_memory bind_firmware hold_seconds hold_until_signal);
     header \<leftarrow> scan_read_header K rc ep;
     case header of
       None \<Rightarrow> return (- EBUSY)
     | Some h \<Rightarrow> do {
         r \<leftarrow> a1625_scan_save_controls K;
         if r \<noteq> 0 then return r
         else if dart = 0 then scan_with_parent K hz fuel rc ep 0 msi_domain assign_memory bind_firmware h
         else do {
           (r, node) \<leftarrow> a1625_pci_node_create K dart;
           r \<leftarrow> (if r \<noteq> 0 then return r
                else scan_with_parent K hz fuel rc ep (pn_node node) msi_domain assign_memory bind_firmware h);
           cleanup \<leftarrow> a1625_pci_node_remove K node;
           return (if cleanup \<noteq> 0 then cleanup else r)
         }
       }
   }"

end
