(* ===== verification/ScanBounds.thy ===== *)
theory ScanBounds
  imports PciScan
begin

text \<open>
  Bounds of the configuration walks: how far the two capability searches can get and where they
  read, and that the saved controls fit the array \<open>controls[26]\<close> and lie inside the page.
\<close>

section \<open>The capability walks\<close>

text \<open>Where an event reads the page at \<open>cfg\<close>, as an offset.\<close>

definition reads_below :: "u64 \<Rightarrow> u64 \<Rightarrow> event \<Rightarrow> bool" where
  "reads_below cfg n e \<longleftrightarrow> (case e of
     Call (Mmio (Readb a)) _ \<Rightarrow> a - cfg < n
   | Call (Mmio (Readl a)) _ \<Rightarrow> a - cfg < n
   | Call (Mmio (Readw a)) _ \<Rightarrow> a - cfg < n
   | _ \<Rightarrow> False)"

text \<open>A run that read at most \<open>n\<close> times, always inside the page.\<close>

definition short_walk :: "u64 \<Rightarrow> u64 \<Rightarrow> nat \<Rightarrow> machine \<Rightarrow> machine \<Rightarrow> bool" where
  "short_walk cfg n k s s' \<longleftrightarrow>
     (\<exists>new. s' = s\<lparr>trace := new @ trace s\<rparr> \<and> length new \<le> k \<and> list_all (reads_below cfg n) new)"

lemma short_walk_refl: "short_walk cfg n 0 s s"
  unfolding short_walk_def by (rule exI [of _ "[]"]) simp

lemma short_walk_step:
  assumes "short_walk cfg n k (s\<lparr>trace := e # trace s\<rparr>) s'" and "reads_below cfg n e"
  shows "short_walk cfg n (Suc k) s s'"
proof -
  from assms(1) obtain new where "s' = s\<lparr>trace := new @ e # trace s\<rparr>" "length new \<le> k" "list_all (reads_below cfg n) new"
    by (auto simp: short_walk_def)
  with assms(2) show ?thesis
    unfolding short_walk_def by (intro exI [of _ "new @ [e]"]) simp
qed

lemma short_walk_step2:
  assumes "short_walk cfg n k (s\<lparr>trace := e2 # e1 # trace s\<rparr>) s'" and "reads_below cfg n e1" and "reads_below cfg n e2"
  shows "short_walk cfg n (Suc (Suc k)) s s'"
proof -
  have "short_walk cfg n (Suc k) (s\<lparr>trace := e1 # trace s\<rparr>) s'"
    by (rule short_walk_step [where e = e2]) (use assms in simp_all)
  then show ?thesis by (rule short_walk_step [OF _ assms(2)])
qed

lemma short_walk_mono: "short_walk cfg n k s s' \<Longrightarrow> k \<le> l \<Longrightarrow> short_walk cfg n l s s'"
  unfolding short_walk_def by auto

definition cap_found :: "int \<Rightarrow> int \<Rightarrow> int \<Rightarrow> bool" where
  "cap_found lo hi r \<longleftrightarrow> r = - ENOENT \<or> r = - EINVAL \<or> lo \<le> r \<and> r \<le> hi \<and> r mod 4 = 0"

lemma word_multiple_of_4:
  assumes "pos AND 3 = (0 :: u32)"
  shows "uint pos mod 4 = 0"
proof -
  have "uint pos AND 3 = 0"
    using arg_cong [OF assms, of uint] by (simp add: uint_and)
  then show ?thesis
    using take_bit_eq_mask [of 2 "uint pos"] by (simp add: mask_eq_exp_minus_1 take_bit_eq_mod)
qed

lemma take_bit_uint: "take_bit 64 (uint (pos :: u32)) = uint pos"
  by (rule take_bit_int_eq_self) (use uint_lt2p [of pos] in simp_all)

lemma cap_position:
  assumes "\<not> (pos < 0x40 \<or> 0xfc < pos \<or> pos AND 3 \<noteq> (0 :: u32))"
  shows "cap_found 0x40 0xfc (uint pos)" "(ucast pos :: u64) < 0x100" "(ucast pos :: u64) + 1 < 0x100"
proof -
  from assms have *: "64 \<le> uint pos" "uint pos \<le> 252" "pos AND 3 = 0"
    by (simp_all add: word_less_def word_le_def not_less)
  then show "cap_found 0x40 0xfc (uint pos)" "(ucast pos :: u64) < 0x100"
    using word_multiple_of_4 [of pos]
    by (simp_all add: cap_found_def word_less_def unsigned_ucast_eq take_bit_uint)
  from * have "(ucast pos :: u64) < 0xff"
    by (simp add: word_less_def unsigned_ucast_eq take_bit_uint)
  then show "(ucast pos :: u64) + 1 < 0x100" by unat_arith
qed

lemma extcap_position:
  assumes "\<not> (pos < 0x100 \<or> 0xffc < pos \<or> pos AND 3 \<noteq> (0 :: u32))"
  shows "cap_found 0x100 0xffc (uint pos)" "(ucast pos :: u64) < 0x1000"
proof -
  from assms have *: "256 \<le> uint pos" "uint pos \<le> 4092" "pos AND 3 = 0"
    by (simp_all add: word_less_def word_le_def not_less)
  then show "cap_found 0x100 0xffc (uint pos)" "(ucast pos :: u64) < 0x1000"
    using word_multiple_of_4 [of pos]
    by (simp_all add: cap_found_def word_less_def unsigned_ucast_eq take_bit_uint)
qed

lemma wp_scan_cap_loop:
  assumes "\<And>r s'. cap_found 0x40 0xfc r \<Longrightarrow> short_walk cfg 0x100 (2 * n) s s' \<Longrightarrow> Q r s'"
  shows "wp (scan_cap_loop K cfg cap pos n) Q s"
  using assms
proof (induction n arbitrary: pos s Q)
  case 0
  then show ?case by (auto intro!: wp_rules simp: cap_found_def short_walk_refl)
next
  case (Suc m)
  have stop: "short_walk cfg 0x100 (2 * Suc m) s s"
    by (rule short_walk_mono [OF short_walk_refl]) simp
  show ?case
  proof (cases "pos = 0 \<or> (pos < 0x40 \<or> 0xfc < pos \<or> pos AND 3 \<noteq> 0)")
    case True
    then show ?thesis
      by (auto intro!: wp_rules Suc.prems stop simp: cap_found_def)
  next
    case False
    then have "\<not> (pos < 0x40 \<or> 0xfc < pos \<or> pos AND 3 \<noteq> 0)" by simp
    note pos = cap_position [OF this]
    have reads: "reads_below cfg 0x100 (Call (Mmio (Readb (cfg + ucast pos))) r)"
      "reads_below cfg 0x100 (Call (Mmio (Readb (cfg + ucast pos + 1))) r)" for r
      using pos(2,3) by (simp_all add: reads_below_def add.assoc)
    have found: "short_walk cfg 0x100 (2 * Suc m) s (s\<lparr>trace := Call (Mmio (Readb (cfg + ucast pos))) r # trace s\<rparr>)" for r
      by (rule short_walk_mono [OF short_walk_step [OF short_walk_refl reads(1)]]) simp
    show ?thesis
      unfolding scan_cap_loop.simps using False
      by (auto intro!: wp_rules Suc.IH Suc.prems pos found short_walk_step2 reads)
  qed
qed

lemma wp_scan_cap:
  assumes "\<And>r s'. cap_found 0x40 0xfc r \<Longrightarrow> short_walk cfg 0x100 97 s s' \<Longrightarrow> Q r s'"
  shows "wp (a1625_scan_cap K cfg cap) Q s"
proof -
  have list: "reads_below cfg 0x100 (Call (Mmio (Readb (cfg + 0x34))) r)" for r
    by (simp add: reads_below_def)
  have walk: "short_walk cfg 0x100 97 s s'" if "short_walk cfg 0x100 (2 * 48) (s\<lparr>trace := Call (Mmio (Readb (cfg + 0x34))) r # trace s\<rparr>) s'" for r s'
    using short_walk_step [OF that list] by simp
  show ?thesis
    unfolding a1625_scan_cap_def
    by (intro wp_rules wp_scan_cap_loop assms) (auto intro: walk)
qed

lemma wp_scan_extcap_loop:
  assumes "\<And>r s'. cap_found 0x100 0xffc r \<Longrightarrow> short_walk cfg 0x1000 n s s' \<Longrightarrow> Q r s'"
  shows "wp (scan_extcap_loop K cfg cap pos n) Q s"
  using assms
proof (induction n arbitrary: pos s Q)
  case 0
  then show ?case by (auto intro!: wp_rules simp: cap_found_def short_walk_refl)
next
  case (Suc m)
  have stop: "short_walk cfg 0x1000 (Suc m) s s"
    by (rule short_walk_mono [OF short_walk_refl]) simp
  show ?case
  proof (cases "pos = 0 \<or> (pos < 0x100 \<or> 0xffc < pos \<or> pos AND 3 \<noteq> 0)")
    case True
    then show ?thesis
      by (auto intro!: wp_rules Suc.prems stop simp: cap_found_def)
  next
    case False
    then have "\<not> (pos < 0x100 \<or> 0xffc < pos \<or> pos AND 3 \<noteq> 0)" by simp
    note pos = extcap_position [OF this]
    have reads: "reads_below cfg 0x1000 (Call (Mmio (Readl (cfg + ucast pos))) r)" for r
      using pos(2) by (simp add: reads_below_def)
    have found: "short_walk cfg 0x1000 (Suc m) s (s\<lparr>trace := Call (Mmio (Readl (cfg + ucast pos))) r # trace s\<rparr>)" for r
      by (rule short_walk_mono [OF short_walk_step [OF short_walk_refl reads]]) simp
    show ?thesis
      unfolding scan_extcap_loop.simps using False
      by (auto intro!: wp_rules Suc.IH Suc.prems pos found short_walk_step reads simp: cap_found_def)
  qed
qed

lemma wp_scan_extcap:
  assumes "\<And>r s'. cap_found 0x100 0xffc r \<Longrightarrow> short_walk cfg 0x1000 256 s s' \<Longrightarrow> Q r s'"
  shows "wp (a1625_scan_extcap K cfg cap) Q s"
  unfolding a1625_scan_extcap_def by (intro wp_scan_extcap_loop assms)

section \<open>The saved controls\<close>

text \<open>
  What every saved control satisfies: a 2- or 4-byte register of one of the two pages, outside the
  command, BAR and ROM registers of its device and outside the bridge control register.
\<close>

definition entry_wf :: "u32 \<times> int \<times> u32 \<times> u32 \<Rightarrow> bool" where
  "entry_wf = (\<lambda>(bus, offset, width, msk). (width = 2 \<or> width = 4) \<and> (bus = 0 \<or> bus = 1) \<and>
     (if bus = 0 then 0x1c else 0x42) \<le> offset \<and> offset + uint width \<le> 0x1000 \<and> offset mod 2 = 0 \<and>
     \<not> (bus = 0 \<and> (offset = 0x1e \<or> offset = 0x38 \<or> offset = 0x3e)))"

definition control_wf :: "scan_control \<Rightarrow> bool" where
  "control_wf c \<longleftrightarrow> entry_wf (ucast (sc_bus c), uint (sc_where c), ucast (sc_size c), sc_mask c) \<and>
     sc_saved c AND sc_mask c = sc_saved c"

text \<open>
  Saving reads registers and appends to the list, nothing else; the MSI capability found on the way
  is remembered.
\<close>

definition register_read :: "event \<Rightarrow> bool" where
  "register_read e \<longleftrightarrow> (case e of Call (Mmio (Readb _)) _ \<Rightarrow> True | Call (Mmio (Readw _)) _ \<Rightarrow> True
     | Call (Mmio (Readl _)) _ \<Rightarrow> True | _ \<Rightarrow> False)"

definition saves :: "nat \<Rightarrow> machine \<Rightarrow> machine \<Rightarrow> bool" where
  "saves n s s' \<longleftrightarrow> (\<exists>new cs cap b.
     s' = s\<lparr>trace := new @ trace s,
            the_scan := (the_scan s)\<lparr>ps_controls := ps_controls (the_scan s) @ cs, ps_msi_cap := cap, ps_msi_64 := b\<rparr>\<rparr> \<and>
     length cs \<le> n \<and> list_all control_wf cs \<and> list_all register_read new)"

lemma savesI:
  assumes "s' = s\<lparr>trace := new @ trace s,
      the_scan := (the_scan s)\<lparr>ps_controls := ps_controls (the_scan s) @ cs, ps_msi_cap := cap, ps_msi_64 := b\<rparr>\<rparr>"
    and "length cs \<le> n" and "list_all control_wf cs" and "list_all register_read new"
  shows "saves n s s'"
  unfolding saves_def using assms by blast

lemma saves_trans:
  assumes "saves m s t" and "saves n t u"
  shows "saves (m + n) s u"
proof -
  obtain new1 cs1 cap1 b1 where 1: "t = s\<lparr>trace := new1 @ trace s,
      the_scan := (the_scan s)\<lparr>ps_controls := ps_controls (the_scan s) @ cs1, ps_msi_cap := cap1, ps_msi_64 := b1\<rparr>\<rparr>"
    "length cs1 \<le> m" "list_all control_wf cs1" "list_all register_read new1"
    using assms(1) unfolding saves_def by blast
  obtain new2 cs2 cap2 b2 where 2: "u = t\<lparr>trace := new2 @ trace t,
      the_scan := (the_scan t)\<lparr>ps_controls := ps_controls (the_scan t) @ cs2, ps_msi_cap := cap2, ps_msi_64 := b2\<rparr>\<rparr>"
    "length cs2 \<le> n" "list_all control_wf cs2" "list_all register_read new2"
    using assms(2) unfolding saves_def by blast
  show ?thesis
    by (rule savesI [where new = "new2 @ new1" and cs = "cs1 @ cs2" and cap = cap2 and b = b2])
      (use 1 2 in simp_all)
qed

text \<open>Steps that save nothing: a read, the memory of the capability.\<close>

lemma saves_read: "register_read e \<Longrightarrow> saves 0 s (s\<lparr>trace := e # trace s\<rparr>)"
  by (rule savesI [where new = "[e]" and cs = "[]" and cap = "ps_msi_cap (the_scan s)" and b = "ps_msi_64 (the_scan s)"]) simp_all

lemma saves_refl: "saves 0 s s"
  by (rule savesI [where new = "[]" and cs = "[]" and cap = "ps_msi_cap (the_scan s)" and b = "ps_msi_64 (the_scan s)"]) simp_all

lemma saves_msi_cap: "saves 0 s (s\<lparr>the_scan := (the_scan s)\<lparr>ps_msi_cap := cap\<rparr>\<rparr>)"
  by (rule savesI [where new = "[]" and cs = "[]" and cap = cap and b = "ps_msi_64 (the_scan s)"]) simp_all

lemma saves_msi_64: "saves 0 s (s\<lparr>the_scan := (the_scan s)\<lparr>ps_msi_64 := b\<rparr>\<rparr>)"
  by (rule savesI [where new = "[]" and cs = "[]" and cap = "ps_msi_cap (the_scan s)" and b = b]) simp_all

lemma reads_below_quiet: "reads_below cfg n e \<Longrightarrow> register_read e"
  by (auto simp: reads_below_def register_read_def split: event.splits call.splits mmio_call.splits)

lemma saves_walk:
  assumes "short_walk cfg n k s s'"
  shows "saves 0 s s'"
proof -
  from assms obtain new where "s' = s\<lparr>trace := new @ trace s\<rparr>" "list_all (reads_below cfg n) new"
    by (auto simp: short_walk_def)
  then show ?thesis
    by (intro savesI [where new = new and cs = "[]" and cap = "ps_msi_cap (the_scan s)" and b = "ps_msi_64 (the_scan s)"])
      (use reads_below_quiet in \<open>auto simp: list_all_iff\<close>)
qed

lemma saves_mono: "saves m s t \<Longrightarrow> m \<le> n \<Longrightarrow> saves n s t"
  unfolding saves_def by fastforce

lemma control_of_entry:
  assumes "entry_wf (bus, offset, width, msk)"
  shows "control_wf \<lparr>sc_where = word_of_int offset, sc_bus = ucast bus, sc_size = ucast width, sc_saved = v AND msk, sc_mask = msk\<rparr>"
proof -
  from assms have "width = 2 \<or> width = 4" "bus = 0 \<or> bus = 1" "0 \<le> offset" "offset < 0x1000"
    by (auto simp: entry_wf_def split: if_splits)
  moreover have "uint (word_of_int offset :: u16) = offset"
    using calculation(3,4) by (simp add: uint_word_of_int_eq take_bit_int_eq_self)
  ultimately show ?thesis
    using assms unfolding control_wf_def by (auto simp: and.assoc)
qed

lemma wp_save_control:
  assumes "entry_wf (bus, offset, width, msk)" and "\<And>s'. saves 1 s s' \<Longrightarrow> Q () s'"
  shows "wp (a1625_scan_save_control K bus offset width msk) Q s"
proof -
  let ?c = "\<lambda>v. \<lparr>sc_where = word_of_int offset, sc_bus = ucast bus, sc_size = ucast width, sc_saved = v AND msk, sc_mask = msk\<rparr>"
  have "saves 1 s (s\<lparr>trace := e # trace s, the_scan := (the_scan s)\<lparr>ps_controls := ps_controls (the_scan s) @ [?c v]\<rparr>\<rparr>)"
    if "register_read e" for e v
    by (rule savesI [where new = "[e]" and cs = "[?c v]" and cap = "ps_msi_cap (the_scan s)" and b = "ps_msi_64 (the_scan s)"])
      (use control_of_entry [OF assms(1)] that in simp_all)
  then show ?thesis
    unfolding a1625_scan_save_control_def get_scan_def upd_scan_def
    by (intro wp_rules assms(2)) (simp_all add: register_read_def)
qed

lemma wp_save_all:
  assumes "list_all entry_wf cs" and "\<And>s'. saves (length cs) s s' \<Longrightarrow> Q () s'"
  shows "wp (save_all K cs) Q s"
  using assms
proof (induction cs arbitrary: s Q)
  case Nil
  then show ?case by (auto intro!: wp_rules saves_refl)
next
  case (Cons c cs)
  obtain bus offset width msk where c: "c = (bus, offset, width, msk)" by (cases c)
  have wf: "entry_wf (bus, offset, width, msk)" using Cons.prems(1) c by simp
  have step: "saves (length (c # cs)) s s2" if "saves 1 s s1" "saves (length cs) s1 s2" for s1 s2
    using saves_trans [OF that] by simp
  show ?case
    unfolding save_all.simps c using Cons.prems(1)
    by (intro wp_rules wp_save_control [OF wf] Cons.IH) (auto simp: c intro!: Cons.prems(2) [unfolded c] step [unfolded c])
qed

text \<open>The steps in the form in which they compose: what has been saved since a fixed start.\<close>

lemma wp_cap_saves:
  assumes "saves n s0 s" and "\<And>r s'. cap_found 0x40 0xfc r \<Longrightarrow> saves n s0 s' \<Longrightarrow> Q r s'"
  shows "wp (a1625_scan_cap K cfg cap) Q s"
proof (rule wp_scan_cap)
  fix r s' assume *: "cap_found 0x40 0xfc r" "short_walk cfg 0x100 97 s s'"
  from saves_trans [OF assms(1) saves_walk [OF *(2)]] show "Q r s'" by (intro assms(2) *(1)) simp
qed

lemma wp_extcap_saves:
  assumes "saves n s0 s" and "\<And>r s'. cap_found 0x100 0xffc r \<Longrightarrow> saves n s0 s' \<Longrightarrow> Q r s'"
  shows "wp (a1625_scan_extcap K cfg cap) Q s"
proof (rule wp_scan_extcap)
  fix r s' assume *: "cap_found 0x100 0xffc r" "short_walk cfg 0x1000 256 s s'"
  from saves_trans [OF assms(1) saves_walk [OF *(2)]] show "Q r s'" by (intro assms(2) *(1)) simp
qed

lemma wp_readw_saves:
  assumes "saves n s0 s" and "\<And>v s'. saves n s0 s' \<Longrightarrow> Q v s'"
  shows "wp (readw K a) Q s"
proof (rule wp_readw)
  fix r
  have "saves 0 s (s\<lparr>trace := Call (Mmio (Readw a)) r # trace s\<rparr>)"
    by (rule saves_read) (simp_all add: register_read_def)
  from saves_trans [OF assms(1) this]
  show "Q (ucast (r_val r) AND 0xffff) (s\<lparr>trace := Call (Mmio (Readw a)) r # trace s\<rparr>)"
    by (intro assms(2)) simp
qed

lemma wp_save_all_saves:
  assumes "saves n s0 s" and "list_all entry_wf cs" and "n + length cs \<le> m" and "\<And>s'. saves m s0 s' \<Longrightarrow> Q () s'"
  shows "wp (save_all K cs) Q s"
  by (rule wp_save_all [OF assms(2)]) (intro assms(4) saves_mono [OF saves_trans [OF assms(1)] assms(3)])

lemma wp_upd_scan: "Q () (s\<lparr>the_scan := f (the_scan s)\<rparr>) \<Longrightarrow> wp (upd_scan f) Q s"
  unfolding upd_scan_def by (intro wp_rules)

lemma wp_get_scan: "Q (the_scan s) s \<Longrightarrow> wp get_scan Q s"
  unfolding get_scan_def by (intro wp_rules)

text \<open>An entry at an even offset from a capability.\<close>

lemma entry_above:
  assumes "0x40 \<le> x" "x mod 4 = 0" "k mod 2 = 0" "2 \<le> k" "x + k + uint width \<le> 0x1000"
    and "width = 2 \<or> width = 4" and "bus = 0 \<or> bus = 1"
  shows "entry_wf (bus, x + k, width, msk)"
proof -
  have "(x + k) mod 2 = 0" using assms(2,3) by presburger
  moreover have "0x42 \<le> x + k" using assms(1,4) by simp
  ultimately show ?thesis using assms(5-7) by (simp add: entry_wf_def)
qed

lemma capability_range:
  assumes "cap_found 0x40 0xfc pm" "cap_found 0x40 0xfc e" "cap_found 0x100 0xffc l"
    and "\<not> (pm < 0 \<or> e < 0 \<or> l < 0 \<or> 0xfe < e + 0x28 \<or> 0xffc < l + 0xc)" and "bus = 0 \<or> bus = 1"
  shows "list_all entry_wf
       [(bus, pm + 4, 2, PM_CONTROL_MASK), (bus, e + 0x28, 2, 0xffff), (bus, e + 0x10, 2, LINK_CONTROL_MASK),
        (bus, l + 8, 4, all_ones), (bus, l + 0xc, 4, all_ones)]"
proof -
  have pm: "0x40 \<le> pm" "pm \<le> 0xfc" "pm mod 4 = 0"
    using assms(1,4) by (auto simp: cap_found_def)
  have e: "0x40 \<le> e" "e \<le> 0xd6" "e mod 4 = 0"
    using assms(2,4) by (auto simp: cap_found_def)
  have l: "0x100 \<le> l" "l \<le> 0xff0" "l mod 4 = 0"
    using assms(3,4) by (auto simp: cap_found_def)
  show ?thesis
    unfolding list.pred_inject using assms(5) pm e l by (intro conjI TrueI entry_above) simp_all
qed

lemma wp_save_bus_controls:
  assumes bus: "bus = 0 \<or> bus = 1" and s: "saves n s0 s" and Q: "\<And>r s'. saves (n + 5) s0 s' \<Longrightarrow> Q r s'"
  shows "wp (save_bus_controls K bus) Q s"
proof -
  have more: "saves (n + 5) s0 s'" if "saves n s0 s'" for s'
    by (rule saves_mono [OF that]) simp
  show ?thesis
    unfolding save_bus_controls_def
    by (intro wp_cap_saves [where n = n and ?s0.0 = s0] wp_extcap_saves [where n = n and ?s0.0 = s0]
        wp_readw_saves [where n = n and ?s0.0 = s0] wp_save_all_saves [where n = n and m = "n + 5" and ?s0.0 = s0] wp_get_scan
        capability_range [OF _ _ _ _ bus] wp_rules Q)
      (auto intro: s more)
qed

lemma msi_range:
  assumes "cap_found 0x40 0xfc cap" and "\<not> (cap < 0 \<or> 0xe8 < cap)"
  shows "list_all entry_wf
       ([(1, cap + 2, 2, 0xffff), (1, cap + 4, 4, all_ones)] @
        (if b then [(1, cap + 8, 4, all_ones)] else []) @
        [(1, cap + (if b then 0xc else 8), 2, 0xffff)] @
        (if m then [(1, cap + (if b then 0x10 else 0xc), 4, all_ones)] else []))"
proof -
  have cap: "0x40 \<le> cap" "cap \<le> 0xe8" "cap mod 4 = 0"
    using assms by (auto simp: cap_found_def)
  have "entry_wf (1, cap + k, w, msk)" if "k mod 2 = 0" "2 \<le> k" "k \<le> 0x10" "w = 2 \<or> w = 4" for k w msk
    by (rule entry_above) (use cap that in auto)
  then show ?thesis by (cases b; cases m) simp_all
qed

lemma saves_step: "saves n s0 s \<Longrightarrow> saves 0 s s' \<Longrightarrow> saves n s0 s'"
  using saves_trans [of n s0 s 0 s'] by simp

lemma wp_save_msi_controls:
  assumes s: "saves n s0 s" and Q: "\<And>r s'. saves (n + 5) s0 s' \<Longrightarrow> Q r s'"
  shows "wp (save_msi_controls K) Q s"
proof -
  have more: "saves (n + 5) s0 s'" if "saves n s0 s'" for s'
    by (rule saves_mono [OF that]) simp
  show ?thesis
    unfolding save_msi_controls_def
    by (intro wp_cap_saves [where n = n and ?s0.0 = s0] wp_get_scan wp_upd_scan
        wp_readw_saves [where n = n and ?s0.0 = s0] wp_save_all_saves [where n = n and m = "n + 5" and ?s0.0 = s0]
        msi_range wp_rules Q)
      (auto intro: s more saves_step saves_msi_cap saves_msi_64)
qed

lemma wp_scan_save_controls:
  assumes "\<And>r s'. saves 26 s s' \<Longrightarrow> Q r s'"
  shows "wp (a1625_scan_save_controls K) Q s"
proof -
  have more: "saves 26 s s'" if "saves n s s'" "n \<le> 26" for n s'
    using saves_mono that by blast
  have entries: "list_all entry_wf [(0, 0x1c, 2, 0xffff), (0, 0x24, 4, all_ones)]"
    "list_all entry_wf [(0, 0x20, 4, all_ones), (0, 0x28, 4, all_ones), (0, 0x2c, 4, all_ones), (0, 0x30, 4, all_ones)]"
    "list_all entry_wf [(1, 0x80, 4, all_ones), (1, 0xdc, 2, 0xffff), (1, 0x228, 4, all_ones), (1, 0x4e0, 4, all_ones), (1, 0x4f4, 4, all_ones)]"
    by (simp_all add: entry_wf_def)
  show ?thesis
    unfolding a1625_scan_save_controls_def
    apply (intro wp_save_bus_controls [where bus = 0 and n = 0 and ?s0.0 = s] wp_save_bus_controls [where bus = 1 and n = 5 and ?s0.0 = s]
        wp_save_all_saves [where n = 10 and m = 12 and ?s0.0 = s, OF _ entries(1)]
        wp_save_all_saves [where n = 12 and m = 16 and ?s0.0 = s, OF _ entries(2)]
        wp_save_msi_controls [where n = 16 and ?s0.0 = s]
        wp_save_all_saves [where n = 21 and m = 26 and ?s0.0 = s, OF _ entries(3)] wp_get_scan wp_rules assms)
    apply (auto intro: saves_refl saves_mono more)
    done
qed

section \<open>Properties\<close>

text \<open>
  C27. Both capability walks end: whatever the device answers, also a list that is cyclic or leaves its
  area, the search reads at most 97 times below offset 256, respectively 256 times below 4096,
  writes nothing, and returns an error or an aligned position inside the area.
\<close>

theorem cap_walks_bounded:
  assumes "run_state (a1625_scan_cap K cfg cap) s = (r, s')"
    and "run_state (a1625_scan_extcap K cfg cap) s = (x, s'')"
  shows "cap_found 0x40 0xfc r \<and> short_walk cfg 0x100 97 s s' \<and>
    cap_found 0x100 0xffc x \<and> short_walk cfg 0x1000 256 s s''"
proof -
  have 1: "wp (a1625_scan_cap K cfg cap) (\<lambda>r s'. cap_found 0x40 0xfc r \<and> short_walk cfg 0x100 97 s s') s"
    by (rule wp_scan_cap) simp
  have 2: "wp (a1625_scan_extcap K cfg cap) (\<lambda>r s'. cap_found 0x100 0xffc r \<and> short_walk cfg 0x1000 256 s s') s"
    by (rule wp_scan_extcap) simp
  show ?thesis using wp_run [OF 1 assms(1)] wp_run [OF 2 assms(2)] by simp
qed

text \<open>On concrete input the loops unfold round by round.\<close>

lemma run_scan_loops [run_simps]:
  "run_state (scan_cap_loop K cfg cap pos (numeral k)) s =
     run_state (if pos = 0 then return (- ENOENT)
      else if pos < 0x40 \<or> 0xfc < pos \<or> pos AND 3 \<noteq> 0 then return (- EINVAL)
      else do {
        found \<leftarrow> readb K (cfg + ucast pos);
        if found = cap then return (uint pos) else do {
        pos \<leftarrow> readb K (cfg + ucast pos + 1);
        scan_cap_loop K cfg cap pos (pred_numeral k)
        }
      }) s"
  "run_state (scan_extcap_loop K cfg cap pos (numeral k)) s =
     run_state (if pos = 0 then return (- ENOENT)
      else if pos < 0x100 \<or> 0xffc < pos \<or> pos AND 3 \<noteq> 0 then return (- EINVAL)
      else do {
        header \<leftarrow> readl K (cfg + ucast pos);
        if header = 0 \<or> header = all_ones then return (- ENOENT)
        else if header AND 0xffff = cap then return (uint pos)
        else scan_extcap_loop K cfg cap (drop_bit 20 header AND 0xffc) (pred_numeral k)
      }) s"
  by (simp_all only: numeral_eq_Suc scan_cap_loop.simps scan_extcap_loop.simps)

lemmas scan_walk_run = a1625_scan_cap_def a1625_scan_extcap_def

lemma cap_on_board: "fst (run_state (a1625_scan_cap board 0x610100000 5) boot) = 0x58"
  by (simp add: scan_walk_run run_simps)

theorem cap_walks_bounded_witness:
  "short_walk 0x610100000 0x100 97 boot (snd (run_state (a1625_scan_cap board 0x610100000 5) boot)) \<and>
   fst (run_state (a1625_scan_cap board 0x610100000 5) boot) = 0x58"
  using cap_walks_bounded [OF run_split [OF refl] run_split [OF refl], where s = boot and K = board and cfg = "0x610100000" and cap = 5]
    cap_on_board by blast

text \<open>
  C29. The array \<open>controls[26]\<close> never overflows: starting from the empty list, every run of
  \<open>a1625_scan_save_controls\<close>, also one that stops early, leaves at most 26 entries, each a 2- or 4-byte
  register inside its page, away from command, BARs, ROM address and bridge control.
\<close>

theorem saved_controls_fit:
  assumes "run_state (a1625_scan_save_controls K) s = (r, s')" and "ps_controls (the_scan s) = []"
  shows "length (ps_controls (the_scan s')) \<le> 26 \<and> list_all control_wf (ps_controls (the_scan s'))"
proof -
  have "wp (a1625_scan_save_controls K) (\<lambda>_. saves 26 s) s"
    by (rule wp_scan_save_controls)
  from wp_run [OF this assms(1)] assms(2) show ?thesis
    unfolding saves_def by auto
qed

text \<open>A scan with an MSI domain, memory assignment and firmware binding, where most is saved.\<close>

definition full_scan :: pci_scan where
  "full_scan = init_scan 0x610008000 0x610100000 0x700 0x800 True True 0 False"

theorem saved_controls_fit_witness:
  "list_all control_wf (ps_controls (the_scan (snd (run_state (a1625_scan_save_controls board) (boot\<lparr>the_scan := full_scan\<rparr>)))))"
  using saved_controls_fit [OF run_split [OF refl], where K = board and s = "boot\<lparr>the_scan := full_scan\<rparr>"] by (simp add: full_scan_def init_scan_def)

end
