(* ===== verification/ScanFilter.thy ===== *)
theory ScanFilter
  imports ScanBounds
begin

text \<open>
  The filter between the PCI core and the configuration space: which writes can reach the hardware,
  and what the two accessors answer.
\<close>

section \<open>The loop over the controls\<close>

text \<open>Reference: the last control that matches decides, and without one nothing changes.\<close>

definition decide_by_last :: "scan_control list \<Rightarrow> u32 \<Rightarrow> int \<Rightarrow> int \<Rightarrow> u32 \<Rightarrow> bool \<Rightarrow> bool" where
  "decide_by_last cs bus offset width value allowed =
     (case rev (filter (control_matches bus offset width) cs) of
        [] \<Rightarrow> allowed
      | c # _ \<Rightarrow> control_allows value c)"

lemma filter_controls_last: "filter_controls cs bus offset width value allowed = decide_by_last cs bus offset width value allowed"
proof (induction cs arbitrary: allowed)
  case Nil
  show ?case by (simp add: decide_by_last_def)
next
  case (Cons c cs)
  then show ?case
    by (simp add: decide_by_last_def split: list.splits)
qed

lemma filter_controls_wf:
  assumes "filter_controls cs bus offset width value allowed" and "list_all control_wf cs"
  shows "allowed \<or> (\<exists>w msk. uint w = width \<and> entry_wf (bus, offset, w, msk))"
  using assms
proof (induction cs arbitrary: allowed)
  case (Cons c cs)
  show ?case
  proof (cases "control_matches bus offset width c")
    case True
    have "(ucast (sc_bus c) :: u32) = bus"
      using True using take_bit_int_eq_self [of "uint bus" 32] uint_lt2p [of bus]
      by (simp add: control_matches_def word_uint_eq_iff unsigned_ucast_eq)
    moreover have "uint (ucast (sc_size c) :: u32) = width"
      using True take_bit_int_eq_self [of "uint (sc_size c)" 32] uint_lt2p [of "sc_size c"] uint_ge_0 [of "sc_size c"] by (simp add: control_matches_def unsigned_ucast_eq)
    ultimately show ?thesis
      using True Cons.prems(2) by (auto simp: control_wf_def control_matches_def)
  next
    case False
    then show ?thesis using Cons by simp
  qed
qed simp

section \<open>What the filter lets through\<close>

text \<open>
  A configuration write that can do no harm: no bus mastering unless firmware is being observed, no
  status register but the documented acknowledgement, no reset of the bus, no bus numbers but the
  two documented settings, no enabled ROM; always an aligned 2- or 4-byte register of the page.
\<close>

definition harmless :: "bool \<Rightarrow> u32 \<Rightarrow> int \<Rightarrow> int \<Rightarrow> u32 \<Rightarrow> bool" where
  "harmless active bus offset width value \<longleftrightarrow>
     (width = 2 \<or> width = 4) \<and> 4 \<le> offset \<and> offset + width \<le> 0x1000 \<and> offset mod 2 = 0 \<and>
     (offset < 0x10 \<longrightarrow> offset = PCI_COMMAND \<and> width = 2 \<and> (value AND PCI_COMMAND_MASTER \<noteq> 0 \<longrightarrow> active)) \<and>
     (bus = 0 \<longrightarrow> offset = PCI_PRIMARY_BUS \<longrightarrow> width = 4 \<and> (value AND 0xffffff = 0x010100 \<or> value AND 0xffffff = 0)) \<and>
     (bus = 0 \<longrightarrow> offset = PCI_SEC_STATUS \<longrightarrow> width = 2 \<and> value = 0xffff) \<and>
     (bus = 0 \<longrightarrow> offset = PCI_BRIDGE_CONTROL \<longrightarrow> width = 2 \<and> value AND PCI_BRIDGE_CTL_BUS_RESET = 0) \<and>
     (offset = (if bus \<noteq> 0 then PCI_ROM_ADDRESS else PCI_ROM_ADDRESS1) \<longrightarrow> width = 4 \<and> value AND PCI_ROM_ADDRESS_ENABLE = 0)"

lemma harmless_control:
  assumes "entry_wf (bus, offset, w, msk)"
  shows "harmless active bus offset (uint w) value"
  using assms by (auto simp: entry_wf_def harmless_def)

text \<open>The rules before and after the loop over the controls.\<close>

definition allowed_before :: "pci_scan \<Rightarrow> u32 \<Rightarrow> int \<Rightarrow> int \<Rightarrow> u32 \<Rightarrow> bool" where
  "allowed_before scan bus offset width value =
     (let allowed = (offset = PCI_COMMAND \<and> width = 2 \<and> (value AND PCI_COMMAND_MASTER = 0 \<or> ps_firmware_active scan));
          allowed = (if width = 4 \<and> 0x10 \<le> offset \<and> offset \<le> (if bus \<noteq> 0 then 0x24 else 0x14) \<and> offset AND 3 = 0
                     then True else allowed);
          allowed = (if bus = 0 \<and> offset = PCI_PRIMARY_BUS \<and> width = 4
                     then value AND 0xffffff = 0x010100 \<or> value AND 0xffffff = 0 else allowed);
          allowed = (if bus = 0 \<and> offset = PCI_BRIDGE_CONTROL \<and> width = 2
                     then value AND PCI_BRIDGE_CTL_BUS_RESET = 0 else allowed)
      in (if offset = (if bus \<noteq> 0 then PCI_ROM_ADDRESS else PCI_ROM_ADDRESS1) \<and> width = 4
                     then value AND PCI_ROM_ADDRESS_ENABLE = 0 else allowed))"

lemma even_of_aligned: "x AND 3 = (0 :: int) \<Longrightarrow> x mod 2 = 0"
proof -
  assume "x AND 3 = 0"
  then have "x mod 4 = 0"
    using take_bit_eq_mask [of 2 x] by (simp add: mask_eq_exp_minus_1 take_bit_eq_mod)
  then show "x mod 2 = 0" by presburger
qed

lemma overridden:
  assumes "if c then e else a"
  obtains "c" "e" | "a"
  using assms by (cases c) auto

lemma allowed_before_cases:
  assumes "allowed_before scan bus offset width value"
  obtains "offset = PCI_COMMAND" "width = 2" "value AND PCI_COMMAND_MASTER = 0 \<or> ps_firmware_active scan"
  | "width = 4" "0x10 \<le> offset" "offset \<le> (if bus \<noteq> 0 then 0x24 else 0x14)" "offset AND 3 = 0"
  | "bus = 0" "offset = PCI_PRIMARY_BUS" "width = 4" "value AND 0xffffff = 0x010100 \<or> value AND 0xffffff = 0"
  | "bus = 0" "offset = PCI_BRIDGE_CONTROL" "width = 2" "value AND PCI_BRIDGE_CTL_BUS_RESET = 0"
  | "offset = (if bus \<noteq> 0 then PCI_ROM_ADDRESS else PCI_ROM_ADDRESS1)" "width = 4" "value AND PCI_ROM_ADDRESS_ENABLE = 0"
  using assms unfolding allowed_before_def Let_def by (elim overridden) (simp only: that)+

lemma allowed_before_harmless:
  assumes "allowed_before scan bus offset width value"
  shows "harmless (ps_firmware_active scan) bus offset width value"
  using assms
proof (cases rule: allowed_before_cases)
  case 2
  then show ?thesis using even_of_aligned [of offset] by (auto simp: harmless_def split: if_splits)
qed (auto simp: harmless_def)

text \<open>The rules after the loop, which apply to the radio under observation and to the bridge status.\<close>

lemma write_filter_parts:
  "write_filter scan bus offset width value =
     (let allowed = filter_controls (ps_controls scan) bus offset width value (allowed_before scan bus offset width value);
          active = (bus = 1 \<and> ps_firmware_active scan);
          allowed = (if active \<and> offset = 0x80 \<and> width = 4
                     then value AND 0xfff = 0 \<and> 0x18000000 \<le> value \<and> value \<le> 0x1810f000 else allowed);
          link = (active \<and> offset = 0xbc \<and> width = 4);
          allowed = (if link then value AND PCI_EXP_LNKCTL_LD = 0 else allowed);
          width = (if link then 2 else width);
          value = (if link then value AND 0xffff else value);
          allowed = (if active \<and> offset = 0x98 \<and> width = 4 then value = 1 else allowed);
          allowed = (if bus = 0 \<and> offset = PCI_SEC_STATUS \<and> width = 2 \<and> value = 0xffff then True else allowed)
      in (allowed, width, value))"
  by (simp add: write_filter_def allowed_before_def Let_def)

lemma write_filter_harmless:
  assumes "write_filter scan bus offset width value = (True, w, v)" and "list_all control_wf (ps_controls scan)"
  shows "harmless (ps_firmware_active scan) bus offset w v"
proof -
  let ?active = "bus = 1 \<and> ps_firmware_active scan"
  let ?pre = "filter_controls (ps_controls scan) bus offset width value (allowed_before scan bus offset width value)"
  consider (window) ?active "offset = 0x80" "w = 4" | (link) ?active "offset = 0xbc" "w = 2" | (mailbox) ?active "offset = 0x98" "w = 4"
    | (ack) "bus = 0" "offset = PCI_SEC_STATUS" "w = 2" "v = 0xffff" | (listed) ?pre "w = width" "v = value"
    using assms(1) unfolding write_filter_parts Let_def prod.inject
    by (cases "?active \<and> offset = 0xbc \<and> width = 4"; cases "?active \<and> offset = 0x80 \<and> width = 4";
        cases "?active \<and> offset = 0x98 \<and> width = 4"; cases "bus = 0 \<and> offset = PCI_SEC_STATUS \<and> width = 2 \<and> value = 0xffff") auto
  then show ?thesis
  proof cases
    case listed
    from filter_controls_wf [OF listed(1) assms(2)] show ?thesis
      using harmless_control allowed_before_harmless listed(2,3) by blast
  qed (auto simp: harmless_def)
qed

section \<open>The accessors\<close>

definition writes_one :: "pci_scan \<Rightarrow> u32 \<Rightarrow> u64 \<Rightarrow> int \<Rightarrow> machine \<Rightarrow> machine \<Rightarrow> bool" where
  "writes_one scan bus cfg offset s s' \<longleftrightarrow> (\<exists>w v resp. harmless (ps_firmware_active scan) bus offset w v \<and>
     s' = s\<lparr>trace := Call (Mmio (if w = 2 then Writew (cfg + word_of_int offset) (ucast v)
                                else Writel (cfg + word_of_int offset) v)) resp # trace s\<rparr>)"

lemma wp_scan_write:
  assumes "list_all control_wf (ps_controls (the_scan s))"
    and "a1625_scan_config (the_scan s) bus devfn = 0 \<Longrightarrow> Q PCIBIOS_DEVICE_NOT_FOUND s"
    and "a1625_scan_config (the_scan s) bus devfn \<noteq> 0
      \<Longrightarrow> Q PCIBIOS_SET_FAILED (s\<lparr>the_scan := (the_scan s)\<lparr>ps_rejected := True\<rparr>\<rparr>)"
    and "\<And>s'. a1625_scan_config (the_scan s) bus devfn \<noteq> 0
      \<Longrightarrow> writes_one (the_scan s) bus (a1625_scan_config (the_scan s) bus devfn) offset s s' \<Longrightarrow> Q 0 s'"
  shows "wp (a1625_scan_write K bus devfn offset width value) Q s"
proof -
  let ?cfg = "a1625_scan_config (the_scan s) bus devfn"
  obtain allowed w v where f: "write_filter (the_scan s) bus offset width value = (allowed, w, v)"
    by (cases "write_filter (the_scan s) bus offset width value")
  show ?thesis
  proof (cases allowed)
    case False
    then show ?thesis
      unfolding a1625_scan_write_def reject_def using f assms(2,3)
      by (auto intro!: wp_get_scan wp_upd_scan wp_rules)
  next
    case True
    have h: "harmless (ps_firmware_active (the_scan s)) bus offset w v"
      by (rule write_filter_harmless) (use f True assms(1) in simp_all)
    have one: "writes_one (the_scan s) bus ?cfg offset s (s\<lparr>trace := Call (Mmio c) r # trace s\<rparr>)"
      if "c = (if w = 2 then Writew (?cfg + word_of_int offset) (ucast v) else Writel (?cfg + word_of_int offset) v)" for c r
      unfolding writes_one_def that using h by blast
    show ?thesis
      unfolding a1625_scan_write_def using f True assms(2,4) one
      by (auto intro!: wp_get_scan wp_rules)
  qed
qed

section \<open>Properties\<close>

text \<open>
  C17. What a configuration write of the PCI core does, on every branch: at an unknown device nothing
  happens; a write that is not allowed touches no register and marks the scan as rejected; a write
  that is reported as done was exactly one register write, and a harmless one.
\<close>

theorem scan_write_filtered:
  assumes "run_state (a1625_scan_write K bus devfn offset width value) s = (r, s')"
    and "list_all control_wf (ps_controls (the_scan s))"
  shows "(a1625_scan_config (the_scan s) bus devfn = 0 \<and> r = PCIBIOS_DEVICE_NOT_FOUND \<and> s' = s) \<or>
    (r = PCIBIOS_SET_FAILED \<and> trace s' = trace s \<and> ps_rejected (the_scan s')) \<or>
    (r = 0 \<and> writes_one (the_scan s) bus (a1625_scan_config (the_scan s) bus devfn) offset s s')"
proof -
  have "wp (a1625_scan_write K bus devfn offset width value) (\<lambda>r s'.
     (a1625_scan_config (the_scan s) bus devfn = 0 \<and> r = PCIBIOS_DEVICE_NOT_FOUND \<and> s' = s) \<or>
     (r = PCIBIOS_SET_FAILED \<and> trace s' = trace s \<and> ps_rejected (the_scan s')) \<or>
     (r = 0 \<and> writes_one (the_scan s) bus (a1625_scan_config (the_scan s) bus devfn) offset s s')) s"
    by (rule wp_scan_write [OF assms(2)]) simp_all
  from wp_run [OF this assms(1)] show ?thesis .
qed

text \<open>Sizing the first BAR of the radio; enabling its bus mastering is refused.\<close>

definition plain_scan :: pci_scan where
  "plain_scan = init_scan 0x610008000 0x610100000 0 0 False False 0 False"

lemmas scan_write_run = a1625_scan_write_def a1625_scan_config_def write_filter_def reject_def get_scan_def upd_scan_def
  plain_scan_def init_scan_def

lemma bar_write_on_board:
  "fst (run_state (a1625_scan_write board 1 0 0x10 4 0xffffffff) (boot\<lparr>the_scan := plain_scan\<rparr>)) = 0"
  "fst (run_state (a1625_scan_write board 1 0 4 2 4) (boot\<lparr>the_scan := plain_scan\<rparr>)) = PCIBIOS_SET_FAILED"
  by (simp_all add: scan_write_run run_simps)

theorem scan_write_filtered_witness:
  "writes_one plain_scan 1 0x610100000 0x10 (boot\<lparr>the_scan := plain_scan\<rparr>)
     (snd (run_state (a1625_scan_write board 1 0 0x10 4 0xffffffff) (boot\<lparr>the_scan := plain_scan\<rparr>)))"
  using scan_write_filtered [OF run_split [OF bar_write_on_board(1)]]
  by (simp add: plain_scan_def init_scan_def a1625_scan_config_def)


text \<open>
  C37. A configuration read never leaves the two pages: an unknown device or a bad register is
  answered with its error and all ones, without an access, and everything else is one read of the
  requested width at the requested place.
\<close>

definition read_call :: "int \<Rightarrow> u64 \<Rightarrow> mmio_call" where
  "read_call width reg = (if width = 4 then Readl reg else if width = 2 then Readw reg else Readb reg)"

definition good_register :: "int \<Rightarrow> int \<Rightarrow> bool" where
  "good_register offset width \<longleftrightarrow> 0 \<le> offset \<and> offset + width \<le> 4096 \<and> width \<in> {1, 2, 4} \<and> offset AND (width - 1) = 0"

theorem scan_read_bounded:
  assumes "run_state (a1625_scan_read K bus devfn offset width) s = ((r, v), s')"
  shows "if a1625_scan_config (the_scan s) bus devfn = 0 then r = PCIBIOS_DEVICE_NOT_FOUND \<and> v = all_ones \<and> s' = s
    else if \<not> good_register offset width then r = PCIBIOS_BAD_REGISTER_NUMBER \<and> v = all_ones \<and> s' = s
    else r = 0 \<and> (\<exists>resp. s' = s\<lparr>trace := Call (Mmio (read_call width (a1625_scan_config (the_scan s) bus devfn + word_of_int offset))) resp # trace s\<rparr>)"
proof -
  have "wp (a1625_scan_read K bus devfn offset width) (\<lambda>(r, v) s'.
    if a1625_scan_config (the_scan s) bus devfn = 0 then r = PCIBIOS_DEVICE_NOT_FOUND \<and> v = all_ones \<and> s' = s
    else if \<not> good_register offset width then r = PCIBIOS_BAD_REGISTER_NUMBER \<and> v = all_ones \<and> s' = s
    else r = 0 \<and> (\<exists>resp. s' = s\<lparr>trace := Call (Mmio (read_call width (a1625_scan_config (the_scan s) bus devfn + word_of_int offset))) resp # trace s\<rparr>)) s"
    unfolding a1625_scan_read_def by (intro wp_get_scan wp_rules) (auto simp: good_register_def read_call_def)
  from wp_run [OF this assms] show ?thesis by simp
qed

theorem scan_read_bounded_witness:
  "fst (run_state (a1625_scan_read board 1 0 0x1000 4) (boot\<lparr>the_scan := plain_scan\<rparr>)) = (PCIBIOS_BAD_REGISTER_NUMBER, all_ones)"
  using scan_read_bounded [OF run_split [OF prod.collapse [symmetric]], where s = "boot\<lparr>the_scan := plain_scan\<rparr>"
      and K = board and bus = 1 and devfn = 0 and offset = "0x1000" and width = 4]
  by (simp add: plain_scan_def init_scan_def a1625_scan_config_def good_register_def prod_eq_iff)

end
