(* ===== verification/ScanInvariant.thy ===== *)
theory ScanInvariant
  imports ScanFilter
begin

text \<open>
  The contract of an invariant of the scan: it survives every call that writes no register, every answered
  callback, the bookkeeping of the MSI domain, a refusal, and the configuration writes of the filter. Whatever satisfies
  it survives the operations of the scan that use nothing else, with all their callbacks.
\<close>

abbreviation RC_CFG :: u64 where "RC_CFG \<equiv> 0x610008000"
abbreviation EP_CFG :: u64 where "EP_CFG \<equiv> 0x610100000"

lemma mmio_write_call [simp]:
  "mmio_write (Call (Mmio c) r) \<longleftrightarrow> (case c of Writel _ _ \<Rightarrow> True | Writew _ _ \<Rightarrow> True | _ \<Rightarrow> False)"
  "\<not> mmio_write (Call (Time tc) r)" "\<not> mmio_write (Call (Irq ic) r)" "\<not> mmio_write (Call (Pci pc) r)"
  "\<not> mmio_write (Call (Dev dc) r)" "\<not> mmio_write (Call (Of oc) r)" "\<not> mmio_write (Call (Iommu mc) r)"
  "\<not> mmio_write (Call (Cs cc) r)"
  by (auto simp: mmio_write_def split: mmio_call.splits)

lemma maintains_upd_scan [inv_rules]:
  "(\<And>s. I s \<Longrightarrow> I (s\<lparr>the_scan := f (the_scan s)\<rparr>)) \<Longrightarrow> maintains I (upd_scan f)"
  unfolding upd_scan_def by (intro inv_rules)

lemma maintains_get_scan [inv_rules]: "maintains I get_scan"
  unfolding get_scan_def by (intro inv_rules)

locale scan_invariant =
  fixes I :: "machine \<Rightarrow> bool"
  assumes step: "I s \<Longrightarrow> \<not> mmio_write (Call c r) \<Longrightarrow> I (s\<lparr>trace := Call c r # trace s\<rparr>)"
    and answered: "I s \<Longrightarrow> (\<And>b d off w v. cb \<noteq> CfgWrite b d off w v) \<Longrightarrow> (\<And>dev. cb \<noteq> Identify dev)
      \<Longrightarrow> I (s\<lparr>trace := CallbackResult cb q x # trace s\<rparr>)"
    and msi_field: "I s \<Longrightarrow> I (s\<lparr>the_msi := m\<rparr>)"
    and fuel_field: "I s \<Longrightarrow> I (s\<lparr>out_of_fuel := f\<rparr>)"
    and rejected: "I s \<Longrightarrow> I (s\<lparr>the_scan := (the_scan s)\<lparr>ps_rejected := True\<rparr>\<rparr>)"
    and config_write: "maintains I (leaf_callback K (CfgWrite bus devfn offset width value))"
begin

lemma reject_inv: "maintains I reject"
  unfolding reject_def by (intro inv_rules) (rule rejected)

lemma set_used_inv: "maintains I (set_used f)"
  unfolding set_used_def by (intro inv_rules) (rule msi_field)

lemma msi_loops_inv:
  "maintains I (set_hwirqs K d v h n)"
  "maintains I (free_slots K d v n)"
  "maintains I (reset_irq_data K d v n)"
  by (induction n arbitrary: v h) (auto intro!: inv_rules set_used_inv step)

lemma msi_callback_inv: "maintains I (msi_callback K cb)"
  by (cases cb) (auto simp: msi_callback_def a1625_msi_alloc_def a1625_msi_free_def a1625_msi_eoi_def
      intro!: inv_rules set_used_inv msi_loops_inv step answered msi_field)

lemma scan_read_inv: "maintains I (a1625_scan_read K bus devfn offset width)"
  unfolding a1625_scan_read_def by (intro inv_rules) (auto intro!: step)

lemma leaf_callback_inv: "maintains I (leaf_callback K cb)"
proof (cases "\<exists>bus devfn offset width value. cb = CfgWrite bus devfn offset width value")
  case True
  then show ?thesis using config_write by blast
next
  case False
  then show ?thesis
    by (cases cb) (auto simp: leaf_callback_def intro!: inv_rules msi_callback_inv scan_read_inv answered)
qed

lemma run_leaf_callbacks_inv: "maintains I (run_leaf_callbacks K cbs)"
  by (induction cbs) (auto intro!: inv_rules leaf_callback_inv)

lemma call_with_leaves_inv:
  assumes "\<And>r. \<not> mmio_write (Call c r)"
  shows "maintains I (call_with_leaves K c)"
  unfolding call_with_leaves_def
  by (intro inv_rules run_leaf_callbacks_inv) (simp_all add: step assms)

lemma endpoint_msi_inv: "maintains I (a1625_scan_endpoint_msi K dev)"
  unfolding a1625_scan_endpoint_msi_def
  by (intro inv_rules call_with_leaves_inv) (auto intro: step)

lemma check_radio_iommu_inv: "maintains I (check_radio_iommu K dev)"
  unfolding check_radio_iommu_def
  by (intro inv_rules reject_inv) (auto intro: step)

lemma observation_loops_inv:
  "maintains I (await_fault K regs n error)"
  "maintains I (report_tables K regs domain addr tables)"
  "maintains I (read_registers K base offs)"
  "maintains I (hold_loop K n dev regs until_signal deadline)"
proof -
  show "maintains I (await_fault K regs n error)"
    by (induction n arbitrary: error) (auto intro!: inv_rules call_with_leaves_inv step)
  show "maintains I (report_tables K regs domain addr tables)"
    by (induction tables) (auto intro!: inv_rules step)
  show "maintains I (read_registers K base offs)"
    by (induction offs) (auto intro!: inv_rules step)
  show "maintains I (hold_loop K n dev regs until_signal deadline)"
    by (induction n) (auto intro!: inv_rules call_with_leaves_inv step fuel_field)
qed

lemma firmware_observe_inv: "maintains I (firmware_observe K hz fuel dev)"
  unfolding firmware_observe_def a1625_scan_fault_tables_def a1625_hold_wifi_def
  by (intro inv_rules observation_loops_inv) (auto intro: step)

lemma header_restored_inv: "maintains I (header_restored K rc ep h)"
  unfolding header_restored_def by (intro inv_rules) (auto intro: step)

lemma node_inv:
  "maintains I (a1625_pci_node_create K dart)" "maintains I (a1625_pci_node_remove K node)"
proof -
  have props: "maintains I (add_props K cs n ps)" for cs n ps
    by (induction ps) (auto intro!: inv_rules step)
  show "maintains I (a1625_pci_node_create K dart)" "maintains I (a1625_pci_node_remove K node)"
    unfolding a1625_pci_node_create_def a1625_pci_node_remove_def by (intro inv_rules props; auto intro: step)+
qed

lemma read_header_inv: "maintains I (scan_read_header K rc ep)"
proof -
  have bars: "maintains I (read_bars K cfg offs)" for cfg offs
    by (induction offs) (auto intro!: inv_rules step)
  show ?thesis
    unfolding scan_read_header_def by (intro inv_rules bars) (auto intro: step)
qed

end

end
