(* ===== verification/ScanSafety.thy ===== *)
theory ScanSafety
  imports ScanInvariant
begin

text \<open>
  What holds during a whole scan, whatever the kernel answers and whichever callbacks it runs, in
  whatever order: the endpoint can only become bus master while firmware is observed, a refused
  write and a foreign device are never forgotten, and the devices are counted.
\<close>

section \<open>The invariant\<close>

text \<open>The PCI core has been handed the endpoint for a driver: the observation of firmware has begun.\<close>

definition starts_firmware :: "event \<Rightarrow> bool" where
  "starts_firmware e \<longleftrightarrow> (case e of Call (Pci (PciBusAddDevice d)) _ \<Rightarrow> True | _ \<Rightarrow> False)"

definition enables_master :: "event \<Rightarrow> bool" where
  "enables_master e \<longleftrightarrow> (case e of
     Call (Mmio (Writew a v)) _ \<Rightarrow> (a = RC_CFG + 4 \<or> a = EP_CFG + 4) \<and> v AND 4 \<noteq> 0
   | Call (Mmio (Writel a v)) _ \<Rightarrow> a = RC_CFG + 4 \<or> a = EP_CFG + 4
   | _ \<Rightarrow> False)"

fun master_guarded :: "event list \<Rightarrow> bool" where
  "master_guarded [] = True"
| "master_guarded (e # t) = (master_guarded t \<and> (enables_master e \<longrightarrow> list_ex starts_firmware t))"

text \<open>A write the filter refused, and a device that is neither the root port nor the radio.\<close>

definition refusal :: "event \<Rightarrow> bool" where
  "refusal e \<longleftrightarrow> (case e of
     CallbackResult (CfgWrite _ _ _ _ _) r _ \<Rightarrow> r = PCIBIOS_SET_FAILED
   | CallbackResult (Identify dev) _ _ \<Rightarrow> \<not> is_root_port dev \<and> \<not> is_radio dev
   | _ \<Rightarrow> False)"

definition identification :: "event \<Rightarrow> bool" where
  "identification e \<longleftrightarrow> (case e of CallbackResult (Identify dev) _ _ \<Rightarrow> True | _ \<Rightarrow> False)"

text \<open>The counter agrees with the devices identified so far and the \<open>k\<close> that are not yet logged.\<close>

definition counted :: "nat \<Rightarrow> (u32 \<Rightarrow> bool) \<Rightarrow> u32 \<Rightarrow> event list \<Rightarrow> bool" where
  "counted k P n t \<longleftrightarrow> n = of_nat (length (filter identification t) + k) \<and> P n"

lemma counted_Cons [simp]:
  "counted k P n (e # t) = (if identification e then counted (Suc k) P n t else counted k P n t)"
  by (simp add: counted_def ac_simps)

lemma counted_next: "counted 0 (\<lambda>_. True) n t \<Longrightarrow> counted 1 (\<lambda>_. True) (n + 1) t"
  by (simp add: counted_def)

text \<open>
  \<open>k\<close> devices are being identified (0 or 1), with \<open>b\<close> the scan has already been rejected, and
  \<open>P\<close> holds for the number of devices counted so far (\<open>any\<close> while they are counted).
\<close>

abbreviation any :: "u32 \<Rightarrow> bool" where "any \<equiv> \<lambda>_. True"

definition scan_inv :: "nat \<Rightarrow> bool \<Rightarrow> (u32 \<Rightarrow> bool) \<Rightarrow> machine \<Rightarrow> bool" where
  "scan_inv k b P s \<longleftrightarrow>
     ps_rc (the_scan s) = RC_CFG \<and> ps_ep (the_scan s) = EP_CFG \<and>
     list_all control_wf (ps_controls (the_scan s)) \<and>
     (ps_firmware_active (the_scan s) \<longrightarrow> list_ex starts_firmware (trace s)) \<and>
     master_guarded (trace s) \<and>
     (b \<or> list_ex refusal (trace s) \<longrightarrow> ps_rejected (the_scan s)) \<and>
     counted k P (ps_devices (the_scan s)) (trace s)"

text \<open>Events that cannot break it.\<close>

definition plain :: "event \<Rightarrow> bool" where
  "plain e \<longleftrightarrow> \<not> mmio_write e \<and> \<not> refusal e \<and> \<not> identification e"

lemma plain_master: "plain e \<Longrightarrow> \<not> enables_master e"
  by (auto simp: plain_def mmio_write_def enables_master_def split: event.splits call.splits mmio_call.splits)

lemma scan_inv_plain:
  assumes "scan_inv k b P s" and "plain e"
  shows "scan_inv k b P (s\<lparr>trace := e # trace s\<rparr>)"
  using assms plain_master [of e] by (auto simp: scan_inv_def plain_def)

lemma plain_call [simp]: "plain (Call c r) \<longleftrightarrow> \<not> mmio_write (Call c r)"
  by (simp add: plain_def refusal_def identification_def)

lemma scan_inv_msi [simp]: "scan_inv k b P (s\<lparr>the_msi := m\<rparr>) = scan_inv k b P s"
  "scan_inv k b P (s\<lparr>out_of_fuel := f\<rparr>) = scan_inv k b P s"
  by (simp_all add: scan_inv_def)

section \<open>Addresses of configuration registers\<close>

lemma config_offset:
  assumes "0 \<le> x" "x < 0x1000"
  shows "uint (RC_CFG + word_of_int x) = 0x610008000 + x" "uint (EP_CFG + word_of_int x) = 0x610100000 + x"
proof -
  have "uint (word_of_int x :: u64) = x"
    using assms by (simp add: uint_word_of_int_eq take_bit_int_eq_self)
  then show "uint (RC_CFG + word_of_int x) = 0x610008000 + x" "uint (EP_CFG + word_of_int x) = 0x610100000 + x"
    using assms by (simp_all add: uint_word_ariths)
qed

lemma config_address:
  assumes "0 \<le> x" "x < 0x1000" "0 \<le> y" "y < 0x1000"
  shows "RC_CFG + word_of_int x = RC_CFG + word_of_int y \<longleftrightarrow> x = y"
    "EP_CFG + word_of_int x = EP_CFG + word_of_int y \<longleftrightarrow> x = y"
    "RC_CFG + word_of_int x \<noteq> EP_CFG + word_of_int y"
    "EP_CFG + word_of_int x \<noteq> RC_CFG + word_of_int y"
  using config_offset [OF assms(1,2)] config_offset [OF assms(3,4)] assms by (auto simp: word_uint_eq_iff)

lemma config_command:
  assumes "0 \<le> x" "x < 0x1000" "cfg = RC_CFG \<or> cfg = EP_CFG"
    and "cfg + word_of_int x = RC_CFG + 4 \<or> cfg + word_of_int x = EP_CFG + 4"
  shows "x = 4"
  using config_address [OF assms(1,2), of 4] assms(3,4) by auto

lemma master_bit: "(ucast (v :: u32) :: u16) AND 4 \<noteq> 0 \<Longrightarrow> v AND 4 \<noteq> 0"
  using and_exp_eq_0_iff_not_bit [of v 2] and_exp_eq_0_iff_not_bit [of "ucast v :: u16" 2]
  by (simp add: bit_ucast_iff)

lemma harmless_master:
  assumes "harmless active bus offset w v" and "cfg = RC_CFG \<or> cfg = EP_CFG"
    and "enables_master (Call (Mmio (if w = 2 then Writew (cfg + word_of_int offset) (ucast v)
           else Writel (cfg + word_of_int offset) v)) r)"
  shows active
proof -
  from assms(1) have range: "0 \<le> offset" "offset < 0x1000"
    and command: "offset < 0x10 \<Longrightarrow> w = 2 \<and> (v AND PCI_COMMAND_MASTER \<noteq> 0 \<longrightarrow> active)"
    by (auto simp: harmless_def)
  from assms(3) have "cfg + word_of_int offset = RC_CFG + 4 \<or> cfg + word_of_int offset = EP_CFG + 4"
    and bit: "w = 2 \<Longrightarrow> (ucast v :: u16) AND 4 \<noteq> 0"
    by (auto simp: enables_master_def split: if_splits)
  then have "offset = 4" using config_command [OF range assms(2)] by blast
  with command have "w = 2" "v AND PCI_COMMAND_MASTER \<noteq> 0 \<longrightarrow> active" by auto
  with master_bit [OF bit] show active by simp
qed

lemma scan_config_cases: "scan_inv k b P s \<Longrightarrow> a1625_scan_config (the_scan s) bus devfn \<noteq> 0
  \<Longrightarrow> a1625_scan_config (the_scan s) bus devfn = RC_CFG \<or> a1625_scan_config (the_scan s) bus devfn = EP_CFG"
  by (auto simp: scan_inv_def a1625_scan_config_def split: if_splits)

lemma wp_scan_write_inv:
  assumes "scan_inv k b P s" and "\<And>r s'. scan_inv k b P s' \<Longrightarrow> (r = PCIBIOS_SET_FAILED \<Longrightarrow> ps_rejected (the_scan s')) \<Longrightarrow> Q r s'"
  shows "wp (a1625_scan_write K bus devfn offset width value) Q s"
proof (rule wp_scan_write)
  let ?cfg = "a1625_scan_config (the_scan s) bus devfn"
  show "list_all control_wf (ps_controls (the_scan s))" using assms(1) by (simp add: scan_inv_def)
  show "Q PCIBIOS_DEVICE_NOT_FOUND s" by (rule assms(2) [OF assms(1)]) simp
  show "Q PCIBIOS_SET_FAILED (s\<lparr>the_scan := (the_scan s)\<lparr>ps_rejected := True\<rparr>\<rparr>)"
    by (rule assms(2)) (use assms(1) in \<open>simp_all add: scan_inv_def\<close>)
  fix s' assume cfg: "?cfg \<noteq> 0" and w: "writes_one (the_scan s) bus ?cfg offset s s'"
  then obtain w v resp where h: "harmless (ps_firmware_active (the_scan s)) bus offset w v"
    and s': "s' = s\<lparr>trace := Call (Mmio (if w = 2 then Writew (?cfg + word_of_int offset) (ucast v)
                                else Writel (?cfg + word_of_int offset) v)) resp # trace s\<rparr>"
    by (auto simp: writes_one_def)
  have "ps_firmware_active (the_scan s)"
    if "enables_master (Call (Mmio (if w = 2 then Writew (?cfg + word_of_int offset) (ucast v)
                                else Writel (?cfg + word_of_int offset) v)) resp)"
    using harmless_master [OF h scan_config_cases [OF assms(1) cfg] that] .
  then have "scan_inv k b P s'"
    using assms(1) unfolding s' by (auto simp: scan_inv_def refusal_def identification_def)
  then show "Q 0 s'" by (rule assms(2)) simp
qed

lemma config_write_inv: "maintains (scan_inv k b P) (leaf_callback K (CfgWrite bus devfn offset width v))"
  unfolding leaf_callback_def callback.case
  by (intro maintainsI wp_bind wp_scan_write_inv wp_log_result)
    (auto simp: scan_inv_def identification_def refusal_def enables_master_def)

interpretation scan: scan_invariant "scan_inv k b P" for k b P
proof
  show "scan_inv k b P s \<Longrightarrow> (\<And>b d off w v. cb \<noteq> CfgWrite b d off w v) \<Longrightarrow> (\<And>dev. cb \<noteq> Identify dev)
      \<Longrightarrow> scan_inv k b P (s\<lparr>trace := CallbackResult cb q x # trace s\<rparr>)" for s cb q x
    by (rule scan_inv_plain, assumption) (cases cb; (blast | simp add: plain_def mmio_write_def refusal_def identification_def))
qed (simp_all add: scan_inv_plain config_write_inv, simp_all add: scan_inv_def)

section \<open>The operations of the scan\<close>

text \<open>Identifying a device counts it, and rejects the scan when it is a foreign one.\<close>

definition stranger :: "pci_dev \<Rightarrow> bool" where
  "stranger dev \<longleftrightarrow> \<not> is_root_port dev \<and> \<not> is_radio dev"

lemma wp_scan_identify:
  assumes "scan_inv 0 b any s" and Q: "\<And>r s'. scan_inv 1 (b \<or> stranger dev) any s' \<Longrightarrow> Q r s'"
  shows "wp (a1625_scan_identify K dev) Q s"
proof -
  let ?b = "b \<or> stranger dev"
  have counted: "wp (upd_scan (\<lambda>scan. scan\<lparr>ps_devices := ps_devices scan + 1\<rparr>)) R s"
    if "\<And>s'. scan_inv 1 b any s' \<Longrightarrow> R () s'" for R
    by (intro wp_upd_scan that) (use assms(1) counted_next in \<open>auto simp: scan_inv_def\<close>)
  have checked: "wp (pwhen (\<not> is_root_port dev \<and> \<not> is_radio dev) reject) R t"
    if "scan_inv 1 b any t" "\<And>s'. scan_inv 1 ?b any s' \<Longrightarrow> R () s'" for R t
    unfolding reject_def by (intro wp_upd_scan wp_rules that(2)) (use that(1) in \<open>auto simp: scan_inv_def stranger_def\<close>)
  have rest: "wp (m :: int prog) Q t" if "scan_inv 1 ?b any t" "maintains (scan_inv 1 ?b any) m" for m t
    by (rule wp_maintains [OF that(2,1) Q])
  show ?thesis
    unfolding a1625_scan_identify_def
    by (rule wp_bind, rule counted, rule wp_bind, rule checked, assumption, rule rest, assumption)
      (auto intro!: inv_rules scan.reject_inv scan.endpoint_msi_inv scan.check_radio_iommu_inv scan_inv_plain)
qed

lemma scan_callback_inv: "maintains (scan_inv 0 b any) (scan_callback K cb)"
proof (cases "\<exists>dev. cb = Identify dev")
  case True
  then obtain dev where cb: "cb = Identify dev" by blast
  show ?thesis
    unfolding cb scan_callback_def callback.case
    by (intro maintainsI wp_bind wp_scan_identify wp_log_result, assumption)
      (auto simp: scan_inv_def identification_def refusal_def enables_master_def stranger_def)
next
  case False
  then show ?thesis
    by (cases cb) (auto simp: scan_callback_def intro!: scan.leaf_callback_inv)
qed

lemma run_scan_callbacks_inv: "maintains (scan_inv 0 b any) (run_scan_callbacks K cbs)"
  by (induction cbs) (auto intro!: inv_rules scan_callback_inv)

lemma call_with_scan_inv:
  assumes "\<And>r. \<not> mmio_write (Call c r)"
  shows "maintains (scan_inv 0 b any) (call_with_scan K c)"
  unfolding call_with_scan_def
  by (intro inv_rules run_scan_callbacks_inv) (simp_all add: scan_inv_plain assms)

text \<open>
  The flag is set just before the endpoint is handed over: the call that follows is the event that
  opens the observation.
\<close>

lemma wp_firmware_start:
  assumes "scan_inv k b P s"
    and "\<And>r s'. scan_inv k b P s' \<Longrightarrow> Q r s'"
  shows "wp (do { upd_scan (\<lambda>scan. scan\<lparr>ps_firmware_active := True\<rparr>); call_with_leaves K (Pci (PciBusAddDevice dev)) }) Q s"
  unfolding call_with_leaves_def
  by (intro wp_upd_scan wp_maintains [OF scan.run_leaf_callbacks_inv [where k = k and b = b and P = P]] wp_rules assms(2))
    (use assms(1) in \<open>auto simp: scan_inv_def starts_firmware_def enables_master_def refusal_def identification_def\<close>)

lemma firmware_bind_inv: "maintains (scan_inv k b P) (firmware_bind K hz fuel dev)"
proof (rule maintainsI)
  fix s assume s: "scan_inv k b P s"
  have assoc: "wp (do { upd_scan g; x \<leftarrow> m; f x }) Q s" if "wp (do { upd_scan g; m }) (\<lambda>x. wp (f x) Q) s" for g m f Q
    using that by (simp add: wp_def split: prod.splits)
  have rest: "wp (m :: int prog) (\<lambda>_. scan_inv k b P) t" if "scan_inv k b P t" "maintains (scan_inv k b P) m" for m t
    by (rule wp_maintains [OF that(2,1)])
  show "wp (firmware_bind K hz fuel dev) (\<lambda>_. scan_inv k b P) s"
    unfolding firmware_bind_def
    by (rule assoc, rule wp_firmware_start [OF s], rule rest, assumption)
      (auto intro!: inv_rules scan.call_with_leaves_inv scan.firmware_observe_inv scan.observation_loops_inv scan_inv_plain)
qed

lemma scan_firmware_inv: "maintains (scan_inv k b P) (a1625_scan_firmware K hz fuel root)"
  unfolding a1625_scan_firmware_def
  by (intro inv_rules firmware_bind_inv) (auto intro: scan_inv_plain)

lemma scan_enumerate_inv: "maintains (scan_inv 0 b any) (scan_enumerate K hz fuel bridge assign_memory bind_firmware)"
  unfolding scan_enumerate_def
  by (intro inv_rules scan.call_with_leaves_inv call_with_scan_inv scan_firmware_inv) (auto intro: scan_inv_plain)

section \<open>Restoration\<close>

lemma control_not_command:
  assumes "control_wf c" and "cfg = RC_CFG \<or> cfg = EP_CFG"
  shows "\<not> enables_master (Call (Mmio (Writew (cfg + ucast (sc_where c)) v)) r)"
    "\<not> enables_master (Call (Mmio (Writel (cfg + ucast (sc_where c)) w)) r)"
proof -
  have range: "0x1c \<le> uint (sc_where c)" "uint (sc_where c) < 0x1000"
    using assms(1) by (auto simp: control_wf_def entry_wf_def split: if_splits)
  have "(ucast (sc_where c) :: u64) = word_of_int (uint (sc_where c))"
    by (simp add: word_uint_eq_iff unsigned_ucast_eq uint_word_of_int_eq)
  then have "cfg + (ucast (sc_where c) :: u64) \<noteq> RC_CFG + 4 \<and> cfg + (ucast (sc_where c) :: u64) \<noteq> EP_CFG + 4"
    using config_command [of "uint (sc_where c)" cfg] range assms(2) by auto
  then show "\<not> enables_master (Call (Mmio (Writew (cfg + ucast (sc_where c)) v)) r)"
    "\<not> enables_master (Call (Mmio (Writel (cfg + ucast (sc_where c)) w)) r)"
    by (simp_all add: enables_master_def)
qed

lemma scan_inv_write:
  assumes "scan_inv k b P s" and "\<not> enables_master (Call (Mmio c) r)"
  shows "scan_inv k b P (s\<lparr>trace := Call (Mmio c) r # trace s\<rparr>)"
  using assms by (auto simp: scan_inv_def refusal_def identification_def)

lemma reads_not_master [simp]:
  "\<not> enables_master (Call (Mmio (Readl a)) r)" "\<not> enables_master (Call (Mmio (Readw a)) r)"
  by (simp_all add: enables_master_def)

lemma restore_controls_inv:
  "list_all control_wf cs \<Longrightarrow> maintains (scan_inv k b P) (restore_controls K RC_CFG EP_CFG cs r)"
proof (induction cs arbitrary: r)
  case (Cons c cs)
  then have wf: "control_wf c" by simp
  show ?case
    unfolding restore_controls.simps using Cons
    by (intro inv_rules Cons.IH)
      (auto intro!: scan_inv_write simp: control_not_command [OF wf, of RC_CFG] control_not_command [OF wf, of EP_CFG])
qed (auto intro: inv_rules)

lemma restore_bars_inv:
  assumes "\<And>off v r. off \<in> fst ` set bs \<Longrightarrow> \<not> enables_master (Call (Mmio (Writel (cfg + off) v)) r)"
  shows "maintains (scan_inv k b P) (restore_bars K cfg bs r)"
  using assms
proof (induction bs arbitrary: r)
  case (Cons p bs)
  have first: "\<not> enables_master (Call (Mmio (Writel (cfg + fst p) (snd p))) x)" for x
    by (rule Cons.prems) simp
  have more: "maintains (scan_inv k b P) (restore_bars K cfg bs r)" for r
    by (rule Cons.IH) (simp add: Cons.prems)
  show ?case
    unfolding restore_bars.simps
    by (intro inv_rules more) (auto intro!: scan_inv_write simp: first)
qed (auto intro: inv_rules)

lemma bar_offsets: "off \<in> fst ` set (zip rc_bar_offsets vs) \<Longrightarrow> \<not> enables_master (Call (Mmio (Writel (RC_CFG + off) v)) r)"
  "off \<in> fst ` set (zip ep_bar_offsets vs) \<Longrightarrow> \<not> enables_master (Call (Mmio (Writel (EP_CFG + off) v)) r)"
  by (auto simp: rc_bar_offsets_def ep_bar_offsets_def enables_master_def dest!: set_zip_leftD)

text \<open>A restoration that reports success was entered with success.\<close>

lemma wp_inv_status:
  assumes "maintains I m" and "\<And>s. wp m (\<lambda>x _. x = (0 :: int) \<longrightarrow> r = (0 :: int)) s" and "I s"
    and "\<And>x s'. I s' \<Longrightarrow> (x = 0 \<Longrightarrow> r = 0) \<Longrightarrow> Q x s'"
  shows "wp m Q s"
proof -
  have "wp m (\<lambda>_. I) s" using assms(1,3) by (simp add: maintains_def)
  from wp_mono [OF wp_conj [OF this assms(2)]] show ?thesis using assms(4) by blast
qed

lemma restore_controls_status: "wp (restore_controls K rc ep cs r) (\<lambda>x _. x = 0 \<longrightarrow> r = 0) s"
proof (induction cs arbitrary: r s)
  case (Cons c cs)
  have next_round: "wp (restore_controls K rc ep cs (if ok then - EIO else r)) (\<lambda>x _. x = 0 \<longrightarrow> r = 0) t" for ok t
    by (rule wp_mono [OF Cons.IH]) (simp split: if_splits)
  show ?case unfolding restore_controls.simps by (intro wp_rules next_round)
qed (auto intro: wp_rules)

lemma restore_bars_status: "wp (restore_bars K cfg bs r) (\<lambda>x _. x = 0 \<longrightarrow> r = 0) s"
proof (induction bs arbitrary: r s)
  case (Cons c cs)
  have next_round: "wp (restore_bars K cfg cs (if ok then - EIO else r)) (\<lambda>x _. x = 0 \<longrightarrow> r = 0) t" for ok t
    by (rule wp_mono [OF Cons.IH]) (simp split: if_splits)
  show ?case unfolding restore_bars.simps by (intro wp_rules next_round)
qed (auto intro: wp_rules)

lemma wp_scan_restore:
  assumes "scan_inv 0 False P s" and h: "sh_rc_command h = 0" "sh_ep_command h = 0"
    and Q: "\<And>x s'. scan_inv 0 False P s' \<Longrightarrow> (x = 0 \<Longrightarrow> \<not> ps_rejected (the_scan s') \<and> r = 0) \<Longrightarrow> Q x s'"
  shows "wp (scan_restore K RC_CFG EP_CFG h r) Q s"
proof -
  let ?I = "scan_inv 0 False P"
  have controls: "list_all control_wf (rev (ps_controls (the_scan s)))"
    using assms(1) by (simp add: scan_inv_def)
  show ?thesis
    unfolding scan_restore_def using assms(1)
    by (intro wp_get_scan
        wp_inv_status [OF restore_controls_inv [OF controls, where k = 0 and b = False and P = P] restore_controls_status]
        wp_inv_status [OF restore_bars_inv [OF bar_offsets(1), where k = 0 and b = False and P = P] restore_bars_status]
        wp_inv_status [OF restore_bars_inv [OF bar_offsets(2), where k = 0 and b = False and P = P] restore_bars_status]
        wp_maintains [OF scan.header_restored_inv [where k = 0 and b = False and P = P]] wp_rules Q)
      (auto simp: h scan_inv_def enables_master_def refusal_def identification_def split: if_splits)
qed

section \<open>The whole scan\<close>

text \<open>After the walk; with status 0 the count is 2 and stays so.\<close>

abbreviation counted_as :: "int \<Rightarrow> u32 \<Rightarrow> bool" where
  "counted_as r \<equiv> (if r = 0 then \<lambda>n. n = 2 else any)"

lemma scan_inv_weaken: "scan_inv k b P s \<Longrightarrow> (\<And>n. P n \<Longrightarrow> R n) \<Longrightarrow> scan_inv k b R s"
  by (auto simp: scan_inv_def counted_def)

lemma counted_as_weaken: "scan_inv k b (counted_as 0) s \<Longrightarrow> scan_inv k b (counted_as r) s"
  using scan_inv_weaken [of k b "counted_as 0" s "counted_as r"] by simp

lemma scan_inv_any: "scan_inv k b P s \<Longrightarrow> scan_inv k b any s"
  by (rule scan_inv_weaken) auto

lemma scan_inv_plain2:
  "scan_inv k b P s \<Longrightarrow> plain e \<Longrightarrow> plain f \<Longrightarrow> scan_inv k b P (s\<lparr>trace := f # e # trace s\<rparr>)"
  using scan_inv_plain [of k b P "s\<lparr>trace := e # trace s\<rparr>" f] scan_inv_plain [of k b P s e] by simp

lemma wp_scan_enumerate:
  assumes "scan_inv 0 b any s"
    and Q: "\<And>r s'. scan_inv 0 b (counted_as r) s' \<Longrightarrow> Q r s'"
  shows "wp (scan_enumerate K hz fuel bridge assign_memory bind_firmware) Q s"
proof -
  note leaves = scan.call_with_leaves_inv [where k = 0 and b = b]
  note walk = call_with_scan_inv [where b = b]
  have last: "wp (do {
       bus \<leftarrow> bridge_bus K bridge;
       pwhen (bus \<noteq> 0) (do {
         bus \<leftarrow> bridge_bus K bridge;
         call_with_leaves K (Pci (PciStopRootBus bus));
         bus \<leftarrow> bridge_bus K bridge;
         call_with_leaves K (Pci (PciRemoveRootBus bus));
         return ()
       });
       return r
     }) Q t" if "scan_inv 0 b (counted_as r) t" for r t
    by (intro wp_rules wp_maintains [OF leaves [where P = "counted_as r"]] Q) (use that in \<open>auto intro: scan_inv_plain scan_inv_plain2\<close>)
  have firmware: "wp (if r = 0 \<and> bind_firmware then do { bus \<leftarrow> bridge_bus K bridge; a1625_scan_firmware K hz fuel bus } else return r)
      R t" if "scan_inv 0 b (counted_as r) t" "\<And>r' s'. scan_inv 0 b (counted_as r') s' \<Longrightarrow> R r' s'" for r R t
    using that(1)
    by (intro wp_rules wp_maintains [OF scan_firmware_inv [where k = 0 and b = b and P = "counted_as 0"]] that(2))
      (auto intro: scan_inv_plain counted_as_weaken scan_inv_any [where P = "\<lambda>n. n = 2"])
  have before: "maintains (scan_inv 0 b any) (pwhen (r = 0 \<and> assign_memory) (do {
       bus \<leftarrow> bridge_bus K bridge;
       call_with_leaves K (Pci (PciBusSizeBridges bus));
       bus \<leftarrow> bridge_bus K bridge;
       call_with_leaves K (Pci (PciBusAssignResources bus));
       return ()
     }))" "maintains (scan_inv 0 b any) (pwhen (r = 0) (do {
       bus \<leftarrow> bridge_bus K bridge;
       call_with_scan K (Pci (PciWalkBus bus));
       return ()
     }))" for r :: int
    by (intro inv_rules leaves walk; auto intro: scan_inv_plain)+
  have walked: "scan_inv 0 b (counted_as (if r = 0 \<and> (ps_rejected (the_scan t) \<or> ps_devices (the_scan t) \<noteq> 2) then - EIO else r)) t"
    if "scan_inv 0 b any t" for t and r :: int
    using that by (simp add: scan_inv_def counted_def)
  show ?thesis
    unfolding scan_enumerate_def
    by (rule wp_bind, rule wp_maintains [OF leaves [where P = any]], simp, rule assms(1), rule wp_let, rule wp_bind,
        rule wp_maintains [OF before(1)], assumption, rule wp_bind, rule wp_maintains [OF before(2)], assumption,
        rule wp_bind, rule wp_get_scan, rule wp_let, rule wp_bind, rule firmware, rule walked, assumption, rule last)
qed

text \<open>The end of a scan: what its result means.\<close>

definition scan_ended :: "int \<Rightarrow> machine \<Rightarrow> bool" where
  "scan_ended r s \<longleftrightarrow> master_guarded (trace s) \<and>
     (r = 0 \<longrightarrow> \<not> list_ex refusal (trace s) \<and> (of_nat (length (filter identification (trace s))) :: u32) = 2)"

lemma scan_endedI: "scan_inv 0 False (counted_as r) s \<Longrightarrow> (r = 0 \<Longrightarrow> \<not> ps_rejected (the_scan s)) \<Longrightarrow> scan_ended r s"
  by (auto simp: scan_ended_def scan_inv_def counted_def split: if_splits)

lemma scan_ended_early: "scan_inv 0 False any s \<Longrightarrow> r \<noteq> 0 \<Longrightarrow> scan_ended r s"
  by (rule scan_endedI) auto

lemma wp_scan_with_bridge:
  assumes "scan_inv 0 False any s" and h: "sh_rc_command h = 0" "sh_ep_command h = 0"
    and Q: "\<And>r s'. scan_inv 0 False any s' \<Longrightarrow> scan_ended r s' \<Longrightarrow> Q r s'"
  shows "wp (scan_with_bridge K hz fuel RC_CFG EP_CFG parent bridge msi_domain assign_memory bind_firmware h) Q s"
proof -
  have restore: "wp (scan_restore K RC_CFG EP_CFG h r) Q t" if "scan_inv 0 False (counted_as r') t" "r = 0 \<Longrightarrow> r' = 0" for r r' t
  proof (rule wp_scan_restore [OF that(1) h])
    fix x :: int and s' assume s': "scan_inv 0 False (counted_as r') s'" "x = 0 \<Longrightarrow> \<not> ps_rejected (the_scan s') \<and> r = 0"
    have "scan_inv 0 False (counted_as x) s'"
      by (rule scan_inv_weaken [OF s'(1)]) (use s'(2) that(2) in auto)
    then show "Q x s'" by (rule Q [OF scan_inv_any [OF s'(1)] scan_endedI]) (use s'(2) in simp)
  qed
  have calls: "maintains (scan_inv 0 False P) (do_call K (Pci c))"
    "maintains (scan_inv 0 False P) (if assign_memory then int_call K (Pci c) else return 0)"
    "maintains (scan_inv 0 False P) (pwhen assign_memory (do_call K (Pci c)))" for c P
    by (intro inv_rules; auto intro: scan_inv_plain)+
  note step = wp_bind wp_maintains [OF calls(1)] wp_maintains [OF calls(2)] wp_maintains [OF calls(3)]
  show ?thesis
    unfolding scan_with_bridge_def
  proof (rule step(1), rule step(2) [OF assms(1)], rule step(1), rule step(2), assumption, rule step(1), rule step(3),
      assumption, rule wp_if)
    fix r s' assume "scan_inv 0 False any s'" "r \<noteq> (0 :: int)"
    then show "wp (do { do_call K (Pci (PciFreeHostBridge bridge)); return r }) Q s'"
      by - (rule step(1), rule step(2), assumption, rule wp_return, rule Q, assumption, rule scan_ended_early)
  next
    fix s' assume s': "scan_inv 0 False any s'"
    show "wp (do {
       pwhen assign_memory (do_call K (Pci (PciAddResourceOffset bridge ''a1625-pci-memory'' 0x700000000)));
       r \<leftarrow> scan_enumerate K hz fuel bridge assign_memory bind_firmware;
       do_call K (Pci (PciFreeHostBridge bridge));
       cleanup \<leftarrow> (if assign_memory then int_call K (Pci (ReleaseResource ''a1625-pci-memory'')) else return 0);
       scan_restore K RC_CFG EP_CFG h (if cleanup \<noteq> 0 then - EIO else r)
     }) Q s'"
      by (rule step(1), rule step(4) [OF s'], rule step(1), rule wp_scan_enumerate, assumption, rule step(1), rule step(2),
          assumption, rule step(1), rule step(3), assumption, rule restore, assumption, simp split: if_splits)
  qed
qed

text \<open>The teardown after the scan cannot spoil what has been established.\<close>

lemma scan_ended_plain: "scan_ended r s \<Longrightarrow> plain e \<Longrightarrow> scan_ended r (s\<lparr>trace := e # trace s\<rparr>)"
  using plain_master [of e] by (auto simp: scan_ended_def plain_def)

lemma scan_ended_failed: "scan_ended r s \<Longrightarrow> c \<noteq> 0 \<Longrightarrow> scan_ended c s"
  by (simp add: scan_ended_def)

lemma pci_node_remove_ended: "maintains (scan_ended r) (a1625_pci_node_remove K node)"
  unfolding a1625_pci_node_remove_def
  by (intro inv_rules) (auto intro: scan_ended_plain)

lemma wp_scan_with_parent:
  assumes "scan_inv 0 False any s" and h: "sh_rc_command h = 0" "sh_ep_command h = 0"
    and Q: "\<And>r s'. scan_ended r s' \<Longrightarrow> Q r s'"
  shows "wp (scan_with_parent K hz fuel RC_CFG EP_CFG node msi_domain assign_memory bind_firmware h) Q s"
proof -
  have calls: "maintains (scan_inv 0 False any) (val_call K (Dev d))" "maintains (scan_inv 0 False any) (val_call K (Pci p))"
    "maintains (scan_inv 0 False any) (do_call K (Dev d))" "maintains (scan_inv 0 False any) (of_node_get K n)" for d p n
    by (intro inv_rules; auto intro: scan_inv_plain)+
  note step = wp_bind wp_maintains [OF calls(1)] wp_maintains [OF calls(2)] wp_maintains [OF calls(3)] wp_maintains [OF calls(4)]
  have after: "maintains (scan_ended r) (of_node_put K n)" "maintains (scan_ended r) (do_call K (Dev d))" for r n d
    by (intro inv_rules; auto intro: scan_ended_plain)+
  note last = wp_maintains [OF after(1)] wp_maintains [OF after(2)]
  have bridge: "wp (if bridge = 0 then return (- ENOMEM)
          else scan_with_bridge K hz fuel RC_CFG EP_CFG parent bridge msi_domain assign_memory bind_firmware h) R t"
    if "scan_inv 0 False any t" "\<And>r s'. scan_ended r s' \<Longrightarrow> R r s'" for bridge parent R t
  proof (cases "bridge = 0")
    case True
    then show ?thesis using scan_ended_early [OF that(1), of "- ENOMEM"] by (auto intro!: wp_return that(2))
  next
    case False
    then show ?thesis by (simp only: if_False) (rule wp_scan_with_bridge [OF that(1) h], rule that(2))
  qed
  show ?thesis
    unfolding scan_with_parent_def
  proof (rule step(1), rule step(2) [OF assms(1)], rule wp_if)
    fix parent t assume "scan_inv 0 False any t" "IS_ERR parent"
    then show "wp (return (PTR_ERR parent)) Q t"
      by (intro wp_return Q scan_ended_early) (simp_all add: PTR_ERR_nonzero)
  next
    fix parent t assume t: "scan_inv 0 False any t"
    show "wp (do {
       of_node_get K node;
       do_call K (Dev (DevSetOfNode parent node));
       bridge \<leftarrow> val_call K (Pci PciAllocHostBridge);
       r \<leftarrow> (if bridge = 0 then return (- ENOMEM)
            else scan_with_bridge K hz fuel RC_CFG EP_CFG parent bridge msi_domain assign_memory bind_firmware h);
       of_node_put K node;
       do_call K (Dev (DevSetOfNode parent 0));
       do_call K (Dev (RootDeviceUnregister parent));
       return r
     }) Q t"
      by (rule step(1), rule step(5) [OF t], rule step(1), rule step(4), assumption, rule step(1), rule step(3), assumption,
          rule step(1), rule bridge, assumption, rule step(1), rule last(1), assumption, rule step(1), rule last(2), assumption,
          rule step(1), rule last(2), assumption, rule wp_return, rule Q)
  qed
qed

text \<open>The reads before the scan: only a device with cleared command registers is accepted.\<close>

lemma wp_scan_read_header:
  assumes "scan_inv k b P s"
    and Q: "\<And>h s'. scan_inv k b P s' \<Longrightarrow> (\<And>x. h = Some x \<Longrightarrow> sh_rc_command x = 0 \<and> sh_ep_command x = 0) \<Longrightarrow> Q h s'"
  shows "wp (scan_read_header K rc ep) Q s"
proof -
  have any_bars: "wp (read_bars K cfg offs) R t" if "\<And>x t'. R x t'" for cfg offs R t
    by (rule wp_any) (rule that)
  have "wp (scan_read_header K rc ep) (\<lambda>h _. \<forall>x. h = Some x \<longrightarrow> sh_rc_command x = 0 \<and> sh_ep_command x = 0) s"
    unfolding scan_read_header_def by (intro wp_rules any_bars) auto
  moreover have "wp (scan_read_header K rc ep) (\<lambda>_. scan_inv k b P) s"
    using scan.read_header_inv [of k b P] assms(1) by (simp add: maintains_def)
  ultimately have "wp (scan_read_header K rc ep) (\<lambda>h s'. scan_inv k b P s' \<and> (\<forall>x. h = Some x \<longrightarrow> sh_rc_command x = 0 \<and> sh_ep_command x = 0)) s"
    by (intro wp_conj)
  then show ?thesis by (rule wp_mono) (blast intro: Q)
qed

definition scan_fresh :: "event list \<Rightarrow> bool" where
  "scan_fresh t \<longleftrightarrow> master_guarded t \<and> \<not> list_ex refusal t \<and> \<not> list_ex identification t"

lemma scan_fresh_start:
  assumes "scan_fresh t"
  shows "master_guarded t" "\<not> list_ex refusal t" "filter identification t = []"
  using assms by (auto simp: scan_fresh_def list_ex_iff filter_empty_conv)

lemma register_read_plain: "register_read e \<Longrightarrow> plain e"
  by (auto simp: register_read_def plain_def mmio_write_def refusal_def identification_def
      split: event.splits call.splits mmio_call.splits)

lemma scan_inv_reads: "scan_inv k b P s \<Longrightarrow> list_all register_read new \<Longrightarrow> scan_inv k b P (s\<lparr>trace := new @ trace s\<rparr>)"
proof (induction new)
  case (Cons e new)
  then show ?case
    using scan_inv_plain [of k b P "s\<lparr>trace := new @ trace s\<rparr>" e] by (simp add: register_read_plain)
qed simp

lemma saves_inv:
  assumes "saves n s s'" and "scan_inv k b P s"
  shows "scan_inv k b P s'"
proof -
  obtain new cs cap m where s': "s' = s\<lparr>trace := new @ trace s,
            the_scan := (the_scan s)\<lparr>ps_controls := ps_controls (the_scan s) @ cs, ps_msi_cap := cap, ps_msi_64 := m\<rparr>\<rparr>"
    and cs: "list_all control_wf cs" and new: "list_all register_read new"
    using assms(1) unfolding saves_def by blast
  show ?thesis
    using scan_inv_reads [OF assms(2) new] cs unfolding s' by (simp add: scan_inv_def)
qed

lemma wp_pci_scan:
  assumes "scan_fresh (trace s)" and Q: "\<And>r s'. scan_ended r s' \<Longrightarrow> Q r s'"
  shows "wp (a1625_pci_scan K hz fuel RC_CFG EP_CFG dart msi_domain assign_memory bind_firmware hold_seconds hold_until_signal) Q s"
proof -
  let ?I = "scan_inv 0 False any"
  let ?with_parent = "\<lambda>node h. scan_with_parent K hz fuel RC_CFG EP_CFG node msi_domain assign_memory bind_firmware h"
  have start: "?I (s\<lparr>the_scan := init_scan RC_CFG EP_CFG dart msi_domain assign_memory bind_firmware hold_seconds hold_until_signal\<rparr>)"
    using scan_fresh_start [OF assms(1)] by (simp add: scan_inv_def init_scan_def counted_def)
  have with_node: "wp (do {
           (r, node) \<leftarrow> a1625_pci_node_create K dart;
           r \<leftarrow> (if r \<noteq> 0 then return r else ?with_parent (pn_node node) h);
           cleanup \<leftarrow> a1625_pci_node_remove K node;
           return (if cleanup \<noteq> 0 then cleanup else r)
         }) Q t" if "?I t" "sh_rc_command h = 0" "sh_ep_command h = 0" for h :: scan_header and t
  proof (rule wp_bind, rule wp_maintains [OF scan.node_inv(1) that(1)], rule wp_case_prod, rule wp_bind)
    fix p r t' and node :: pci_node assume t': "?I t'"
    have "wp (if r \<noteq> 0 then return r else ?with_parent (pn_node node) h) scan_ended t'"
      by (intro wp_rules wp_scan_with_parent [OF t' that(2,3)]) (use t' in \<open>auto intro: scan_ended_early\<close>)
    then show "wp (if r \<noteq> 0 then return r else ?with_parent (pn_node node) h)
        (\<lambda>r. wp (do { cleanup \<leftarrow> a1625_pci_node_remove K node; return (if cleanup \<noteq> 0 then cleanup else r) }) Q) t'"
    proof (rule wp_mono)
      fix r t2 assume "scan_ended r t2"
      then show "wp (do { cleanup \<leftarrow> a1625_pci_node_remove K node; return (if cleanup \<noteq> 0 then cleanup else r) }) Q t2"
        by (intro wp_bind wp_maintains [OF pci_node_remove_ended] wp_return Q) (auto intro: scan_ended_failed)
    qed
  qed
  show ?thesis
    unfolding a1625_pci_scan_def
  proof (rule wp_bind, rule wp_upd_scan, rule wp_bind, rule wp_scan_read_header [OF start], rule wp_case_option)
    fix h t assume "?I t"
    then show "wp (return (- EBUSY)) Q t" by (intro wp_return Q scan_ended_early) simp_all
  next
    fix h t and x :: scan_header assume t: "?I t" and h: "\<And>x. h = Some x \<Longrightarrow> sh_rc_command x = 0 \<and> sh_ep_command x = 0" "h = Some x"
    show "wp (do {
           r \<leftarrow> a1625_scan_save_controls K;
           if r \<noteq> 0 then return r
           else if dart = 0 then ?with_parent 0 x
           else do {
             (r, node) \<leftarrow> a1625_pci_node_create K dart;
             r \<leftarrow> (if r \<noteq> 0 then return r else ?with_parent (pn_node node) x);
             cleanup \<leftarrow> a1625_pci_node_remove K node;
             return (if cleanup \<noteq> 0 then cleanup else r)
           }
         }) Q t"
      by (intro wp_bind [where m = "a1625_scan_save_controls K"] wp_scan_save_controls wp_if with_node wp_scan_with_parent wp_return Q)
        (use h t in \<open>auto intro: saves_inv scan_ended_early\<close>)
  qed
qed

section \<open>Properties\<close>

text \<open>
  Bus mastering: whatever the kernel, the hardware and the callbacks do, no write of a scan sets the
  bus master bit of the root port or of the radio, and none reaches their command register with a
  width that could, before the radio has been handed to a driver; a scan without \<open>bind_firmware\<close>
  never hands it over.
\<close>

theorem pci_scan_bus_master:
  assumes "run_state (a1625_pci_scan K hz fuel RC_CFG EP_CFG dart msi_domain assign_memory bind_firmware
      hold_seconds hold_until_signal) s = (r, s')"
    and "scan_fresh (trace s)"
  shows "master_guarded (trace s')"
proof -
  have "wp (a1625_pci_scan K hz fuel RC_CFG EP_CFG dart msi_domain assign_memory bind_firmware
      hold_seconds hold_until_signal) (\<lambda>_ s'. master_guarded (trace s')) s"
    by (rule wp_pci_scan [OF assms(2)]) (simp add: scan_ended_def)
  from wp_run [OF this assms(1)] show ?thesis .
qed

lemma scan_fresh_boot: "scan_fresh (trace boot)"
  by (simp add: scan_fresh_def)

text \<open>The board after its boot loader has routed bus 1 to the radio; a scan runs on it to its end.\<close>

definition routed :: machine where
  "routed = boot\<lparr>trace := [Call (Mmio (Writel (RC_CFG + 0x18) 0x010100)) ok]\<rparr>"

lemma scan_fresh_routed: "scan_fresh (trace routed)"
  by (simp add: scan_fresh_def routed_def enables_master_def refusal_def identification_def)

theorem pci_scan_bus_master_witness:
  "master_guarded (trace (snd (run_state (a1625_pci_scan board 250 1 RC_CFG EP_CFG 0x700 0x800 True True 0 False) routed)))"
  by (rule pci_scan_bus_master [OF run_split [OF refl] scan_fresh_routed])

text \<open>
  C15. The scan fails closed: if a write has been refused at any time, if a device other than the root
  port and the radio has been seen, or if not exactly two devices have been identified (modulo the
  width of the counter), the result is an error, whatever happened afterwards.
\<close>

theorem pci_scan_fails_closed:
  assumes "run_state (a1625_pci_scan K hz fuel RC_CFG EP_CFG dart msi_domain assign_memory bind_firmware
      hold_seconds hold_until_signal) s = (r, s')"
    and "scan_fresh (trace s)"
    and "list_ex refusal (trace s') \<or> (of_nat (length (filter identification (trace s'))) :: u32) \<noteq> 2"
  shows "r \<noteq> 0"
proof -
  have "wp (a1625_pci_scan K hz fuel RC_CFG EP_CFG dart msi_domain assign_memory bind_firmware
      hold_seconds hold_until_signal) scan_ended s"
    by (rule wp_pci_scan [OF assms(2)])
  from wp_run [OF this assms(1)] assms(3) show ?thesis by (auto simp: scan_ended_def)
qed

text \<open>Right after boot the bus numbers are not routed yet, so the scan does not start.\<close>

lemma scan_not_routed:
  "filter identification (trace (snd (run_state (a1625_pci_scan board 250 1 RC_CFG EP_CFG 0x700 0x800 True True 0 False) boot))) = []"
  by (simp add: a1625_pci_scan_def scan_read_header_def upd_scan_def run_simps identification_def)

theorem pci_scan_fails_closed_witness:
  "fst (run_state (a1625_pci_scan board 250 1 RC_CFG EP_CFG 0x700 0x800 True True 0 False) boot) \<noteq> 0"
  by (rule pci_scan_fails_closed [OF run_split [OF refl] scan_fresh_boot]) (simp only: scan_not_routed, simp)

end
