(* ===== verification/ScanLedger.thy ===== *)
theory ScanLedger
  imports ScanSafety
begin

text \<open>
  The ledger of a scan: the host bridge, its memory window, the parent device, the interrupt
  vectors, the mapped registers and all references are given back on every path.
\<close>

section \<open>Callbacks\<close>

lemma upd_scan_emits [emits_rules]: "emits P (upd_scan f)"
  unfolding upd_scan_def by (intro emits_rules) simp

lemma get_scan_emits [emits_rules]: "emits P get_scan"
  unfolding get_scan_def by (intro emits_rules)

lemma reject_emits [emits_rules]: "emits P reject"
  unfolding reject_def by (intro emits_rules)

lemma scan_accessors_neutral:
  "emits neutral (a1625_scan_read K bus devfn offset width)"
  "emits neutral (a1625_scan_write K bus devfn offset width v)"
  unfolding a1625_scan_read_def a1625_scan_write_def
  by (intro emits_rules; simp add: neutral_def)+

lemma leaf_callback_keeps: "keeps x (leaf_callback K cb)"
proof (cases cb)
  case (CfgRead bus devfn offset width)
  show ?thesis
    unfolding CfgRead leaf_callback_def callback.case
    by (intro emits_neutral_keeps emits_rules scan_accessors_neutral) (simp add: neutral_def)
next
  case (CfgWrite bus devfn offset width v)
  show ?thesis
    unfolding CfgWrite leaf_callback_def callback.case
    by (intro emits_neutral_keeps emits_rules scan_accessors_neutral) (simp add: neutral_def)
qed (simp_all add: leaf_callback_def msi_callback_keeps)

lemma run_leaf_callbacks_keeps: "keeps x (run_leaf_callbacks K cbs)"
  by (induction cbs) (auto intro!: keeps_bind keeps_return leaf_callback_keeps)

text \<open>A call with callbacks counts as the call alone.\<close>

lemma wp_call_with_leaves:
  assumes "\<And>r s'. held (trace s') x = held (trace s) x + unit_at (acquires (Call c r)) x - unit_at (releases (Call c r)) x \<Longrightarrow> Q r s'"
  shows "wp (call_with_leaves K c) Q s"
  unfolding call_with_leaves_def
  by (intro wp_rules wp_keeps [OF run_leaf_callbacks_keeps [of x]] assms) simp

section \<open>Identification\<close>

lemma endpoint_msi_keeps: "keeps x (a1625_scan_endpoint_msi K dev)"
  unfolding a1625_scan_endpoint_msi_def
  by (intro keepsI wp_call_with_leaves [where x = x] wp_get_scan wp_rules) simp_all

lemma check_radio_iommu_keeps: "keeps x (check_radio_iommu K dev)"
  unfolding check_radio_iommu_def reject_def
  by (intro keepsI wp_upd_scan wp_rules) simp_all

lemma scan_identify_keeps: "keeps x (a1625_scan_identify K dev)"
  unfolding a1625_scan_identify_def reject_def
  by (intro keepsI wp_keeps [OF endpoint_msi_keeps [of x]] wp_keeps [OF check_radio_iommu_keeps [of x]]
      wp_upd_scan wp_get_scan wp_rules) simp_all

lemma scan_callback_keeps: "keeps x (scan_callback K cb)"
  by (cases cb) (auto simp: scan_callback_def intro!: keeps_bind scan_identify_keeps log_result_keeps leaf_callback_keeps)

lemma run_scan_callbacks_keeps: "keeps x (run_scan_callbacks K cbs)"
  by (induction cbs) (auto intro!: keeps_bind keeps_return scan_callback_keeps)

lemma wp_call_with_scan:
  assumes "\<And>r s'. held (trace s') x = held (trace s) x + unit_at (acquires (Call c r)) x - unit_at (releases (Call c r)) x \<Longrightarrow> Q r s'"
  shows "wp (call_with_scan K c) Q s"
  unfolding call_with_scan_def
  by (intro wp_rules wp_keeps [OF run_scan_callbacks_keeps [of x]] assms) simp

section \<open>Observation and hold\<close>

lemma await_fault_keeps: "keeps x (await_fault K regs n error)"
proof (induction n arbitrary: error)
  case (Suc n)
  show ?case
    unfolding await_fault.simps
    by (intro keepsI wp_call_with_leaves [where x = x] wp_keeps [OF Suc] wp_rules) simp_all
qed (simp add: keeps_return)

lemma report_tables_keeps: "keeps x (report_tables K regs domain addr tables)"
  by (intro emits_neutral_keeps, induction tables) (auto intro!: emits_rules simp: neutral_def)

lemma read_registers_keeps: "keeps x (read_registers K base offs)"
  by (intro emits_neutral_keeps, induction offs) (auto intro!: emits_rules simp: neutral_def)

lemma fault_tables_keeps: "keeps x (a1625_scan_fault_tables K dev)"
  unfolding a1625_scan_fault_tables_def
  by (intro keepsI wp_keeps [OF await_fault_keeps [of x]] wp_keeps [OF report_tables_keeps [of x]] wp_rules) simp_all

lemma hold_loop_keeps: "keeps x (hold_loop K n dev regs until_signal deadline)"
proof (induction n)
  case 0
  show ?case by (simp, intro keepsI wp_rules) simp
next
  case (Suc n)
  show ?case
    unfolding hold_loop.simps
    by (intro keepsI wp_call_with_leaves [where x = x] wp_keeps [OF Suc] wp_rules) simp_all
qed

lemma hold_wifi_keeps: "keeps x (a1625_hold_wifi K hz fuel dev seconds until_signal)"
  unfolding a1625_hold_wifi_def
  by (intro keepsI wp_keeps [OF hold_loop_keeps [of x]] wp_rules) (simp_all add: unless_null_def)

lemma firmware_observe_keeps: "keeps x (firmware_observe K hz fuel dev)"
  unfolding firmware_observe_def
  by (intro keepsI wp_keeps [OF fault_tables_keeps [of x]] wp_keeps [OF hold_wifi_keeps [of x]] wp_get_scan wp_rules) simp_all

lemma firmware_bind_keeps: "keeps x (firmware_bind K hz fuel dev)"
  unfolding firmware_bind_def
  by (intro keepsI wp_upd_scan wp_call_with_leaves [where x = x] wp_keeps [OF firmware_observe_keeps [of x]]
      wp_keeps [OF read_registers_keeps [of x]] wp_rules) simp_all

lemma scan_firmware_keeps: "keeps x (a1625_scan_firmware K hz fuel root)"
  unfolding a1625_scan_firmware_def
  by (intro keepsI wp_get_scan wp_keeps [OF firmware_bind_keeps [of x]] wp_rules) (simp_all add: unless_null_def)

section \<open>The host bridge and its parent\<close>

lemma scan_enumerate_keeps: "keeps x (scan_enumerate K hz fuel bridge assign_memory bind_firmware)"
  unfolding scan_enumerate_def
  by (intro keepsI wp_get_scan wp_call_with_leaves [where x = x] wp_call_with_scan [where x = x]
      wp_keeps [OF scan_firmware_keeps [of x]] wp_rules) simp_all

lemma restore_neutral:
  "emits neutral (restore_controls K rc ep cs r)"
  "emits neutral (restore_bars K cfg bs r)"
  "emits neutral (header_restored K rc ep h)"
proof -
  show "emits neutral (restore_controls K rc ep cs r)"
    by (induction cs arbitrary: r) (auto intro!: emits_rules simp: neutral_def)
  show "emits neutral (restore_bars K cfg bs r)"
    by (induction bs arbitrary: r) (auto intro!: emits_rules simp: neutral_def)
  show "emits neutral (header_restored K rc ep h)"
    unfolding header_restored_def by (intro emits_rules) (simp_all add: neutral_def)
qed

lemma scan_restore_neutral: "emits neutral (scan_restore K rc ep h r)"
  unfolding scan_restore_def by (intro emits_rules restore_neutral) (simp_all add: neutral_def)

text \<open>The bridge is consumed: it is freed on both paths.\<close>

lemma wp_scan_with_bridge_held:
  assumes "\<And>r s'. held (trace s') x = held (trace s) x - unit_at (Some (HostBridge bridge)) x \<Longrightarrow> Q r s'"
  shows "wp (scan_with_bridge K hz fuel rc ep parent bridge msi_domain assign_memory bind_firmware h) Q s"
  unfolding scan_with_bridge_def
  by (intro wp_keeps [OF scan_enumerate_keeps [of x]] wp_neutral [OF scan_restore_neutral] wp_rules assms) simp_all

lemma scan_with_parent_keeps: "keeps x (scan_with_parent K hz fuel rc ep node msi_domain assign_memory bind_firmware h)"
  unfolding scan_with_parent_def
  by (intro keepsI wp_scan_with_bridge_held [where x = x] wp_rules) (simp_all add: unless_null_def)

section \<open>The scan\<close>

lemma read_bars_neutral: "emits neutral (read_bars K cfg offs)"
  by (induction offs) (auto intro!: emits_rules simp: neutral_def)

lemma scan_read_header_neutral: "emits neutral (scan_read_header K rc ep)"
  unfolding scan_read_header_def by (intro emits_rules read_bars_neutral) (simp_all add: neutral_def)

lemma save_controls_keeps: "keeps x (a1625_scan_save_controls K)"
proof (intro keepsI wp_scan_save_controls)
  fix s s' assume "saves 26 s s'"
  then obtain new where "trace s' = new @ trace s" "list_all register_read new"
    unfolding saves_def by force
  moreover have "register_read e \<Longrightarrow> neutral e" for e
    by (auto simp: register_read_def neutral_def split: event.splits call.splits mmio_call.splits)
  ultimately show "held (trace s') x = held (trace s) x"
    by (simp add: held_append_neutral list_all_iff)
qed

lemma pci_scan_keeps:
  "keeps x (a1625_pci_scan K hz fuel rc ep dart msi_domain assign_memory bind_firmware hold_seconds hold_until_signal)"
  unfolding a1625_pci_scan_def
  by (intro keepsI wp_upd_scan wp_neutral [OF scan_read_header_neutral] wp_keeps [OF save_controls_keeps [of x]]
      wp_keeps [OF scan_with_parent_keeps [of x]] wp_pci_node_create wp_pci_node_remove wp_rules) simp_all

text \<open>
  The scan takes no client of its own: the observer in the middle is the code it calls itself. So it
  fits the contract of a lifetime whose client does nothing.
\<close>

interpretation scan: lifetime
  "\<lambda>_ :: unit. a1625_pci_scan K hz fuel rc ep dart msi_domain assign_memory bind_firmware hold_seconds hold_until_signal"
  "\<lambda>_ (_ :: unit). return 0" "\<lambda>_. False"
  for K hz fuel rc ep dart msi_domain assign_memory bind_firmware hold_seconds hold_until_signal
  by unfold_locales (rule pci_scan_keeps)

section \<open>Properties\<close>

text \<open>
  A scan gives back every resource: host bridge, memory window, parent device, device-tree node,
  interrupt vectors, mappings and references, whatever fails and whatever callbacks ran.
\<close>

theorem pci_scan_leak_free:
  assumes "run_state (a1625_pci_scan K hz fuel rc ep dart msi_domain assign_memory bind_firmware
      hold_seconds hold_until_signal) s = (r, s')"
  shows "held (trace s') x = held (trace s) x"
  by (rule scan.run_keeps [OF _ _ assms]) (simp_all add: keeps_return)

theorem pci_scan_leak_free_witness:
  "held (trace (snd (run_state (a1625_pci_scan board 250 1 RC_CFG EP_CFG 0x700 0x800 True True 0 False) boot))) (HostBridge 1) = 0"
  using pci_scan_leak_free [OF run_split [OF refl], where s = boot] by simp

end
