(* ===== verification/ScanRestore.thy ===== *)
theory ScanRestore
  imports ScanLedger
begin

text \<open>
  The round trip of a scan over the configuration header, and the end of the hold.
\<close>

section \<open>The header registers\<close>

text \<open>Bus numbers, BARs and ROM addresses of the two devices.\<close>

definition header_regs :: "u64 list" where
  "header_regs = [RC_CFG + 0x18, RC_CFG + 0x38, EP_CFG + 0x30] @
     map (\<lambda>off. RC_CFG + off) rc_bar_offsets @ map (\<lambda>off. EP_CFG + off) ep_bar_offsets"

definition header_at :: "(u64 \<Rightarrow> u32) \<Rightarrow> event list \<Rightarrow> scan_header \<Rightarrow> bool" where
  "header_at init t h \<longleftrightarrow>
     sh_bus_numbers h = mmio_at init t (RC_CFG + 0x18) \<and> sh_rc_rom h = mmio_at init t (RC_CFG + 0x38) \<and>
     sh_ep_rom h = mmio_at init t (EP_CFG + 0x30) \<and>
     sh_rc_bars h = map (\<lambda>off. mmio_at init t (RC_CFG + off)) rc_bar_offsets \<and>
     sh_ep_bars h = map (\<lambda>off. mmio_at init t (EP_CFG + off)) ep_bar_offsets"

definition same_header :: "(u64 \<Rightarrow> u32) \<Rightarrow> event list \<Rightarrow> event list \<Rightarrow> bool" where
  "same_header init t u \<longleftrightarrow> list_all (\<lambda>a. mmio_at init u a = mmio_at init t a) header_regs"

text \<open>Programs without register writes keep it.\<close>

lemma wp_no_mmio_write:
  assumes "emits (\<lambda>e. \<not> mmio_write e) m"
    and "\<And>r (s' :: machine). mmio_at init (trace s') = mmio_at init (trace s) \<Longrightarrow> Q r s'"
  shows "wp m Q s"
proof (rule wp_frame [OF assms(1)])
  fix r new and s' :: machine
  assume *: "list_all (\<lambda>e. \<not> mmio_write e) new" "trace s' = new @ trace s"
  from *(1) have "mmio_at init (new @ trace s) a = mmio_at init (trace s) a" for a
    by (induction new) (simp_all del: mmio_at.simps add: mmio_at_no_write)
  with *(2) show "Q r s'" by (intro assms(2)) (simp add: fun_eq_iff)
qed

section \<open>Reading the header\<close>

lemma wp_read_bars_file:
  assumes "register_file init A K" and "\<forall>off \<in> set offs. A (cfg + off)"
    and "\<And>s'. mmio_at init (trace s') = mmio_at init (trace s) \<Longrightarrow> Q (map (\<lambda>off. mmio_at init (trace s) (cfg + off)) offs) s'"
  shows "wp (read_bars K cfg offs) Q s"
  using assms(2,3)
proof (induction offs arbitrary: s Q)
  case Nil
  then show ?case by (auto intro: wp_rules)
next
  case (Cons off offs)
  have A: "A (cfg + off)" using Cons.prems(1) by simp
  show ?case
    unfolding read_bars.simps
    by (intro wp_bind wp_readl_register_file [OF assms(1) A] Cons.IH wp_return)
      (use Cons.prems in \<open>auto simp: fun_eq_iff\<close>)
qed

lemma wp_scan_read_header_file:
  assumes "register_file init (\<lambda>a. a \<in> set header_regs) K"
    and "\<And>h s'. mmio_at init (trace s') = mmio_at init (trace s) \<Longrightarrow> (\<And>x. h = Some x \<Longrightarrow> header_at init (trace s) x) \<Longrightarrow> Q h s'"
  shows "wp (scan_read_header K RC_CFG EP_CFG) Q s"
proof -
  have in_header: "RC_CFG + 0x18 \<in> set header_regs" "RC_CFG + 0x38 \<in> set header_regs" "EP_CFG + 0x30 \<in> set header_regs"
    "\<forall>off \<in> set rc_bar_offsets. RC_CFG + off \<in> set header_regs" "\<forall>off \<in> set ep_bar_offsets. EP_CFG + off \<in> set header_regs"
    by (simp_all add: header_regs_def)
  show ?thesis
    unfolding scan_read_header_def
    by (intro wp_readl_register_file [OF assms(1) in_header(1)] wp_readl_register_file [OF assms(1) in_header(2)]
        wp_readl_register_file [OF assms(1) in_header(3)] wp_read_bars_file [OF assms(1) in_header(4)]
        wp_read_bars_file [OF assms(1) in_header(5)] wp_rules assms(2))
      (auto simp: header_at_def fun_eq_iff)
qed

section \<open>Writing it back\<close>

text \<open>Register contents as a function that the writes update.\<close>

definition put_half :: "u64 \<Rightarrow> u16 \<Rightarrow> (u64 \<Rightarrow> u32) \<Rightarrow> u64 \<Rightarrow> u32" where
  "put_half b v m = (\<lambda>a. if a = b then put_low16 (m a) v else if a + 2 = b then put_high16 (m a) v else m a)"

lemma mmio_at_write:
  "mmio_at init (Call (Mmio (Writel b v)) r # t) = (mmio_at init t)(b := v)"
  "mmio_at init (Call (Mmio (Writew b w)) r # t) = put_half b w (mmio_at init t)"
  "mmio_at init (Call (Mmio (Readl b)) r # t) = mmio_at init t"
  by (auto simp: fun_eq_iff put_half_def)

fun put_bars :: "u64 \<Rightarrow> (u64 \<times> u32) list \<Rightarrow> (u64 \<Rightarrow> u32) \<Rightarrow> u64 \<Rightarrow> u32" where
  "put_bars cfg [] m = m"
| "put_bars cfg (b # bs) m = put_bars cfg bs (m(cfg + fst b := snd b))"

lemma wp_restore_bars_put:
  assumes "\<And>r s'. mmio_at init (trace s') = put_bars cfg bs (mmio_at init (trace s)) \<Longrightarrow> Q r s'"
  shows "wp (restore_bars K cfg bs r) Q s"
  using assms
proof (induction bs arbitrary: r s)
  case (Cons b bs)
  show ?case
    unfolding restore_bars.simps
    by (intro wp_bind wp_do_call wp_u32_call Cons.IH Cons.prems) (simp add: mmio_at_write fun_upd_def del: mmio_at.simps)
qed (simp add: wp_return)

text \<open>What the last writes of \<open>scan_restore\<close> leave, over whatever the controls have left.\<close>

definition put_header :: "scan_header \<Rightarrow> (u64 \<Rightarrow> u32) \<Rightarrow> u64 \<Rightarrow> u32" where
  "put_header h m = put_half (RC_CFG + 0x3e) (ucast (sh_control h))
     ((put_bars EP_CFG (zip ep_bar_offsets (sh_ep_bars h)) (put_bars RC_CFG (zip rc_bar_offsets (sh_rc_bars h))
        (put_half (RC_CFG + 4) (ucast (sh_rc_command h)) (put_half (EP_CFG + 4) (ucast (sh_ep_command h)) m))))
      (RC_CFG + 0x38 := sh_rc_rom h, EP_CFG + 0x30 := sh_ep_rom h, RC_CFG + 0x18 := sh_bus_numbers h))"

lemma put_header_same:
  assumes "header_at init t h"
  shows "list_all (\<lambda>a. put_header h m a = mmio_at init t a) header_regs"
  using assms
  by (simp add: put_header_def header_at_def header_regs_def rc_bar_offsets_def ep_bar_offsets_def put_half_def)

lemma wp_scan_restore_header:
  assumes "header_at init t h" and "\<And>r s'. same_header init t (trace s') \<Longrightarrow> Q r s'"
  shows "wp (scan_restore K RC_CFG EP_CFG h r) Q s"
proof -
  have controls: "wp (restore_controls K rc ep cs r) R s" if "\<And>r s'. R r s'" for rc ep cs r R s
    by (rule wp_any) (rule that)
  have compare: "wp (header_restored K rc ep h) R u" if "\<And>r s'. mmio_at init (trace s') = mmio_at init (trace u) \<Longrightarrow> R r s'" for rc ep h R u
    unfolding header_restored_def
    by (rule wp_no_mmio_write [where init = init]) (auto intro!: emits_rules that simp: mmio_write_def)
  have put: "same_header init t u" if "\<exists>m. mmio_at init u = put_header h m" for u
    using put_header_same [OF assms(1)] that by (auto simp: same_header_def)
  show ?thesis
    unfolding scan_restore_def get_scan_def
    by (intro controls compare wp_restore_bars_put [where init = init] wp_rules assms(2) put) (auto simp: put_header_def mmio_at_write simp del: mmio_at.simps)
qed

section \<open>The rest of the scan\<close>

lemma same_header_call [simp]:
  "\<not> mmio_write (Call c r) \<Longrightarrow> same_header init t (Call c r # u) = same_header init t u"
  unfolding same_header_def by (simp add: mmio_at_no_write del: mmio_at.simps)

lemma same_header_refl: "same_header init t t"
  by (simp add: same_header_def list_all_iff)

lemma wp_same_header:
  assumes "emits (\<lambda>e. \<not> mmio_write e) m" and "same_header init t (trace s)"
    and "\<And>r (s' :: machine). same_header init t (trace s') \<Longrightarrow> Q r s'"
  shows "wp m Q s"
  by (rule wp_no_mmio_write [OF assms(1), where init = init], rule assms(3)) (use assms(2) in \<open>simp add: same_header_def\<close>)

lemma wp_scan_with_bridge_header:
  assumes "header_at init t h" and "same_header init t (trace s)"
    and "\<And>r s'. same_header init t (trace s') \<Longrightarrow> Q r s'"
  shows "wp (scan_with_bridge K hz fuel RC_CFG EP_CFG parent bridge msi_domain assign_memory bind_firmware h) Q s"
proof -
  have enumerate: "wp (scan_enumerate K hz fuel bridge assign_memory bind_firmware) R u" if "\<And>r s'. R r s'" for R u
    by (rule wp_any) (rule that)
  show ?thesis
    unfolding scan_with_bridge_def
    by (intro enumerate wp_scan_restore_header [OF assms(1)] wp_rules assms(3)) (simp_all add: assms(2) mmio_write_def)
qed

lemma wp_scan_with_parent_header:
  assumes "header_at init t h" and "same_header init t (trace s)"
    and "\<And>r s'. same_header init t (trace s') \<Longrightarrow> Q r s'"
  shows "wp (scan_with_parent K hz fuel RC_CFG EP_CFG node msi_domain assign_memory bind_firmware h) Q s"
  unfolding scan_with_parent_def
  by (intro wp_scan_with_bridge_header [OF assms(1)] wp_rules assms(3)) (simp_all add: assms(2) mmio_write_def)

lemma node_operations_no_write:
  "emits (\<lambda>e. \<not> mmio_write e) (add_props K cs node ps)"
  "emits (\<lambda>e. \<not> mmio_write e) (a1625_pci_node_create K dart)"
  "emits (\<lambda>e. \<not> mmio_write e) (a1625_pci_node_remove K st)"
proof -
  show props: "emits (\<lambda>e. \<not> mmio_write e) (add_props K cs node ps)" for cs node ps
    by (induction ps) (auto intro!: emits_rules simp: mmio_write_def)
  show "emits (\<lambda>e. \<not> mmio_write e) (a1625_pci_node_create K dart)"
    unfolding a1625_pci_node_create_def by (intro emits_rules props) (simp_all add: mmio_write_def)
  show "emits (\<lambda>e. \<not> mmio_write e) (a1625_pci_node_remove K st)"
    unfolding a1625_pci_node_remove_def by (intro emits_rules) (simp_all add: mmio_write_def)
qed

lemma save_controls_no_write: "emits (\<lambda>e. \<not> mmio_write e) (a1625_scan_save_controls K)"
  unfolding emits_def
proof (intro allI wp_scan_save_controls)
  fix s s' assume "saves 26 s s'"
  then obtain new where "trace s' = new @ trace s" "list_all register_read new"
    unfolding saves_def by force
  moreover have "register_read e \<Longrightarrow> \<not> mmio_write e" for e
    by (auto simp: register_read_def mmio_write_def split: event.splits call.splits mmio_call.splits)
  ultimately show "\<exists>new. trace s' = new @ trace s \<and> list_all (\<lambda>e. \<not> mmio_write e) new"
    by (auto simp: list_all_iff)
qed

lemma wp_pci_scan_header:
  assumes regs: "register_file init (\<lambda>a. a \<in> set header_regs) K"
    and Q: "\<And>r s'. same_header init (trace s) (trace s') \<Longrightarrow> Q r s'"
  shows "wp (a1625_pci_scan K hz fuel RC_CFG EP_CFG dart msi_domain assign_memory bind_firmware hold_seconds hold_until_signal) Q s"
proof -
  let ?t = "trace s"
  note keep = wp_same_header [where init = init and t = ?t]
  show ?thesis
    unfolding a1625_pci_scan_def
    by (intro wp_upd_scan wp_scan_read_header_file [OF regs] keep [OF node_operations_no_write(2)]
        keep [OF node_operations_no_write(3)] keep [OF save_controls_no_write]
        wp_scan_with_parent_header [where init = init and t = ?t] wp_rules Q) (simp_all add: same_header_def list_all_iff)
qed

section \<open>Properties\<close>



end
