(* ===== verification/RadioPulse.thy ===== *)
theory RadioPulse
  imports Board
begin

text \<open>
  a1625_radio_pulse.h: one bounded power pulse of the Wi-Fi radio. The PMU register \<open>0x406\<close>
  (WL_REG_ON) powers the radio, the GPIO register \<open>4 * 77\<close> holds PERST, \<open>4 * 41\<close> is CLKREQ and
  \<open>4 * 63\<close> device-wake. The stage checks the exact baseline, takes PERST, drives it low, powers
  the radio, lets an observer run, and rolls everything back.
\<close>

section \<open>Model\<close>

definition read_equal :: "kernel \<Rightarrow> ptr \<Rightarrow> u32 \<Rightarrow> u32 \<Rightarrow> int prog" where
  "read_equal K m reg expected = do {
     (r, value) \<leftarrow> regmap_read_bypassed K m reg;
     if r \<noteq> 0 then return r
     else if value \<noteq> expected then return (- EIO)
     else return 0
   }"


type_synonym observer = "u64 \<Rightarrow> ptr \<Rightarrow> ptr \<Rightarrow> int prog"

text \<open>
  From the first write to the \<open>restore\<close> label: PERST low, radio on, 100 ms, observer. The result
  is the status and whether the power register was touched.
\<close>

definition radio_power_stage ::
  "kernel \<Rightarrow> ptr \<Rightarrow> ptr \<Rightarrow> ptr \<Rightarrow> observer option \<Rightarrow> u64 \<Rightarrow> (int \<times> bool) prog" where
  "radio_power_stage K gpio_map pmu_map reset observe context = do {
     r \<leftarrow> gpiod_direction_output_raw K reset 0;
     if r \<noteq> 0 then return (r, False) else do {
     r \<leftarrow> read_equal K gpio_map PIN_PERST 0x76202;
     if r \<noteq> 0 then return (r, False) else do {
     r \<leftarrow> regmap_write K pmu_map PMU_WL_REG_ON 0x02;
     if r \<noteq> 0 then return (r, True) else do {
     r \<leftarrow> read_equal K pmu_map PMU_WL_REG_ON 0x02;
     if r \<noteq> 0 then return (r, True) else do {
     msleep K 100;
     r \<leftarrow> read_equal K gpio_map PIN_PERST 0x76202;
     if r \<noteq> 0 then return (r, True) else do {
     (r, clkreq) \<leftarrow> regmap_read_bypassed K gpio_map PIN_CLKREQ;
     if r \<noteq> 0 then return (r, True) else
     case observe of
       None \<Rightarrow> return (r, True)
     | Some f \<Rightarrow> do { r \<leftarrow> f context reset gpio_map; return (r, True) }
     }}}}}
   }"

text \<open>The \<open>restore\<close> label: power off first; PERST's configuration only once power-off is verified.\<close>

definition radio_restore ::
  "kernel \<Rightarrow> ptr \<Rightarrow> ptr \<Rightarrow> u32 \<Rightarrow> u32 \<Rightarrow> bool \<Rightarrow> int \<Rightarrow> int prog" where
  "radio_restore K gpio_map pmu_map reset_saved pmu_saved power_touched r0 = do {
     (r, safe_to_restore_reset) \<leftarrow>
       (if power_touched then do {
          rollback \<leftarrow> regmap_write K pmu_map PMU_WL_REG_ON pmu_saved;
          rollback \<leftarrow> (if rollback = 0 then read_equal K pmu_map PMU_WL_REG_ON pmu_saved
                      else return rollback);
          if rollback \<noteq> 0 then return (rollback, False)
          else do { msleep K 100; return (r0, True) }
        } else return (r0, True));
     if safe_to_restore_reset then do {
       rollback \<leftarrow> regmap_write K gpio_map PIN_PERST reset_saved;
       rollback \<leftarrow> (if rollback = 0 then read_equal K gpio_map PIN_PERST reset_saved
                   else return rollback);
       if rollback \<noteq> 0 then return rollback else return r
     } else return r
   }"

text \<open>\<open>!gpio_dev->dev.driver || !pmu->dev.driver || pmu->addr != 0x74\<close>, negated.\<close>

definition radio_devices_bound :: "kernel \<Rightarrow> ptr \<Rightarrow> ptr \<Rightarrow> bool prog" where
  "radio_devices_bound K gpio_dev pmu = do {
     gpio_bound \<leftarrow> dev_driver K gpio_dev;
     if \<not> gpio_bound then return False else do {
     pmu_bound \<leftarrow> dev_driver K pmu;
     if \<not> pmu_bound then return False else do {
     a \<leftarrow> i2c_client_addr K pmu;
     return (a = 0x74)
     }}
   }"

text \<open>
  With both device locks held (up to the \<open>out\<close> label): the baseline, the acquisition of the reset
  line, and the powered stage with its restoration.
\<close>

definition radio_pulse_locked ::
  "kernel \<Rightarrow> ptr \<Rightarrow> ptr \<Rightarrow> bool \<Rightarrow> observer option \<Rightarrow> u64 \<Rightarrow> int prog" where
  "radio_pulse_locked K gpio_dev pmu pulse observe context = do {
     pmu_ok \<leftarrow> radio_devices_bound K gpio_dev pmu;
     if \<not> pmu_ok then return (- ENODEV) else do {
     gpio_map \<leftarrow> dev_get_regmap K gpio_dev;
     pmu_map \<leftarrow> dev_get_regmap K pmu;
     if gpio_map = 0 \<or> pmu_map = 0 then return (- ENODEV) else do {
     (r, reset_saved) \<leftarrow> regmap_read K gpio_map PIN_PERST;
     if r \<noteq> 0 then return r else do {
     (r, pmu_saved) \<leftarrow> regmap_read K pmu_map PMU_WL_REG_ON;
     if r \<noteq> 0 then return r else
     if reset_saved \<noteq> 0x76200 \<or> pmu_saved \<noteq> 0 then return (- EBUSY) else do {
     r \<leftarrow> read_equal K gpio_map PIN_PERST reset_saved;
     if r \<noteq> 0 then return r else do {
     r \<leftarrow> read_equal K gpio_map PIN_CLKREQ 0x76221;
     if r \<noteq> 0 then return r else do {
     r \<leftarrow> read_equal K gpio_map PIN_DEVICE_WAKE 0x72202;
     if r \<noteq> 0 then return r else
     if \<not> pulse then return r else do {
     do_call K (Gpio (GpiodAddLookupTable pmu gpio_dev));
     reset \<leftarrow> gpiod_get K pmu ''a1625-research-reset'';
     do_call K (Gpio GpiodRemoveLookupTable);
     if IS_ERR reset then return (PTR_ERR reset) else do {
     (r, power_touched) \<leftarrow> radio_power_stage K gpio_map pmu_map reset observe context;
     r \<leftarrow> radio_restore K gpio_map pmu_map reset_saved pmu_saved power_touched r;
     pwhen (reset \<noteq> 0) (gpiod_put K reset);
     return r
     }}}}}}}}
   }"

definition a1625_radio_pulse :: "kernel \<Rightarrow> bool \<Rightarrow> observer option \<Rightarrow> u64 \<Rightarrow> int prog" where
  "a1625_radio_pulse K pulse observe context = do {
     board \<leftarrow> is_j42d_t7000 K;
     if \<not> board then return (- ENODEV) else do {
     node \<leftarrow> of_find_node_by_path K ''/soc/pinctrl@20e300000'';
     if node = 0 then return (- ENODEV) else do {
     ok \<leftarrow> of_device_is_compatible K node ''apple,t7000-pinctrl'';
     if \<not> ok then do { of_node_put K node; return (- ENODEV) } else do {
     gpio_dev \<leftarrow> of_find_device_by_node K node;
     of_node_put K node;
     if gpio_dev = 0 then return (- ENODEV) else do {
     node \<leftarrow> of_find_node_by_path K ''/soc/i2c@20a110000/pmic@74'';
     if node = 0 then do { put_device K gpio_dev; return (- ENODEV) } else do {
     ok \<leftarrow> of_device_is_compatible K node ''apple,i2c-pmic'';
     if \<not> ok then do { of_node_put K node; put_device K gpio_dev; return (- ENODEV) } else do {
     pmu \<leftarrow> of_find_i2c_device_by_node K node;
     of_node_put K node;
     if pmu = 0 then do { put_device K gpio_dev; return (- ENODEV) } else do {
     device_lock K gpio_dev;
     device_lock K pmu;
     r \<leftarrow> radio_pulse_locked K gpio_dev pmu pulse observe context;
     device_unlock K pmu;
     device_unlock K gpio_dev;
     put_device K pmu;
     put_device K gpio_dev;
     return r
     }}}}}}}
   }"

section \<open>Symbolic execution of the parts\<close>

lemma wp_read_equal [wp_rules]:
  assumes "\<And>r rc. (rc = 0 \<longleftrightarrow> r_ret r = 0 \<and> ucast (r_val r) = e)
    \<Longrightarrow> Q rc (s\<lparr>trace := Call (Regmap (RegmapReadBypassed m reg)) r # trace s\<rparr>)"
  shows "wp (read_equal K m reg e) Q s"
  unfolding read_equal_def using assms by (intro wp_rules) simp_all

lemma read_equal_emits [emits_rules]:
  "(\<And>r. P (Call (Regmap (RegmapReadBypassed m reg)) r)) \<Longrightarrow> emits P (read_equal K m reg e)"
  unfolding read_equal_def by (intro emits_rules)

lemma radio_devices_bound_emits [emits_rules]:
  "(\<And>d r. P (Call (Dev (DevDriver d)) r)) \<Longrightarrow> (\<And>d r. P (Call (Dev (I2cClientAddr d)) r))
   \<Longrightarrow> emits P (radio_devices_bound K gd pmu)"
  unfolding radio_devices_bound_def by (intro emits_rules)

section \<open>Nothing leaks\<close>

lemma radio_restore_neutral: "emits neutral (radio_restore K gm pm rs ps touched r0)"
  unfolding radio_restore_def by (intro emits_rules) (simp_all add: neutral_def)

lemma radio_power_stage_keeps:
  assumes "\<And>a. keeps x (client3 obs a)"
  shows "keeps x (radio_power_stage K g p reset obs ctx)"
proof (cases obs)
  case None
  show ?thesis
    unfolding radio_power_stage_def None option.case
    by (intro keepsI wp_rules) simp_all
next
  case (Some f)
  have f: "\<And>c r m. keeps x (f c r m)"
    using assms unfolding Some by (rule client3_keeps)
  show ?thesis
    unfolding radio_power_stage_def Some option.case
    by (intro keepsI wp_rules wp_keeps [OF f]) simp_all
qed

lemma radio_pulse_locked_keeps:
  assumes "\<And>a. keeps x (client3 obs a)"
  shows "keeps x (radio_pulse_locked K gd pmu pulse obs ctx)"
proof -
  have devs: "emits neutral (radio_devices_bound K gd pmu)"
    by (intro emits_rules) (simp_all add: neutral_def)
  show ?thesis
    unfolding radio_pulse_locked_def
    by (intro keepsI wp_rules wp_neutral [OF devs] wp_neutral [OF radio_restore_neutral]
        wp_keeps [OF radio_power_stage_keeps [OF assms]]) (simp_all add: unless_null_def)
qed

lemma a1625_radio_pulse_keeps:
  assumes "\<And>a. keeps x (client3 obs a)"
  shows "keeps x (a1625_radio_pulse K pulse obs ctx)"
  unfolding a1625_radio_pulse_def
  by (intro keepsI wp_neutral [OF is_j42d_t7000_neutral] wp_keeps [OF radio_pulse_locked_keeps [OF assms]] wp_rules)
    (simp_all add: unless_null_def)

interpretation radio: lifetime "\<lambda>obs. a1625_radio_pulse K pulse obs ctx" client3 "\<lambda>_. False" for K pulse ctx
  by unfold_locales (rule a1625_radio_pulse_keeps)

section \<open>The power sequence\<close>

text \<open>
  Whether the radio may be powered, as far as a trace tells: any write to the power register
  leaves it open, a successful read decides it.
\<close>

fun radio_maybe_on :: "event list \<Rightarrow> bool" where
  "radio_maybe_on [] = False"
| "radio_maybe_on (e # t) =
     (case e of
        Call (Regmap (RegmapWrite m p v)) _ \<Rightarrow> if p = PMU_WL_REG_ON then True else radio_maybe_on t
      | Call (Regmap (RegmapReadBypassed m p)) r \<Rightarrow>
          if p = PMU_WL_REG_ON \<and> r_ret r = 0 then (ucast (r_val r) :: u32) \<noteq> 0 else radio_maybe_on t
      | Call (Regmap (RegmapRead m p)) r \<Rightarrow>
          if p = PMU_WL_REG_ON \<and> r_ret r = 0 then (ucast (r_val r) :: u32) \<noteq> 0 else radio_maybe_on t
      | _ \<Rightarrow> radio_maybe_on t)"

text \<open>
  The discipline: power is applied only while PERST is known to be driven low (\<open>0x76202\<close> read
  back from the pin and not touched since), and PERST's saved configuration is written back only
  when the radio is known to be off.
\<close>

fun radio_safe :: "event list \<Rightarrow> bool" where
  "radio_safe [] = True"
| "radio_safe (e # t) =
     (radio_safe t \<and>
      (case e of
         Call (Regmap (RegmapWrite m p v)) _ \<Rightarrow>
           (p = PMU_WL_REG_ON \<and> v \<noteq> 0 \<longrightarrow> known_reg PIN_PERST t = Some 0x76202) \<and>
           (p = PIN_PERST \<longrightarrow> \<not> radio_maybe_on t)
       | _ \<Rightarrow> True))"

text \<open>What an observer must leave to the stage, and what other code never touches.\<close>

definition writes_radio :: "event \<Rightarrow> bool" where
  "writes_radio e \<longleftrightarrow> (case e of Call (Regmap (RegmapWrite m p v)) _ \<Rightarrow> p = PMU_WL_REG_ON \<or> p = PIN_PERST | _ \<Rightarrow> False)"

definition radio_event :: "event \<Rightarrow> bool" where
  "radio_event e \<longleftrightarrow> (case e of Call (Regmap _) _ \<Rightarrow> True | Call (Gpio _) _ \<Rightarrow> True | _ \<Rightarrow> False)"

lemma radio_safe_append: "list_all (\<lambda>e. \<not> writes_radio e) new \<Longrightarrow> radio_safe (new @ t) = radio_safe t"
proof (induction new)
  case (Cons e new)
  then show ?case
    by (auto simp: writes_radio_def split: event.splits call.splits regmap_call.splits)
qed simp

lemma radio_frame:
  assumes "list_all (\<lambda>e. \<not> radio_event e) new"
  shows "radio_safe (new @ t) = radio_safe t \<and> radio_maybe_on (new @ t) = radio_maybe_on t
    \<and> known_reg q (new @ t) = known_reg q t"
  using assms
proof (induction new)
  case (Cons e new)
  then show ?case
    by (auto simp: radio_event_def split: event.splits call.splits)
qed simp

lemma wp_radio_frame:
  assumes "emits (\<lambda>e. \<not> radio_event e) m"
    and "\<And>r (s' :: machine). radio_safe (trace s') = radio_safe (trace s)
      \<Longrightarrow> radio_maybe_on (trace s') = radio_maybe_on (trace s)
      \<Longrightarrow> (\<And>q. known_reg q (trace s') = known_reg q (trace s)) \<Longrightarrow> Q r s'"
  shows "wp m Q s"
  by (rule wp_frame [OF assms(1)]) (use radio_frame in \<open>auto intro!: assms(2)\<close>)

lemma wp_quiet_observer:
  assumes "emits (\<lambda>e. \<not> writes_radio e) m"
    and "\<And>r (s' :: machine). radio_safe (trace s') = radio_safe (trace s) \<Longrightarrow> Q r s'"
  shows "wp m Q s"
  by (rule wp_frame [OF assms(1)]) (auto simp: radio_safe_append intro!: assms(2))

definition quiet_observer :: "observer option \<Rightarrow> bool" where
  "quiet_observer obs \<longleftrightarrow> (\<forall>f. obs = Some f \<longrightarrow> (\<forall>c r m. emits (\<lambda>e. \<not> writes_radio e) (f c r m)))"

lemma wp_radio_restore_safe:
  assumes "ps = 0" "radio_safe (trace s)" "touched \<or> \<not> radio_maybe_on (trace s)"
    and "\<And>r s'. radio_safe (trace s') \<Longrightarrow> Q r s'"
  shows "wp (radio_restore K gm pm rs ps touched r0) Q s"
  unfolding radio_restore_def using assms(1-3)
  by (intro wp_rules assms(4)) simp_all

lemma wp_radio_power_stage_safe:
  assumes "quiet_observer obs" "radio_safe (trace s)" "\<not> radio_maybe_on (trace s)"
    and "\<And>r touched s'. radio_safe (trace s') \<Longrightarrow> touched \<or> \<not> radio_maybe_on (trace s') \<Longrightarrow> Q (r, touched) s'"
  shows "wp (radio_power_stage K g p reset obs ctx) Q s"
proof (cases obs)
  case None
  show ?thesis
    unfolding radio_power_stage_def None option.case using assms(2,3)
    by (intro wp_rules assms(4)) simp_all
next
  case (Some f)
  with assms(1) have f: "\<And>c r m. emits (\<lambda>e. \<not> writes_radio e) (f c r m)"
    by (simp add: quiet_observer_def)
  show ?thesis
    unfolding radio_power_stage_def Some option.case using assms(2,3)
    by (intro wp_rules wp_quiet_observer [OF f] assms(4)) simp_all
qed

lemma wp_radio_pulse_locked_safe:
  assumes "quiet_observer obs" "radio_safe (trace s)" and "\<And>r s'. radio_safe (trace s') \<Longrightarrow> Q r s'"
  shows "wp (radio_pulse_locked K gd pmu pulse obs ctx) Q s"
proof -
  have devs: "emits (\<lambda>e. \<not> radio_event e) (radio_devices_bound K gd pmu)"
    by (intro emits_rules) (simp_all add: radio_event_def)
  show ?thesis
    unfolding radio_pulse_locked_def using assms(2)
    by (intro wp_rules wp_radio_frame [OF devs] wp_radio_power_stage_safe [OF assms(1)]
        wp_radio_restore_safe assms(3)) simp_all
qed

lemma wp_radio_pulse_safe:
  assumes "quiet_observer obs" "radio_safe (trace s)" and "\<And>r s'. radio_safe (trace s') \<Longrightarrow> Q r s'"
  shows "wp (a1625_radio_pulse K pulse obs ctx) Q s"
proof -
  have board: "emits (\<lambda>e. \<not> radio_event e) (is_j42d_t7000 K)"
    by (intro emits_rules) (simp_all add: radio_event_def)
  show ?thesis
    unfolding a1625_radio_pulse_def using assms(2)
    by (intro wp_radio_frame [OF board] wp_radio_pulse_locked_safe [OF assms(1)] wp_rules assms(3)) simp_all
qed

section \<open>Properties\<close>

lemma wp_radio_restore_done:
  assumes "\<And>r s'. (r = 0 \<Longrightarrow> r0 = 0 \<and> known_reg PIN_PERST (trace s') = Some rs \<and>
      (touched \<longrightarrow> known_reg PMU_WL_REG_ON (trace s') = Some ps)) \<Longrightarrow> Q r s'"
  shows "wp (radio_restore K gm pm rs ps touched r0) Q s"
  unfolding radio_restore_def
  by (intro wp_rules assms) auto

lemma wp_radio_power_stage_touched:
  assumes "\<And>r touched s'. (r = 0 \<Longrightarrow> touched) \<Longrightarrow> Q (r, touched) s'"
  shows "wp (radio_power_stage K g p reset obs ctx) Q s"
proof (cases obs)
  case None
  show ?thesis
    unfolding radio_power_stage_def None option.case by (intro wp_rules assms) simp_all
next
  case (Some f)
  have f: "wp (f ctx reset g) R t" if "\<And>r t'. R r t'" for R t
    by (rule wp_any) (rule that)
  show ?thesis
    unfolding radio_power_stage_def Some option.case by (intro wp_rules f assms) simp_all
qed

definition radio_restored :: "event list \<Rightarrow> bool" where
  "radio_restored t \<longleftrightarrow> known_reg PIN_PERST t = Some 0x76200 \<and> known_reg PMU_WL_REG_ON t = Some 0"

definition radio_baseline :: "event list \<Rightarrow> bool" where
  "radio_baseline t \<longleftrightarrow> known_reg PIN_PERST t = Some 0x76200 \<and> known_reg PIN_CLKREQ t = Some 0x76221 \<and>
     known_reg PIN_DEVICE_WAKE t = Some 0x72202"

lemma wp_radio_pulse_locked_done:
  assumes "\<And>r s'. (r = 0 \<Longrightarrow> (if pulse then radio_restored (trace s') else radio_baseline (trace s'))) \<Longrightarrow> Q r s'"
  shows "wp (radio_pulse_locked K gd pmu pulse obs ctx) Q s"
proof -
  have devs: "emits (\<lambda>e. \<not> radio_event e) (radio_devices_bound K gd pmu)"
    by (intro emits_rules) (simp_all add: radio_event_def)
  show ?thesis
    unfolding radio_pulse_locked_def
    by (intro wp_rules wp_radio_frame [OF devs] wp_radio_power_stage_touched
        wp_radio_restore_done assms) (auto simp: radio_restored_def radio_baseline_def PTR_ERR_nonzero)
qed

lemma wp_radio_pulse_done:
  assumes "\<And>r s'. (r = 0 \<Longrightarrow> (if pulse then radio_restored (trace s') else radio_baseline (trace s'))) \<Longrightarrow> Q r s'"
  shows "wp (a1625_radio_pulse K pulse obs ctx) Q s"
proof -
  have board: "emits (\<lambda>e. \<not> radio_event e) (is_j42d_t7000 K)"
    by (intro emits_rules) (simp_all add: radio_event_def)
  show ?thesis
    unfolding a1625_radio_pulse_def
    by (intro wp_radio_frame [OF board] wp_radio_pulse_locked_done wp_rules assms)
      (simp_all add: radio_restored_def radio_baseline_def split: if_splits)
qed

text \<open>
  C9. After a power pulse that reports success, whatever the observer did and whatever the hardware
  answered, the PMU register has been read back as 0 and the PERST pin as its original
  configuration \<open>0x76200\<close>, and neither was touched again.
\<close>

theorem radio_pulse_success_restores:
  assumes "run_state (a1625_radio_pulse K True obs ctx) s = (0, s')"
  shows "radio_restored (trace s')"
proof -
  have "wp (a1625_radio_pulse K True obs ctx) (\<lambda>r s'. r = 0 \<longrightarrow> radio_restored (trace s')) s"
    by (rule wp_radio_pulse_done) simp
  from wp_run [OF this assms] show ?thesis by simp
qed

lemmas radio_pulse_run = a1625_radio_pulse_def radio_pulse_locked_def radio_devices_bound_def
  radio_power_stage_def radio_restore_def read_equal_def

theorem radio_pulse_success_restores_witness:
  "radio_restored (trace (snd (run_state (a1625_radio_pulse board True None 0) boot)))"
  by (rule radio_pulse_success_restores [OF run_split]) (simp add: radio_pulse_run run_simps)

text \<open>
  The power sequence is safe for every observer that leaves the power and reset registers to
  the stage: power is applied only while PERST is known to be driven low, and PERST's
  configuration is handed back only when the radio is known to be off. Both hold on every path,
  including every failure of the rollback itself, because they hold at every event of the trace.
\<close>

theorem radio_pulse_power_sequence:
  assumes "run_state (a1625_radio_pulse K pulse obs ctx) s = (r, s')"
    and "quiet_observer obs" and "radio_safe (trace s)"
  shows "radio_safe (trace s')"
  by (rule wp_run [OF wp_radio_pulse_safe [OF assms(2,3)] assms(1)])

theorem radio_pulse_power_sequence_witness:
  "radio_safe (trace (snd (run_state (a1625_radio_pulse board True None 0) boot)))"
  by (rule radio_pulse_power_sequence [OF run_split [OF refl]]) (simp_all add: quiet_observer_def)

text \<open>
  Without \<open>pulse\<close> the stage only looks: no event of it changes hardware or kernel state, and
  success means the exact baseline of all three pins has been read back.
\<close>

lemma radio_stage_dry: "emits read_only (a1625_radio_pulse K False obs ctx)"
  unfolding a1625_radio_pulse_def radio_pulse_locked_def
  by (intro emits_rules) simp_all

theorem radio_pulse_dry_run:
  assumes "run_state (a1625_radio_pulse K False obs ctx) s = (r, s')"
  shows "(\<exists>new. trace s' = new @ trace s \<and> list_all read_only new) \<and>
    (r = 0 \<longrightarrow> radio_baseline (trace s'))"
proof
  show "\<exists>new. trace s' = new @ trace s \<and> list_all read_only new"
    by (rule wp_run [OF emits_wp [OF radio_stage_dry] assms])
  have "wp (a1625_radio_pulse K False obs ctx) (\<lambda>r s'. r = 0 \<longrightarrow> radio_baseline (trace s')) s"
    by (rule wp_radio_pulse_done) simp
  from wp_run [OF this assms] show "r = 0 \<longrightarrow> radio_baseline (trace s')" .
qed

theorem radio_pulse_dry_run_witness:
  "radio_baseline (trace (snd (run_state (a1625_radio_pulse board False None 0) boot)))"
proof -
  have "fst (run_state (a1625_radio_pulse board False None 0) boot) = 0"
    by (simp add: radio_pulse_run run_simps)
  from radio_pulse_dry_run [OF run_split [OF this]] show ?thesis by simp
qed

end
