(* ===== verification/DartLifetime.thy ===== *)
theory DartLifetime
  imports DeviceTree
begin

text \<open>
  a1625_dart_lifetime.h: a bounded lifetime of the real DART (IOMMU) driver. A device-tree node is
  built in a changeset and applied with automatic population suppressed, one platform device is
  created for it, a callback runs while the driver is bound, and everything is taken back in
  reverse order.
\<close>

section \<open>Model\<close>

abbreviation DART_PHANDLE :: u32 where "DART_PHANDLE \<equiv> 0xa1625001"

text \<open>The properties of the node before the optional \<open>phandle\<close>.\<close>

definition dart_props :: "u32 \<Rightarrow> bool \<Rightarrow> (string \<times> prop_value) list" where
  "dart_props aic_phandle test_dma_range =
     [(''compatible'', PropStrings [''apple,t7000-dart'', ''apple,s5l8960x-dart'']),
      (''reg'', PropU32s [6, 0x02002000, 0, 0x2000]),
      (''interrupt-parent'', PropU32 aic_phandle),
      (''interrupts'', PropU32s [0, 216, 4]),
      (''#iommu-cells'', PropU32 1)] @
     (if test_dma_range then [(''apple,dma-range'', PropU32s [0, 0x80000000, 0, 0x40000000])] else [])"

text \<open>\<open>if (!ret && operate)\<close>: the phandle must be unused.\<close>

definition add_phandle :: "kernel \<Rightarrow> ptr \<Rightarrow> int prog" where
  "add_phandle K node = do {
     existing \<leftarrow> of_find_node_by_phandle K DART_PHANDLE;
     if existing \<noteq> 0 then do { of_node_put K existing; return (- EBUSY) }
     else of_changeset_add_prop K DartChanges node ''phandle'' (PropU32 DART_PHANDLE)
   }"

text \<open>From \<open>of_platform_device_create\<close> to \<open>platform_device_unregister\<close>.\<close>

definition dart_device ::
  "kernel \<Rightarrow> (ptr \<Rightarrow> u64 \<Rightarrow> int prog) option \<Rightarrow> u64 \<Rightarrow> ptr \<Rightarrow> int prog" where
  "dart_device K operate context node = do {
     pdev \<leftarrow> val_call K (Of (OfPlatformDeviceCreate node ''a1625-dart-lifetime''));
     if pdev = 0 then return (- ENODEV) else do {
     device_lock K pdev;
     bound \<leftarrow> dev_driver K pdev;
     r \<leftarrow> (if bound then do {
             apple \<leftarrow> bool_call K (Dev (DevDriverNameIs pdev ''apple-dart''));
             return (if apple then 0 else - ENODEV)
           } else return (- ENODEV));
     device_unlock K pdev;
     r \<leftarrow> (if r = 0 then
             case operate of
               None \<Rightarrow> return r
             | Some f \<Rightarrow> f pdev context
           else return r);
     platform_device_unregister K pdev;
     return r
     }
   }"

text \<open>\<open>of_address_to_resource\<close> must give exactly the two DART pages.\<close>

definition dart_resource :: "kernel \<Rightarrow> ptr \<Rightarrow> int prog" where
  "dart_resource K node = do {
     r \<leftarrow> int_call K (Of (OfAddressToResource node));
     if r \<noteq> 0 then return r else do {
     start \<leftarrow> val_call K (Of (ResourceStart node));
     size \<leftarrow> val_call K (Of (ResourceSize node));
     return (if start \<noteq> 0x602002000 \<or> size \<noteq> 0x2000 then - EINVAL else 0)
     }
   }"

text \<open>With the new node in hand, up to the \<open>destroy\<close> label.\<close>

definition dart_node ::
  "kernel \<Rightarrow> (ptr \<Rightarrow> u64 \<Rightarrow> int prog) option \<Rightarrow> u64 \<Rightarrow> bool \<Rightarrow> u32 \<Rightarrow> ptr \<Rightarrow> int prog" where
  "dart_node K operate context test_dma_range aic_phandle node = do {
     r \<leftarrow> add_props K DartChanges node (dart_props aic_phandle test_dma_range);
     r \<leftarrow> (if r = 0 \<and> operate \<noteq> None then add_phandle K node else return r);
     if r \<noteq> 0 then return r else do {
     pwhen (operate \<noteq> None) (do_call K (Cs (ChangesetAttachLast DartChanges)));
     set_populated K node;
     r \<leftarrow> of_changeset_apply K DartChanges;
     (r, applied) \<leftarrow>
       (if r \<noteq> 0 then return (r, False) else do {
          r \<leftarrow> dart_resource K node;
          if r \<noteq> 0 then return (r, True) else do {
          clear_populated K node;
          r \<leftarrow> dart_device K operate context node;
          return (r, True)
          }
        });
     set_populated K node;
     remove_node K DartChanges node applied r
     }
   }"

text \<open>The life of the changeset and of the node reference.\<close>

definition dart_changeset ::
  "kernel \<Rightarrow> (ptr \<Rightarrow> u64 \<Rightarrow> int prog) option \<Rightarrow> u64 \<Rightarrow> bool \<Rightarrow> u32 \<Rightarrow> ptr \<Rightarrow> int prog" where
  "dart_changeset K operate context test_dma_range aic_phandle soc = do {
     of_changeset_init K DartChanges;
     node \<leftarrow> of_changeset_create_node K DartChanges soc ''iommu@602002000'';
     r \<leftarrow> (if node = 0 then return (- ENOMEM)
           else dart_node K operate context test_dma_range aic_phandle node);
     of_changeset_destroy K DartChanges;
     of_node_put K node;
     return r
   }"

definition a1625_with_dart :: "kernel \<Rightarrow> (ptr \<Rightarrow> u64 \<Rightarrow> int prog) option \<Rightarrow> u64 \<Rightarrow> bool \<Rightarrow> int prog" where
  "a1625_with_dart K operate context test_dma_range = do {
     board \<leftarrow> is_j42d_t7000 K;
     if \<not> board then return (- ENODEV) else do {
     existing \<leftarrow> of_find_node_by_path K ''/soc/iommu@602002000'';
     if existing \<noteq> 0 then do { of_node_put K existing; return (- EBUSY) } else do {
     soc \<leftarrow> of_find_node_by_path K ''/soc'';
     aic \<leftarrow> of_find_node_by_path K ''/soc/interrupt-controller@20e100000'';
     aic_phandle \<leftarrow> (if soc = 0 \<or> aic = 0 then return 0 else node_phandle K aic);
     usable \<leftarrow> (if aic_phandle = 0 then return False else of_device_is_compatible K aic ''apple,aic'');
     r \<leftarrow> (if \<not> usable then return (- ENODEV)
           else dart_changeset K operate context test_dma_range aic_phandle soc);
     of_node_put K aic;
     of_node_put K soc;
     return r
     }}
   }"

section \<open>Nothing leaks\<close>

lemma remove_node_keeps:
  "wp (remove_node K cs n applied r0) (\<lambda>_ s'. held (trace s') x = held (trace s) x - (if applied then unit_at (Some (ChangesetApplied cs)) x else 0)) s"
  unfolding remove_node_def by (intro wp_rules) simp_all

lemma dart_device_keeps:
  assumes "\<And>a. keeps x (client2 operate a)"
  shows "keeps x (dart_device K operate context node)"
proof (cases operate)
  case None
  show ?thesis
    unfolding dart_device_def None option.case
    by (intro keepsI wp_rules) (simp_all add: unless_null_def)
next
  case (Some f)
  have f: "\<And>c a. keeps x (f c a)"
    using assms unfolding Some by (rule client2_keeps)
  show ?thesis
    unfolding dart_device_def Some option.case
    by (intro keepsI wp_rules wp_keeps [OF f]) (simp_all add: unless_null_def)
qed

lemma add_phandle_keeps: "keeps x (add_phandle K node)"
  unfolding add_phandle_def by (intro keepsI wp_rules) (simp_all add: unless_null_def)

lemma dart_resource_neutral: "emits neutral (dart_resource K node)"
  unfolding dart_resource_def by (intro emits_rules) (simp_all add: neutral_def)

lemma dart_node_keeps:
  assumes "\<And>a. keeps x (client2 operate a)"
  shows "keeps x (dart_node K operate context test aic node)"
  unfolding dart_node_def
  by (intro keepsI wp_rules wp_neutral [OF add_props_neutral] wp_keeps [OF add_phandle_keeps [of x]]
      wp_neutral [OF dart_resource_neutral] wp_keeps [OF dart_device_keeps [OF assms]]
      wp_mono [OF remove_node_keeps [of _ _ _ _ _ x]]) (simp_all split: if_splits)

lemma dart_changeset_keeps:
  assumes "\<And>a. keeps x (client2 operate a)"
  shows "keeps x (dart_changeset K operate context test aic soc)"
  unfolding dart_changeset_def
  by (intro keepsI wp_rules wp_keeps [OF dart_node_keeps [OF assms]]) (simp_all add: unless_null_def)

lemma aic_checks_neutral:
  "emits neutral (if soc = 0 \<or> aic = 0 then return 0 else node_phandle K aic)"
  "emits neutral (if ph = 0 then return False else of_device_is_compatible K aic c)"
  by (intro emits_rules, simp add: neutral_def)+

lemma with_dart_keeps:
  assumes "\<And>a. keeps x (client2 operate a)"
  shows "keeps x (a1625_with_dart K operate context test)"
  unfolding a1625_with_dart_def
  by (intro keepsI wp_neutral [OF is_j42d_t7000_neutral] wp_neutral [OF aic_checks_neutral(1)]
      wp_neutral [OF aic_checks_neutral(2)] wp_keeps [OF dart_changeset_keeps [OF assms]] wp_rules)
    (simp_all add: unless_null_def)

interpretation dart: lifetime "\<lambda>operate. a1625_with_dart K operate ctx test_dma_range" client2 "\<lambda>_. False"
  for K ctx test_dma_range
  by unfold_locales (rule with_dart_keeps)

section \<open>Order of the tree changes and of the device\<close>

text \<open>The device created by the stage, if it is still registered.\<close>

fun dart_pdev :: "event list \<Rightarrow> ptr option" where
  "dart_pdev [] = None"
| "dart_pdev (e # t) =
     (case e of
        Call (Of (OfPlatformDeviceCreate n s)) r \<Rightarrow> if r_val r = 0 then dart_pdev t else Some (r_val r)
      | Call (Dev (PlatformDeviceUnregister d)) _ \<Rightarrow> if dart_pdev t = Some d then None else dart_pdev t
      | _ \<Rightarrow> dart_pdev t)"

definition dart_gone :: "event list \<Rightarrow> bool" where
  "dart_gone t \<longleftrightarrow> dart_pdev t = None"

definition dart_event :: "event \<Rightarrow> bool" where
  "dart_event e \<longleftrightarrow> cs_event DartChanges e \<or>
     (case e of Call (Of (OfPlatformDeviceCreate _ _)) _ \<Rightarrow> True | _ \<Rightarrow> False)"

definition dart_client :: "(ptr \<Rightarrow> u64 \<Rightarrow> int prog) option \<Rightarrow> bool" where
  "dart_client operate \<longleftrightarrow> (\<forall>f d c. operate = Some f \<longrightarrow> emits (\<lambda>e. \<not> dart_event e) (f d c))"

lemma dart_pdev_frame:
  "list_all (\<lambda>e. \<not> dart_event e) new \<Longrightarrow> dart_pdev (new @ t) = dart_pdev t \<or> dart_pdev (new @ t) = None"
  by (induction new) (auto simp: dart_event_def split: event.splits call.splits of_call.splits device_call.splits)

text \<open>\<open>dart_tree n d t\<close>: the discipline held so far, the node is \<open>n\<close>, at most \<open>d\<close> is registered.\<close>

definition dart_tree :: "ptr \<Rightarrow> ptr option \<Rightarrow> event list \<Rightarrow> bool" where
  "dart_tree n d t \<longleftrightarrow> tree_guarded DartChanges dart_gone t \<and> cs_node DartChanges t = n \<and>
     (dart_pdev t = d \<or> dart_pdev t = None)"

lemma wp_dart_client:
  assumes "emits (\<lambda>e. \<not> dart_event e) m" "dart_tree n d (trace s)"
    and "\<And>r s'. dart_tree n d (trace s') \<Longrightarrow> Q r s'"
  shows "wp m Q s"
proof (rule wp_frame [OF assms(1)], rule assms(3))
  fix new and s' :: machine
  assume new: "list_all (\<lambda>e. \<not> dart_event e) new" and t: "trace s' = new @ trace s"
  from new have "list_all (\<lambda>e. \<not> cs_event DartChanges e) new"
    by (simp add: list_all_iff dart_event_def)
  from cs_frame [OF this] dart_pdev_frame [OF new, of "trace s"] assms(2)
  show "dart_tree n d (trace s')" unfolding t by (auto simp: dart_tree_def)
qed

lemma wp_dart_device_tree:
  assumes "dart_client operate" "dart_tree n None (trace s)"
    and "\<And>r s'. dart_tree n None (trace s') \<Longrightarrow> Q r s'"
  shows "wp (dart_device K operate context node) Q s"
proof (cases operate)
  case None
  show ?thesis
    unfolding dart_device_def None option.case using assms(2)
    by (intro wp_rules assms(3)) (auto simp: dart_tree_def)
next
  case (Some f)
  have f: "wp (f d c) R t"
    if "dart_tree n (Some d) (trace t)" "\<And>r s'. dart_tree n (Some d) (trace s') \<Longrightarrow> R r s'" for d c R t
    by (rule wp_dart_client [OF _ that(1)]) (use assms(1) Some that(2) in \<open>auto simp: dart_client_def\<close>)
  show ?thesis
    unfolding dart_device_def Some option.case using assms(2)
    by (intro wp_rules f assms(3)) (auto simp: dart_tree_def)
qed


lemma wp_dart_node_tree:
  assumes "dart_client operate" "dart_tree node None (trace s)"
    and "\<And>r s'. dart_tree node None (trace s') \<Longrightarrow> Q r s'"
  shows "wp (dart_node K operate context test aic node) Q s"
proof -
  have props: "wp (add_props K DartChanges node ps) R t"
    if "dart_tree node None (trace t)" "\<And>r s'. dart_tree node None (trace s') \<Longrightarrow> R r s'" for ps R t
    using that
  proof (induction ps arbitrary: t)
    case Nil
    then show ?case by (auto intro!: wp_rules)
  next
    case (Cons p ps)
    from Cons.prems(1) show ?case
      unfolding add_props.simps by (intro wp_rules Cons.IH Cons.prems(2)) (auto simp: dart_tree_def)
  qed
  have phandle: "wp (add_phandle K node) R t"
    if "dart_tree node None (trace t)" "\<And>r s'. dart_tree node None (trace s') \<Longrightarrow> R r s'" for R t
    unfolding add_phandle_def using that by (intro wp_rules that(2)) (simp_all add: dart_tree_def)
  have resource: "emits (\<lambda>e. \<not> dart_event e) (dart_resource K node)"
    unfolding dart_resource_def by (intro emits_rules) (simp_all add: dart_event_def cs_event_def)
  have remove: "wp (remove_node K DartChanges node applied r) R t"
    if "dart_tree node None (trace t)" "populated node (trace t)"
      "\<And>r s'. dart_tree node None (trace s') \<Longrightarrow> R r s'" for applied r R t
    unfolding remove_node_def using that(1,2)
    by (intro wp_rules that(3)) (simp_all add: dart_tree_def dart_gone_def)
  show ?thesis
    unfolding dart_node_def using assms(2)
    by (intro wp_rules props phandle remove wp_dart_client [OF resource, where n = node and d = None] wp_dart_device_tree [OF assms(1)] assms(3))
      (simp_all add: dart_tree_def dart_gone_def)
qed

lemma wp_with_dart_tree:
  assumes op: "dart_client operate" and s: "tree_guarded DartChanges dart_gone (trace s)" "dart_gone (trace s)"
    and Q: "\<And>r s'. tree_guarded DartChanges dart_gone (trace s') \<Longrightarrow> Q r s'"
  shows "wp (a1625_with_dart K operate context test) Q s"
proof -
  let ?I = "\<lambda>t. tree_guarded DartChanges dart_gone t \<and> dart_pdev t = None"
  have frame: "wp m R t" if "emits (\<lambda>e. \<not> dart_event e) m" "?I (trace t)" "\<And>r s'. ?I (trace s') \<Longrightarrow> R r s'"
    for m :: "'b prog" and R t
    by (rule wp_dart_client [OF that(1), of "cs_node DartChanges (trace t)" None])
      (use that(2,3) in \<open>auto simp: dart_tree_def\<close>)
  have reads: "emits (\<lambda>e. \<not> dart_event e) (is_j42d_t7000 K)"
    "emits (\<lambda>e. \<not> dart_event e) (if soc = 0 \<or> aic = 0 then return 0 else node_phandle K aic)"
    "emits (\<lambda>e. \<not> dart_event e) (if ph = 0 then return False else of_device_is_compatible K aic c)" for soc aic ph c
    by (intro emits_rules, simp add: dart_event_def cs_event_def)+
  have node: "wp (dart_node K operate context test aic n) R t"
    if "dart_tree n None (trace t)" "\<And>r s'. ?I (trace s') \<Longrightarrow> R r s'" for n aic R t
    by (rule wp_dart_node_tree [OF op that(1)]) (use that(2) in \<open>auto simp: dart_tree_def\<close>)
  have changeset: "wp (dart_changeset K operate context test aic soc) R t"
    if "?I (trace t)" "\<And>r s'. ?I (trace s') \<Longrightarrow> R r s'" for aic soc R t
    unfolding dart_changeset_def using that(1)
    by (intro wp_rules node that(2)) (simp_all add: dart_tree_def)
  show ?thesis
    unfolding a1625_with_dart_def
    by (intro frame [OF reads(1)] frame [OF reads(2)] frame [OF reads(3)] changeset wp_rules Q)
      (use s in \<open>simp_all add: dart_gone_def\<close>)
qed

section \<open>What is applied\<close>

text \<open>
  The entries of the changeset in the order they take effect. With a callback the node is attached
  last, after its phandle: the kernel caches a phandle at attachment.
\<close>

definition dart_entries :: "bool \<Rightarrow> bool \<Rightarrow> u32 \<Rightarrow> ptr \<Rightarrow> cs_entry list" where
  "dart_entries with_callback test_dma_range aic_phandle n =
     (if with_callback
      then set_props (dart_props aic_phandle test_dma_range @ [(''phandle'', PropU32 DART_PHANDLE)]) @ [AttachNode n]
      else AttachNode n # set_props (dart_props aic_phandle test_dma_range))"

fun dart_queued :: "bool \<Rightarrow> bool \<Rightarrow> event list \<Rightarrow> bool" where
  "dart_queued op test [] = True"
| "dart_queued op test (e # t) =
     (dart_queued op test t \<and>
      (case e of
         Call (Cs (ChangesetApply d)) _ \<Rightarrow> d = DartChanges \<longrightarrow>
           (\<exists>aic_phandle. cs_queue DartChanges t = dart_entries op test aic_phandle (cs_node DartChanges t))
       | _ \<Rightarrow> True))"

definition applies_dart :: "event \<Rightarrow> bool" where
  "applies_dart e \<longleftrightarrow> (case e of Call (Cs (ChangesetApply d)) _ \<Rightarrow> d = DartChanges | _ \<Rightarrow> False)"

lemma dart_queued_frame:
  "list_all (\<lambda>e. \<not> applies_dart e) new \<Longrightarrow> dart_queued op test (new @ t) = dart_queued op test t"
proof (induction new)
  case (Cons e new)
  then have "\<not> applies_dart e" "dart_queued op test (new @ t) = dart_queued op test t" by simp_all
  then show ?case
    by (auto simp: applies_dart_def split: event.splits call.splits changeset_call.splits)
qed simp

lemma wp_no_apply:
  assumes "emits (\<lambda>e. \<not> applies_dart e) m" "dart_queued op test (trace s)"
    and "\<And>r s'. dart_queued op test (trace s') \<Longrightarrow> Q r s'"
  shows "wp m Q s"
  by (rule wp_frame [OF assms(1)]) (use assms(2) in \<open>simp add: dart_queued_frame assms(3)\<close>)

text \<open>
  One program at a time: everything after the application is quiet, so the queue only has to be
  followed up to there.
\<close>

lemma dart_device_quiet:
  assumes "dart_client operate"
  shows "emits (\<lambda>e. \<not> applies_dart e) (dart_device K operate context node)"
proof (cases operate)
  case None
  show ?thesis
    unfolding dart_device_def None option.case by (intro emits_rules) (simp_all add: applies_dart_def)
next
  case (Some f)
  have f: "emits (\<lambda>e. \<not> applies_dart e) (f d c)" for d c
    by (rule emits_mono [of "\<lambda>e. \<not> dart_event e"])
      (use assms Some in \<open>auto simp: dart_client_def applies_dart_def dart_event_def cs_event_def split: event.splits call.splits changeset_call.splits\<close>)
  show ?thesis
    unfolding dart_device_def Some option.case by (intro emits_rules f) (simp_all add: applies_dart_def)
qed

lemma dart_parts_quiet:
  "emits (\<lambda>e. \<not> applies_dart e) (dart_resource K node)"
  "emits (\<lambda>e. \<not> applies_dart e) (remove_node K cs n applied r)"
  "emits (\<lambda>e. \<not> applies_dart e) (is_j42d_t7000 K)"
  "emits (\<lambda>e. \<not> applies_dart e) (if soc = 0 \<or> aic = 0 then return 0 else node_phandle K aic)"
  "emits (\<lambda>e. \<not> applies_dart e) (if ph = 0 then return False else of_device_is_compatible K aic c)"
  unfolding dart_resource_def remove_node_def
  by (intro emits_rules; simp add: applies_dart_def)+

lemma wp_dart_node_queued:
  assumes op: "dart_client operate" and s: "dart_queued (operate \<noteq> None) test (trace s)"
    and node: "cs_node DartChanges (trace s) = node" "cs_queue DartChanges (trace s) = [AttachNode node]"
    and Q: "\<And>r s'. dart_queued (operate \<noteq> None) test (trace s') \<Longrightarrow> Q r s'"
  shows "wp (dart_node K operate context test aic node) Q s"
proof -
  let ?op = "operate \<noteq> None"
  have props: "wp (add_props K DartChanges node ps) R t"
    if "dart_queued ?op test (trace t)" "cs_node DartChanges (trace t) = node"
      "\<And>r s'. (r = 0 \<Longrightarrow> cs_queue DartChanges (trace s') = cs_queue DartChanges (trace t) @ set_props ps)
        \<Longrightarrow> dart_queued ?op test (trace s') \<Longrightarrow> cs_node DartChanges (trace s') = node \<Longrightarrow> R r s'" for ps R t
    using that
  proof (induction ps arbitrary: t)
    case Nil
    then show ?case by (auto intro!: wp_rules simp: set_props_def)
  next
    case (Cons p ps)
    from Cons.prems(1,2) show ?case
      unfolding add_props.simps by (intro wp_rules Cons.IH Cons.prems(3)) (simp_all add: set_props_def)
  qed
  have phandle: "wp (add_phandle K node) R t"
    if "dart_queued ?op test (trace t)" "cs_node DartChanges (trace t) = node"
      "\<And>r s'. (r = 0 \<Longrightarrow> cs_queue DartChanges (trace s') = cs_queue DartChanges (trace t) @ set_props [(''phandle'', PropU32 DART_PHANDLE)])
        \<Longrightarrow> dart_queued ?op test (trace s') \<Longrightarrow> cs_node DartChanges (trace s') = node \<Longrightarrow> R r s'" for R t
    unfolding add_phandle_def using that(1,2)
    by (intro wp_rules that(3)) (simp_all add: set_props_def)
  show ?thesis
    unfolding dart_node_def using s node
    by (intro wp_rules props phandle wp_no_apply [OF dart_parts_quiet(1), where op = ?op and test = test]
        wp_no_apply [OF dart_device_quiet [OF op], where op = ?op and test = test]
        wp_no_apply [OF dart_parts_quiet(2), where op = ?op and test = test] Q)
      (auto simp: dart_entries_def set_props_def)
qed


lemma wp_with_dart_queued:
  assumes op: "dart_client operate" and s: "dart_queued (operate \<noteq> None) test (trace s)"
    and Q: "\<And>r s'. dart_queued (operate \<noteq> None) test (trace s') \<Longrightarrow> Q r s'"
  shows "wp (a1625_with_dart K operate context test) Q s"
proof -
  let ?op = "operate \<noteq> None"
  note frame = wp_no_apply [where op = ?op and test = test]
  have changeset: "wp (dart_changeset K operate context test aic soc) R t"
    if "dart_queued ?op test (trace t)" "\<And>r s'. dart_queued ?op test (trace s') \<Longrightarrow> R r s'" for aic soc R t
    unfolding dart_changeset_def using that(1)
    by (intro wp_rules wp_dart_node_queued [OF op] that(2)) simp_all
  show ?thesis
    unfolding a1625_with_dart_def using s
    by (intro frame [OF dart_parts_quiet(3)] frame [OF dart_parts_quiet(4)] frame [OF dart_parts_quiet(5)] changeset wp_rules Q)
      simp_all
qed

section \<open>The callback gets the bound driver\<close>

text \<open>
  The callback starts right after the device lock was dropped under which the driver was found
  to be \<open>apple-dart\<close>.
\<close>

fun dart_bound :: "event list \<Rightarrow> bool" where
  "dart_bound (Call (Dev (DeviceUnlock d)) _ # Call (Dev (DevDriverNameIs d' name)) r # t) =
     (d = d' \<and> name = ''apple-dart'' \<and> r_val r \<noteq> 0)"
| "dart_bound _ = False"

lemma dart_device_checked:
  "dart_device K (Some f) context node = dart_device K (Some (\<lambda>d c. checked dart_bound (f d c))) context node"
proof (rule prog_eqI)
  fix s
  let ?named = "\<lambda>pdev t. \<exists>u r. t = Call (Dev (DevDriverNameIs pdev ''apple-dart'')) r # u \<and> r_val r \<noteq> 0"
  have name: "wp (if bound then do {
             apple \<leftarrow> bool_call K (Dev (DevDriverNameIs pdev ''apple-dart''));
             return (if apple then 0 else - ENODEV)
           } else return (- ENODEV)) (\<lambda>r s'. r = 0 \<longrightarrow> ?named pdev (trace s')) t" for pdev bound t
    by (intro wp_rules) simp_all
  have unlock: "wp (device_unlock K pdev) (\<lambda>_ s'. r = 0 \<longrightarrow> dart_bound (trace s')) t"
    if "r = 0 \<longrightarrow> ?named pdev (trace t)" for pdev t and r :: int
    using that by (intro wp_rules) auto
  show "run_state (dart_device K (Some f) context node) s =
    run_state (dart_device K (Some (\<lambda>d c. checked dart_bound (f d c))) context node) s"
    unfolding dart_device_def option.case
    by (intro run_cong run_bind_cong [OF name] run_bind_cong [OF unlock] run_bind_left run_bind_right)
      (auto simp: run_checked split: if_splits)
qed

section \<open>Properties\<close>

lemmas dart_run = a1625_with_dart_def dart_changeset_def dart_node_def dart_device_def dart_resource_def
  add_phandle_def remove_node_def dart_props_def

text \<open>A client for the witnesses: it looks at the node of the device it gets.\<close>

definition look_at_node :: "kernel \<Rightarrow> ptr \<Rightarrow> u64 \<Rightarrow> int prog" where
  "look_at_node K d c = do { n \<leftarrow> dev_of_node K d; return 0 }"

lemma look_at_node_client: "dart_client (Some (look_at_node K))"
  unfolding dart_client_def look_at_node_def
  by (auto intro!: emits_rules simp: dart_event_def cs_event_def)




text \<open>On the board the stage runs through: the device is created, bound, and removed.\<close>

lemma dart_on_board: "fst (run_state (a1625_with_dart board (Some (look_at_node board)) 0 True) boot) = 0"
  by (simp add: dart_run look_at_node_def run_simps)


text \<open>
  The callback only ever runs on a device whose driver has just been found, under the device
  lock, to be \<open>apple-dart\<close>: a callback that checks this first behaves the same.
\<close>

theorem with_dart_callback_bound:
  "a1625_with_dart K (Some f) ctx test_dma_range =
   a1625_with_dart K (Some (\<lambda>d c. checked dart_bound (f d c))) ctx test_dma_range"
  unfolding a1625_with_dart_def dart_changeset_def dart_node_def
  by (simp only: dart_device_checked [symmetric] option.distinct not_False_eq_True)

text \<open>
  The stage gives back every resource, also when attaching, binding or reverting fails.
\<close>

theorem with_dart_leak_free:
  assumes "run_state (a1625_with_dart K operate ctx test_dma_range) s = (r, s')"
    and "\<And>x a. keeps x (client2 operate a)"
  shows "held (trace s') x = held (trace s) x"
  by (rule dart.run_keeps [OF _ assms(2,1)]) simp

theorem with_dart_leak_free_witness:
  "held (trace (snd (run_state (a1625_with_dart board (Some (look_at_node board)) 0 True) boot))) (ChangesetApplied DartChanges) = 0"
proof -
  have "emits neutral (look_at_node board d c)" for d c
    unfolding look_at_node_def by (intro emits_rules) (simp add: neutral_def)
  then have "keeps x (client2 (Some (look_at_node board)) a)" for x a
    by (simp add: client2_def emits_neutral_keeps)
  from with_dart_leak_free [OF run_split [OF refl] this] show ?thesis by simp
qed

end
