(* ===== verification/DartMap.thy ===== *)
theory DartMap
  imports DartLifetime
begin

text \<open>
  a1625_dart_map.h: a software check of the DART's page tables. A platform device behind the DART
  gets a temporary driver; its probe maps one page, looks the translation up at both ends, unmaps
  it and checks that the translation is gone. No endpoint takes part.

  \<open>PAGE_SIZE\<close> is a constant of the kernel's configuration and a parameter here.
\<close>

section \<open>The probe of the mapping driver\<close>

abbreviation IOMMU_DOMAIN_DMA :: u32 where "IOMMU_DOMAIN_DMA \<equiv> 3"
abbreviation IOMMU_DOMAIN_DMA_FQ :: u32 where "IOMMU_DOMAIN_DMA_FQ \<equiv> 11"
abbreviation DART_BASE :: u64 where "DART_BASE \<equiv> 0x602002000"

abbreviation domain_type :: "kernel \<Rightarrow> ptr \<Rightarrow> u32 prog" where
  "domain_type K d \<equiv> u32_call K (Iommu (DomainType d))"
abbreviation iommu_iova_to_phys :: "kernel \<Rightarrow> ptr \<Rightarrow> u64 \<Rightarrow> u64 prog" where
  "iommu_iova_to_phys K d iova \<equiv> val_call K (Iommu (IommuIovaToPhys d iova))"
abbreviation page_to_phys :: "kernel \<Rightarrow> ptr \<Rightarrow> u64 prog" where
  "page_to_phys K p \<equiv> val_call K (Iommu (PageToPhys p))"

text \<open>\<open>!domain || (domain->type != IOMMU_DOMAIN_DMA && domain->type != IOMMU_DOMAIN_DMA_FQ)\<close>, negated.\<close>

definition dma_domain :: "kernel \<Rightarrow> ptr \<Rightarrow> bool prog" where
  "dma_domain K domain =
     (if domain = 0 then return False else do {
        type \<leftarrow> domain_type K domain;
        return (type = IOMMU_DOMAIN_DMA \<or> type = IOMMU_DOMAIN_DMA_FQ)
      })"

text \<open>The five conditions on a mapping, evaluated left to right and only while they hold.\<close>

definition check_mapping :: "kernel \<Rightarrow> u64 \<Rightarrow> ptr \<Rightarrow> ptr \<Rightarrow> u64 \<Rightarrow> int prog" where
  "check_mapping K page_size domain page addr =
     (if \<not> addr \<le> 0xffffffff - (page_size - 1) then return (- EIO) else do {
      lo \<leftarrow> val_call K (Iommu (ApertureStart domain));
      if \<not> lo \<le> addr then return (- EIO) else do {
      hi \<leftarrow> val_call K (Iommu (ApertureEnd domain));
      if \<not> addr + page_size - 1 \<le> hi then return (- EIO) else do {
      phys \<leftarrow> iommu_iova_to_phys K domain addr;
      pa \<leftarrow> page_to_phys K page;
      if phys \<noteq> pa then return (- EIO) else do {
      phys \<leftarrow> iommu_iova_to_phys K domain (addr + page_size - 1);
      pa \<leftarrow> page_to_phys K page;
      return (if phys = pa + page_size - 1 then 0 else - EIO)
      }}}})"

definition map_page :: "kernel \<Rightarrow> u64 \<Rightarrow> ptr \<Rightarrow> ptr \<Rightarrow> ptr \<Rightarrow> int prog" where
  "map_page K page_size pdev domain page = do {
     addr \<leftarrow> val_call K (Iommu (DmaMapPage pdev page));
     bad \<leftarrow> bool_call K (Iommu (DmaMappingError pdev addr));
     if bad then return (- EIO) else do {
     r \<leftarrow> check_mapping K page_size domain page addr;
     do_call K (Iommu (DmaUnmapPage pdev addr));
     phys \<leftarrow> iommu_iova_to_phys K domain addr;
     return (if phys \<noteq> 0 then - EIO else r)
     }
   }"

definition map_with_regs :: "kernel \<Rightarrow> u64 \<Rightarrow> ptr \<Rightarrow> ptr \<Rightarrow> u64 \<Rightarrow> int prog" where
  "map_with_regs K page_size pdev domain regs = do {
     enabled \<leftarrow> readl K (regs + 0xc);
     if enabled \<noteq> 0x80 then return (- ENODEV) else do {
     page \<leftarrow> val_call K (Iommu AllocPage);
     if page = 0 then return (- ENOMEM) else do {
     r \<leftarrow> map_page K page_size pdev domain page;
     do_call K (Iommu (FreePage page));
     return r
     }}
   }"

text \<open>\<open>*result\<close> is the device's platform data.\<close>

definition a1625_map_probe :: "kernel \<Rightarrow> u64 \<Rightarrow> ptr \<Rightarrow> int prog" where
  "a1625_map_probe K page_size pdev = do {
     domain \<leftarrow> val_call K (Iommu (IommuGetDomainForDev pdev));
     translated \<leftarrow> dma_domain K domain;
     r \<leftarrow> (if \<not> translated then return (- ENODEV) else do {
             regs \<leftarrow> ioremap K DART_BASE 0x100;
             if regs = 0 then return (- ENOMEM) else do {
             r \<leftarrow> map_with_regs K page_size pdev domain regs;
             iounmap K regs;
             return r
             }
           });
     upd_machine (\<lambda>s. s\<lparr>map_result := r\<rparr>);
     return r
   }"

section \<open>The client of the DART lifetime\<close>

text \<open>
  While a device is added, the driver core may call the probe of the driver registered for it. The
  callbacks a response asks for are run before the call returns.
\<close>

fun run_map_callbacks :: "kernel \<Rightarrow> u64 \<Rightarrow> callback list \<Rightarrow> unit prog" where
  "run_map_callbacks K page_size [] = return ()"
| "run_map_callbacks K page_size (cb # cbs) = do {
     (case cb of
        MapProbe pdev \<Rightarrow> do {
          r \<leftarrow> a1625_map_probe K page_size pdev;
          log_result cb r 0
        }
      | _ \<Rightarrow> return ());
     run_map_callbacks K page_size cbs
   }"

definition platform_device_add :: "kernel \<Rightarrow> u64 \<Rightarrow> ptr \<Rightarrow> int prog" where
  "platform_device_add K page_size pdev = do {
     r \<leftarrow> kcall K (Dev (PlatformDeviceAdd pdev));
     run_map_callbacks K page_size (r_cbs r);
     return (r_ret r)
   }"

text \<open>
  \<open>platform_device_add_data\<close> copies \<open>result\<close>, still \<open>- ENODEV\<close>, into the platform data the probe
  will overwrite.
\<close>

definition map_device :: "kernel \<Rightarrow> u64 \<Rightarrow> ptr \<Rightarrow> int prog" where
  "map_device K page_size node = do {
     pdev \<leftarrow> val_call K (Dev (PlatformDeviceAlloc ''a1625-dart-map''));
     if pdev = 0 then return (- ENOMEM) else do {
     n \<leftarrow> of_node_get K node;
     do_call K (Dev (PdevSetOfNode pdev n));
     do_call K (Dev (DevSetDmaMask pdev 0xffffffff));
     r \<leftarrow> int_call K (Dev (PlatformDeviceAddData pdev));
     r \<leftarrow> (if r = 0 then do {
             upd_machine (\<lambda>s. s\<lparr>map_result := - ENODEV\<rparr>);
             platform_device_add K page_size pdev
           } else return r);
     if r \<noteq> 0 then do { do_call K (Dev (PlatformDevicePut pdev)); return r }
     else do {
       s \<leftarrow> get_machine;
       bound \<leftarrow> dev_driver K pdev;
       let r = (if \<not> bound then if map_result s \<noteq> 0 then map_result s else - ENODEV else map_result s);
       platform_device_unregister K pdev;
       return r
     }}
   }"

definition map_node :: "kernel \<Rightarrow> u64 \<Rightarrow> ptr \<Rightarrow> int prog" where
  "map_node K page_size node = do {
     r \<leftarrow> add_props K MapChanges node [(''iommus'', PropU32s [DART_PHANDLE, 0])];
     if r \<noteq> 0 then return r else do {
     set_populated K node;
     r \<leftarrow> of_changeset_apply K MapChanges;
     (r, applied) \<leftarrow>
       (if r \<noteq> 0 then return (r, False) else do {
          r \<leftarrow> int_call K (Dev (PlatformDriverRegister ''a1625-dart-map''));
          if r \<noteq> 0 then return (r, True) else do {
          r \<leftarrow> map_device K page_size node;
          do_call K (Dev (PlatformDriverUnregister ''a1625-dart-map''));
          return (r, True)
          }
        });
     remove_node K MapChanges node applied r
     }
   }"

definition a1625_dart_map :: "kernel \<Rightarrow> u64 \<Rightarrow> ptr \<Rightarrow> u64 \<Rightarrow> int prog" where
  "a1625_dart_map K page_size dart context =
     (if page_size \<noteq> 4096 then return (- EINVAL) else do {
      n \<leftarrow> dev_of_node K dart;
      ph \<leftarrow> node_phandle K n;
      if ph \<noteq> DART_PHANDLE then return (- EINVAL) else do {
      existing \<leftarrow> of_find_node_by_path K ''/soc/a1625-dart-map'';
      if existing \<noteq> 0 then do { of_node_put K existing; return (- EBUSY) } else do {
      of_changeset_init K MapChanges;
      n \<leftarrow> dev_of_node K dart;
      parent \<leftarrow> node_parent K n;
      node \<leftarrow> of_changeset_create_node K MapChanges parent ''a1625-dart-map'';
      r \<leftarrow> (if node = 0 then return (- ENOMEM) else map_node K page_size node);
      of_changeset_destroy K MapChanges;
      of_node_put K node;
      return r
      }}})"

section \<open>Nothing leaks\<close>

lemma check_mapping_neutral: "emits neutral (check_mapping K ps domain page addr)"
  and dma_domain_neutral: "emits neutral (dma_domain K domain)"
  unfolding check_mapping_def dma_domain_def by (intro emits_rules; simp add: neutral_def)+

lemma map_page_keeps: "keeps x (map_page K ps pdev domain page)"
  unfolding map_page_def
  by (intro keepsI wp_rules wp_neutral [OF check_mapping_neutral]) simp_all

lemma map_probe_keeps: "keeps x (a1625_map_probe K ps pdev)"
  unfolding a1625_map_probe_def map_with_regs_def
  by (intro keepsI wp_rules wp_neutral [OF dma_domain_neutral] wp_keeps [OF map_page_keeps [of x]])
    (simp_all add: unless_null_def)

lemma run_map_callbacks_keeps: "keeps x (run_map_callbacks K ps cbs)"
proof (induction cbs)
  case Nil
  then show ?case by (simp add: keeps_return)
next
  case (Cons cb cbs)
  have "keeps x (case cb of MapProbe pdev \<Rightarrow> do { r \<leftarrow> a1625_map_probe K ps pdev; log_result cb r 0 } | _ \<Rightarrow> return ())"
    by (cases cb) (auto intro!: keeps_return keeps_bind map_probe_keeps log_result_keeps)
  with Cons show ?case by (auto intro: keeps_bind)
qed

lemma platform_device_add_keeps: "keeps x (platform_device_add K ps pdev)"
  unfolding platform_device_add_def
  by (intro keepsI wp_rules wp_keeps [OF run_map_callbacks_keeps [of x]]) simp

lemma map_device_keeps: "keeps x (map_device K ps node)"
  unfolding map_device_def
  by (intro keepsI wp_rules wp_keeps [OF platform_device_add_keeps [of x]]) (simp_all add: unless_null_def)

lemma map_node_keeps: "keeps x (map_node K ps node)"
  unfolding map_node_def
  by (intro keepsI wp_rules wp_neutral [OF add_props_neutral] wp_keeps [OF map_device_keeps [of x]]
      wp_mono [OF remove_node_keeps [of _ _ _ _ _ x]]) (simp_all split: if_splits)

lemma dart_map_keeps: "keeps x (a1625_dart_map K ps dart context)"
  unfolding a1625_dart_map_def
  by (intro keepsI wp_rules wp_keeps [OF map_node_keeps [of x]]) (simp_all add: unless_null_def)

section \<open>As a client of the DART lifetime\<close>

lemma dart_event_simps [simp]:
  "\<not> dart_event (Call (Iommu a) r)" "\<not> dart_event (Call (Mmio b) r)" "\<not> dart_event (Call (Dev d) r)"
  "\<not> dart_event (CallbackResult cb i v)"
  "dart_event (Call (Cs cs) r) = cs_event DartChanges (Call (Cs cs) r)"
  by (simp_all add: dart_event_def cs_event_def)

lemma map_probe_client: "emits (\<lambda>e. \<not> dart_event e) (a1625_map_probe K ps pdev)"
  unfolding a1625_map_probe_def map_with_regs_def map_page_def check_mapping_def dma_domain_def
  by (intro emits_rules) simp_all

lemma run_map_callbacks_client: "emits (\<lambda>e. \<not> dart_event e) (run_map_callbacks K ps cbs)"
proof (induction cbs)
  case (Cons cb cbs)
  have "emits (\<lambda>e. \<not> dart_event e) (case cb of MapProbe pdev \<Rightarrow> do { r \<leftarrow> a1625_map_probe K ps pdev; log_result cb r 0 } | _ \<Rightarrow> return ())"
    by (cases cb) (auto intro!: emits_return emits_bind emits_log_result map_probe_client)
  with Cons show ?case by (auto intro: emits_bind)
qed (simp add: emits_return)

lemma dart_map_client: "dart_client (Some (a1625_dart_map K ps))"
proof -
  have "emits (\<lambda>e. \<not> dart_event e) (a1625_dart_map K ps d c)" for d c
    unfolding a1625_dart_map_def map_node_def map_device_def platform_device_add_def remove_node_def
    by (intro emits_rules run_map_callbacks_client) (simp_all add: dart_event_def cs_event_def)
  then show ?thesis by (simp add: dart_client_def)
qed

section \<open>What success means\<close>

text \<open>
  The trace of a successful probe, in three layers: \<open>t\<close> extends \<open>t0\<close> by the events of the layer,
  newest first. Inside: the address lies in the aperture and below 4 GiB, and both ends of the page
  are translated to the page.
\<close>

definition translated :: "u64 \<Rightarrow> ptr \<Rightarrow> ptr \<Rightarrow> u64 \<Rightarrow> event list \<Rightarrow> event list \<Rightarrow> bool" where
  "translated page_size domain page addr t t0 \<longleftrightarrow> (\<exists>r0 r1 r2 r3 r4 r5.
     t = Call (Iommu (PageToPhys page)) r0 #
         Call (Iommu (IommuIovaToPhys domain (addr + page_size - 1))) r1 #
         Call (Iommu (PageToPhys page)) r2 # Call (Iommu (IommuIovaToPhys domain addr)) r3 #
         Call (Iommu (ApertureEnd domain)) r4 # Call (Iommu (ApertureStart domain)) r5 # t0 \<and>
     addr \<le> 0xffffffff - (page_size - 1) \<and> r_val r5 \<le> addr \<and> addr + page_size - 1 \<le> r_val r4 \<and>
     r_val r3 = r_val r2 \<and> r_val r1 = r_val r0 + page_size - 1)"

text \<open>Around it: the mapping was made, and after the unmapping the translation is gone.\<close>

definition page_mapped :: "u64 \<Rightarrow> ptr \<Rightarrow> ptr \<Rightarrow> ptr \<Rightarrow> event list \<Rightarrow> event list \<Rightarrow> bool" where
  "page_mapped page_size pdev domain page t t0 \<longleftrightarrow> (\<exists>addr t1 r0 r1 r2 r3.
     t = Call (Iommu (IommuIovaToPhys domain addr)) r0 # Call (Iommu (DmaUnmapPage pdev addr)) r1 # t1 \<and>
     translated page_size domain page addr t1
       (Call (Iommu (DmaMappingError pdev addr)) r2 # Call (Iommu (DmaMapPage pdev page)) r3 # t0) \<and>
     r_val r3 = addr \<and> r_val r2 = 0 \<and> r_val r0 = 0)"

text \<open>Outside: a DMA domain, only stream 0 enabled, and the page freed after its unmapping.\<close>

definition map_checked :: "u64 \<Rightarrow> ptr \<Rightarrow> event list \<Rightarrow> bool" where
  "map_checked page_size pdev t \<longleftrightarrow> (\<exists>domain page t1 r0 r1 r2 r3 r4 r5 r6 t0.
     t = Call (Mmio (Iounmap DART_BASE)) r0 # Call (Iommu (FreePage page)) r1 # t1 \<and>
     page_mapped page_size pdev domain page t1
       (Call (Iommu AllocPage) r2 # Call (Mmio (Readl 0x60200200c)) r3 #
        Call (Mmio (Ioremap DART_BASE 0x100)) r4 # Call (Iommu (DomainType domain)) r5 #
        Call (Iommu (IommuGetDomainForDev pdev)) r6 # t0) \<and>
     r_val r6 = domain \<and> domain \<noteq> 0 \<and>
     (ucast (r_val r5) = IOMMU_DOMAIN_DMA \<or> ucast (r_val r5) = IOMMU_DOMAIN_DMA_FQ) \<and>
     (ucast (r_val r3) :: u32) = 0x80 \<and> r_val r2 = page \<and> page \<noteq> 0)"

lemma wp_check_mapping:
  assumes "\<And>r s'. (r = 0 \<Longrightarrow> translated ps domain page addr (trace s') (trace s)) \<Longrightarrow> Q r s'"
  shows "wp (check_mapping K ps domain page addr) Q s"
  unfolding check_mapping_def
  by (intro wp_rules assms) (simp_all add: translated_def split: if_splits)

lemma wp_map_page:
  assumes "\<And>r s'. (r = 0 \<Longrightarrow> page_mapped ps pdev domain page (trace s') (trace s)) \<Longrightarrow> Q r s'"
  shows "wp (map_page K ps pdev domain page) Q s"
  unfolding map_page_def
  by (intro wp_rules wp_check_mapping assms) (auto simp: page_mapped_def split: if_splits)

lemma map_checkedI:
  assumes "page_mapped ps pdev (r_val r6) (r_val r2) t1
       (Call (Iommu AllocPage) r2 # Call (Mmio (Readl 0x60200200c)) r3 #
        Call (Mmio (Ioremap DART_BASE 0x100)) r4 # Call (Iommu (DomainType (r_val r6))) r5 #
        Call (Iommu (IommuGetDomainForDev pdev)) r6 # t0)"
    and "r_val r6 \<noteq> 0" "ucast (r_val r5) = IOMMU_DOMAIN_DMA \<or> ucast (r_val r5) = IOMMU_DOMAIN_DMA_FQ"
    and "(ucast (r_val r3) :: u32) = 0x80" "r_val r2 \<noteq> 0"
  shows "map_checked ps pdev (Call (Mmio (Iounmap DART_BASE)) r0 # Call (Iommu (FreePage (r_val r2))) r1 # t1)"
  unfolding map_checked_def using assms by blast

lemma wp_map_probe:
  assumes "\<And>r s'. (r = 0 \<Longrightarrow> map_checked ps pdev (trace s')) \<Longrightarrow> map_result s' = r \<Longrightarrow> Q r s'"
  shows "wp (a1625_map_probe K ps pdev) Q s"
  unfolding a1625_map_probe_def map_with_regs_def dma_domain_def
  apply (intro wp_rules wp_map_page assms)
  apply simp_all
  apply (rule map_checkedI)
  apply assumption
  apply simp_all
  done

text \<open>A probe that succeeded earlier in the run.\<close>

definition map_probed :: "u64 \<Rightarrow> event list \<Rightarrow> bool" where
  "map_probed page_size t \<longleftrightarrow> (\<exists>pdev later t1. t = later @ CallbackResult (MapProbe pdev) 0 0 # t1 \<and> map_checked page_size pdev t1)"

lemma map_probed_append: "map_probed ps t \<Longrightarrow> map_probed ps (new @ t)"
  unfolding map_probed_def by (metis append.assoc)

lemma map_probed_Cons: "map_probed ps t \<Longrightarrow> map_probed ps (e # t)"
  using map_probed_append [of ps t "[e]"] by simp

lemma wp_run_map_callbacks:
  assumes "map_result s = 0 \<Longrightarrow> map_probed ps (trace s)"
    and "\<And>s'. (map_result s' = 0 \<Longrightarrow> map_probed ps (trace s')) \<Longrightarrow> Q () s'"
  shows "wp (run_map_callbacks K ps cbs) Q s"
  using assms(1)
proof (induction cbs arbitrary: s)
  case Nil
  then show ?case by (auto intro!: wp_rules assms(2))
next
  case (Cons cb cbs)
  show ?case
  proof (cases cb)
    case (MapProbe pdev)
    have "map_probed ps (CallbackResult (MapProbe pdev) 0 0 # t)" if "map_checked ps pdev t" for t
      unfolding map_probed_def using that by (metis append_Nil)
    then show ?thesis
      unfolding run_map_callbacks.simps MapProbe callback.case
      by (intro wp_rules wp_map_probe Cons.IH) simp
  qed (use Cons in \<open>auto intro!: wp_rules\<close>)
qed


lemma wp_platform_device_add:
  assumes "map_result s \<noteq> 0" and "\<And>r s'. (map_result s' = 0 \<Longrightarrow> map_probed ps (trace s')) \<Longrightarrow> Q r s'"
  shows "wp (platform_device_add K ps pdev) Q s"
  unfolding platform_device_add_def using assms(1)
  by (intro wp_rules wp_run_map_callbacks [where ps = ps] assms(2)) simp_all

lemma wp_map_device:
  assumes "\<And>r s'. (r = 0 \<Longrightarrow> map_probed ps (trace s')) \<Longrightarrow> Q r s'"
  shows "wp (map_device K ps node) Q s"
  unfolding map_device_def
  by (intro wp_rules wp_platform_device_add [where ps = ps] assms) (auto intro: map_probed_Cons split: if_splits)

lemma wp_remove_node_status:
  assumes "\<And>r s' new. (r = 0 \<Longrightarrow> r0 = 0) \<Longrightarrow> trace s' = new @ trace s \<Longrightarrow> Q r s'"
  shows "wp (remove_node K cs n applied r0) Q s"
  unfolding remove_node_def
  by (intro wp_rules assms) (auto split: if_splits)

lemma wp_map_node:
  assumes "\<And>r s'. (r = 0 \<Longrightarrow> map_probed ps (trace s')) \<Longrightarrow> Q r s'"
  shows "wp (map_node K ps node) Q s"
  unfolding map_node_def
  by (intro wp_rules wp_add_props wp_map_device [where ps = ps] wp_remove_node_status assms)
    (auto intro: map_probed_Cons map_probed_append)

lemma wp_dart_map:
  assumes "\<And>r s'. (r = 0 \<Longrightarrow> map_probed ps (trace s')) \<Longrightarrow> Q r s'"
  shows "wp (a1625_dart_map K ps dart context) Q s"
  unfolding a1625_dart_map_def
  by (intro wp_rules wp_map_node [where ps = ps] assms) (auto intro: map_probed_Cons)

section \<open>Pages and their mappings\<close>

text \<open>The streaming mappings that are alive; a page must not be freed while it has one.\<close>

fun dma_live :: "event list \<Rightarrow> (ptr \<times> u64) list" where
  "dma_live [] = []"
| "dma_live (e # t) =
     (case e of
        Call (Iommu (DmaMapPage d p)) r \<Rightarrow> (p, r_val r) # dma_live t
      | Call (Iommu (DmaMappingError d a)) r \<Rightarrow>
          if r_val r = 0 then dma_live t else filter (\<lambda>m. snd m \<noteq> a) (dma_live t)
      | Call (Iommu (DmaUnmapPage d a)) r \<Rightarrow> filter (\<lambda>m. snd m \<noteq> a) (dma_live t)
      | _ \<Rightarrow> dma_live t)"

fun pages_guarded :: "event list \<Rightarrow> bool" where
  "pages_guarded [] = True"
| "pages_guarded (e # t) =
     (pages_guarded t \<and>
      (case e of
         Call (Iommu (FreePage p)) r \<Rightarrow> list_all (\<lambda>m. fst m \<noteq> p) (dma_live t)
       | _ \<Rightarrow> True))"

abbreviation pages_ok :: "event list \<Rightarrow> bool" where
  "pages_ok t \<equiv> pages_guarded t \<and> dma_live t = []"

lemma wp_map_probe_pages:
  assumes "pages_ok (trace s)" and "\<And>r s'. pages_ok (trace s') \<Longrightarrow> Q r s'"
  shows "wp (a1625_map_probe K ps pdev) Q s"
proof -
  have check: "wp (check_mapping K ps domain page addr) R t"
    if "\<And>r s'. pages_guarded (trace s') = pages_guarded (trace t) \<Longrightarrow> dma_live (trace s') = dma_live (trace t) \<Longrightarrow> R r s'"
    for domain page addr R t
    unfolding check_mapping_def by (intro wp_rules that) simp_all
  show ?thesis
    unfolding a1625_map_probe_def map_with_regs_def map_page_def dma_domain_def using assms(1)
    by (intro wp_rules check assms(2)) simp_all
qed

lemma wp_run_map_callbacks_pages:
  assumes "pages_ok (trace s)" and "\<And>s'. pages_ok (trace s') \<Longrightarrow> Q () s'"
  shows "wp (run_map_callbacks K ps cbs) Q s"
  using assms(1)
proof (induction cbs arbitrary: s)
  case Nil
  then show ?case by (auto intro!: wp_rules assms(2))
next
  case (Cons cb cbs)
  show ?case
  proof (cases cb)
    case (MapProbe pdev)
    then show ?thesis
      unfolding run_map_callbacks.simps MapProbe callback.case using Cons.prems
      by (intro wp_rules wp_map_probe_pages Cons.IH) simp_all
  qed (use Cons in \<open>auto intro!: wp_rules\<close>)
qed

lemma wp_dart_map_pages:
  assumes "pages_ok (trace s)" and "\<And>r s'. pages_ok (trace s') \<Longrightarrow> Q r s'"
  shows "wp (a1625_dart_map K ps dart context) Q s"
proof -
  have other: "wp m R t" if "emits (\<lambda>e. case e of Call (Iommu _) _ \<Rightarrow> False | _ \<Rightarrow> True) m" "pages_ok (trace t)"
    "\<And>r s'. pages_ok (trace s') \<Longrightarrow> R r s'" for m :: "'b prog" and R t
  proof (rule wp_frame [OF that(1)], rule that(3))
    fix new and s' :: machine
    assume "list_all (\<lambda>e. case e of Call (Iommu _) _ \<Rightarrow> False | _ \<Rightarrow> True) new" "trace s' = new @ trace t"
    moreover from this(1) have "pages_guarded (new @ u) = pages_guarded u \<and> dma_live (new @ u) = dma_live u" for u
      by (induction new) (auto split: event.splits call.splits)
    ultimately show "pages_ok (trace s')" using that(2) by simp
  qed
  have parts: "emits (\<lambda>e. case e of Call (Iommu _) _ \<Rightarrow> False | _ \<Rightarrow> True) (add_props K MapChanges n prs)"
    "emits (\<lambda>e. case e of Call (Iommu _) _ \<Rightarrow> False | _ \<Rightarrow> True) (remove_node K MapChanges n applied r)" for n prs applied r
    unfolding remove_node_def by (intro emits_rules; simp)+
  have device: "wp (map_device K ps n) R t"
    if "pages_ok (trace t)" "\<And>r s'. pages_ok (trace s') \<Longrightarrow> R r s'" for n R t
    unfolding map_device_def platform_device_add_def using that(1)
    by (intro wp_rules wp_run_map_callbacks_pages that(2)) simp_all
  have node: "wp (map_node K ps n) R t"
    if "pages_ok (trace t)" "\<And>r s'. pages_ok (trace s') \<Longrightarrow> R r s'" for n R t
    unfolding map_node_def using that(1)
    by (intro wp_rules device other [OF parts(1)] other [OF parts(2)] that(2)) simp_all
  show ?thesis
    unfolding a1625_dart_map_def using assms(1)
    by (intro wp_rules node assms(2)) simp_all
qed

section \<open>Properties\<close>

lemmas map_run = a1625_dart_map_def map_node_def map_device_def platform_device_add_def
  a1625_map_probe_def map_with_regs_def map_page_def check_mapping_def dma_domain_def remove_node_def

lemma dart_map_on_board: "fst (run_state (a1625_dart_map board 4096 0x700 0) boot) = 0"
  by (simp add: map_run run_simps)

text \<open>
  C13. The mapping check reports success only if a probe ran in which, on hardware with only stream 0
  enabled, a page was mapped below 4 GiB and inside the aperture of a DMA domain, both its ends were
  translated to the page, and the translation was gone after the unmapping. Whatever the kernel
  answers, a device that is never probed or a failed probe is not reported as success.
\<close>

theorem dart_map_success:
  assumes "run_state (a1625_dart_map K page_size dart ctx) s = (0, s')"
  shows "map_probed page_size (trace s')"
proof -
  have "wp (a1625_dart_map K page_size dart ctx) (\<lambda>r s'. r = 0 \<longrightarrow> map_probed page_size (trace s')) s"
    by (rule wp_dart_map) simp
  from wp_run [OF this assms] show ?thesis by simp
qed

theorem dart_map_success_witness:
  "map_probed 4096 (trace (snd (run_state (a1625_dart_map board 4096 0x700 0) boot)))"
  by (rule dart_map_success [OF run_split [OF dart_map_on_board]])

text \<open>
  C25. A page is never freed while it is mapped for DMA, and no mapping outlives the check: true for
  every kernel, every number of probes the kernel runs, and every failure.
\<close>

theorem dart_map_pages:
  assumes "run_state (a1625_dart_map K page_size dart ctx) s = (r, s')"
    and "pages_guarded (trace s)" and "dma_live (trace s) = []"
  shows "pages_guarded (trace s') \<and> dma_live (trace s') = []"
proof -
  have "wp (a1625_dart_map K page_size dart ctx) (\<lambda>_ s'. pages_ok (trace s')) s"
    by (rule wp_dart_map_pages) (use assms(2,3) in simp_all)
  from wp_run [OF this assms(1)] show ?thesis .
qed

theorem dart_map_pages_witness:
  "pages_guarded (trace (snd (run_state (a1625_dart_map board 4096 0x700 0) boot)))"
  using dart_map_pages [OF run_split [OF refl], where s = boot and K = board] by simp

end
