(* ===== verification/Observers.thy ===== *)
theory Observers
  imports ScanRestore RadioPulse DartMap
begin

text \<open>
  The observers of a1625_pcie_domains.c: what the module looks at while the stages hold power, PHY and
  radio. Its module parameters are the fields of one record, which every observer takes as an
  argument; the file-scope variables \<open>scan_dart\<close> and \<open>scan_msi_domain\<close> are fields of the machine.
\<close>

section \<open>Module parameters\<close>

record host_options =
  o_cycle :: bool
  o_force_active :: bool
  o_snapshot :: bool
  o_prepare_port :: bool
  o_inspect_prefix :: bool
  o_test_refclk :: bool
  o_inspect_rc :: bool
  o_inspect_dart :: bool
  o_probe_dart :: bool
  o_scan_iommu :: bool
  o_probe_msi :: bool
  o_map_dart :: bool
  o_test_dma_range :: bool

record options = host_options +
  o_pulse_radio :: bool
  o_train_link :: bool
  o_identify_endpoint :: bool
  o_identify_chip :: bool
  o_inspect_erom :: bool
  o_scan_pci :: bool
  o_scan_msi :: bool
  o_assign_memory :: bool
  o_bind_firmware :: bool
  o_hold_seconds :: u32
  o_hold_until_signal :: bool

section \<open>The DART\<close>

fun dart_registers :: "kernel \<Rightarrow> bool \<Rightarrow> bool \<Rightarrow> u64 \<Rightarrow> u64 list \<Rightarrow> int prog" where
  "dart_registers K clients_off reset_expected dart [] = return 0"
| "dart_registers K clients_off reset_expected dart (off # offs) = do {
     v \<leftarrow> readl K (dart + off);
     if v = all_ones then return (- ENODEV)
     else if clients_off \<and> off = 0xc \<and> v \<noteq> 0 \<or> reset_expected \<and> 0x40 \<le> off \<and> v \<noteq> 0 then return (- EBUSY)
     else dart_registers K clients_off reset_expected dart offs
   }"

definition dart_state_offsets :: "u64 list" where
  "dart_state_offsets = [0x0, 0xc, 0x10, 0x40, 0x44, 0x48, 0x4c]"

definition snapshot_dart :: "kernel \<Rightarrow> options \<Rightarrow> bool \<Rightarrow> int prog" where
  "snapshot_dart K opt reset_expected = do {
     owned \<leftarrow> request_mem_region K DART_BASE 0x2000;
     if \<not> owned then return (- EBUSY) else do {
     dart \<leftarrow> ioremap K DART_BASE 0x2000;
     r \<leftarrow> (if dart = 0 then return (- ENOMEM) else do {
            r \<leftarrow> dart_registers K (o_probe_dart opt \<or> o_scan_iommu opt) reset_expected dart dart_state_offsets;
            iounmap K dart;
            return r
          });
     release_mem_region K DART_BASE 0x2000;
     return r
     }
   }"

section \<open>The root port\<close>

definition snapshot_root_port :: "kernel \<Rightarrow> int prog" where
  "snapshot_root_port K = do {
     owned \<leftarrow> request_mem_region K RC_CFG 0x1000;
     if \<not> owned then return (- EBUSY) else do {
     cfg \<leftarrow> ioremap K RC_CFG 0x1000;
     r \<leftarrow> (if cfg = 0 then return (- ENOMEM) else do {
            v \<leftarrow> readl K cfg;
            r \<leftarrow> (if v AND 0xffff \<noteq> 0x106b then return (- ENODEV) else do {
                   v \<leftarrow> readl K (cfg + 8);
                   return (if drop_bit 16 v \<noteq> 0x0604 then - ENODEV else 0)
                 });
            iounmap K cfg;
            return r
          });
     release_mem_region K RC_CFG 0x1000;
     return r
     }
   }"

section \<open>The chip behind BAR 0\<close>

text \<open>
  The component walk through the EROM, four bytes at a time over its first page. None stands for the
  jumps to \<open>restore\<close> out of the loop; otherwise the result is \<open>ended\<close>, \<open>components\<close> and \<open>pcie\<close>.
\<close>

function erom_walk :: "kernel \<Rightarrow> u64 \<Rightarrow> nat \<Rightarrow> u32 \<Rightarrow> u32 \<Rightarrow> (bool \<times> u32 \<times> u32) option prog" where
  "erom_walk K bar offset components pcie =
     (if offset < 0x1000 then do {
        first \<leftarrow> readl K (bar + of_nat offset);
        if first = all_ones then return None
        else if first AND 0xf = 0xf then return (Some (True, components, pcie))
        else if first AND 0xfff0000f \<noteq> 0x4bf00001 then erom_walk K bar (offset + 4) components pcie
        else if 0x1000 \<le> offset + 4 then return None
        else do {
          second \<leftarrow> readl K (bar + of_nat (offset + 4));
          if second AND 0xf \<noteq> 1 then return None
          else erom_walk K bar (offset + 8) (components + 1)
            (if drop_bit 8 first AND 0xfff = 0x83c then pcie + 1 else pcie)
        }
      } else return (Some (False, components, pcie)))"
  by pat_completeness auto
termination by (relation "measure (\<lambda>(K, bar, offset, components, pcie). 0x1000 - offset)") auto

declare erom_walk.simps [simp del]

definition inspect_components :: "kernel \<Rightarrow> u64 \<Rightarrow> u64 \<Rightarrow> u32 \<Rightarrow> int prog" where
  "inspect_components K ep bar pointer =
     (if pointer \<noteq> 0x1810d000 then return (- ENODEV) else do {
      writel K pointer (ep + 0x80);
      v \<leftarrow> readl K (ep + 0x80);
      if v \<noteq> pointer then return (- ENODEV) else do {
      walked \<leftarrow> erom_walk K bar 0 0 0;
      return (case walked of
          None \<Rightarrow> - ENODEV
        | Some (ended, components, pcie) \<Rightarrow> if ended \<and> components \<noteq> 0 \<and> pcie = 1 then 0 else - ENODEV)
      }})"

text \<open>With memory decoding on, behind the window at the chip's core.\<close>

definition read_chip :: "kernel \<Rightarrow> bool \<Rightarrow> u64 \<Rightarrow> u64 \<Rightarrow> int prog" where
  "read_chip K inspect_erom ep bar = do {
     v \<leftarrow> readl K bar;
     if v = all_ones \<or> v AND 0xffff \<noteq> 0x4350 then return (- ENODEV) else do {
     pointer \<leftarrow> readl K (bar + 0xfc);
     if pointer = 0 \<or> pointer = all_ones \<or> pointer AND 3 \<noteq> 0 then return (- ENODEV)
     else if inspect_erom then inspect_components K ep bar pointer
     else return 0
     }
   }"

text \<open>One step of the set-up: write, and go on only if the register reads back as written.\<close>

definition set_checked :: "kernel \<Rightarrow> u64 \<Rightarrow> u32 \<Rightarrow> int prog \<Rightarrow> int prog" where
  "set_checked K a v rest = do {
     writel K v a;
     x \<leftarrow> readl K a;
     if x \<noteq> v then return (- EIO) else rest
   }"

definition set_command :: "kernel \<Rightarrow> u64 \<Rightarrow> u32 \<Rightarrow> int prog \<Rightarrow> int prog" where
  "set_command K a v rest = do {
     writew K v a;
     x \<leftarrow> readw K a;
     if x \<noteq> v then return (- EIO) else rest
   }"

definition map_chip :: "kernel \<Rightarrow> bool \<Rightarrow> u64 \<Rightarrow> u64 \<Rightarrow> u64 \<Rightarrow> int prog" where
  "map_chip K inspect_erom rc ep bar =
     set_checked K (ep + 0x10) 0xc0000004
       (set_checked K (rc + 0x20) 0xc000c000
         (set_checked K (ep + 0x80) 0x18000000
           (set_command K (rc + 4) 2
             (set_command K (ep + 4) 2
               (read_chip K inspect_erom ep bar)))))"

text \<open>Standard sizing of a 64-bit BAR; the two halves are put back before the size is judged.\<close>

definition bar_size :: "u32 \<Rightarrow> u32 \<Rightarrow> u64" where
  "bar_size mask_low mask_high = NOT (push_bit 32 (ucast mask_high) OR ucast (mask_low AND NOT 0xf)) + 1"

definition size_bar0 :: "kernel \<Rightarrow> u64 \<Rightarrow> u32 \<Rightarrow> u32 \<Rightarrow> bool prog" where
  "size_bar0 K ep low high = do {
     writel K all_ones (ep + 0x10);
     writel K all_ones (ep + 0x14);
     mask_low \<leftarrow> readl K (ep + 0x10);
     mask_high \<leftarrow> readl K (ep + 0x14);
     writel K high (ep + 0x14);
     writel K low (ep + 0x10);
     l \<leftarrow> readl K (ep + 0x10);
     if l \<noteq> low then return False else do {
     h \<leftarrow> readl K (ep + 0x14);
     return (h = high \<and> bar_size mask_low mask_high = 0x8000)
     }
   }"

text \<open>The registers of the two devices that the snapshot saves.\<close>

record chip_state =
  cs_low :: u32
  cs_high :: u32
  cs_window :: u32
  cs_mem :: u32
  cs_rc_command :: u32
  cs_ep_command :: u32

definition save_chip :: "kernel \<Rightarrow> u64 \<Rightarrow> u64 \<Rightarrow> chip_state prog" where
  "save_chip K rc ep = do {
     low \<leftarrow> readl K (ep + 0x10);
     high \<leftarrow> readl K (ep + 0x14);
     window \<leftarrow> readl K (ep + 0x80);
     mem \<leftarrow> readl K (rc + 0x20);
     rc_command \<leftarrow> readw K (rc + 4);
     ep_command \<leftarrow> readw K (ep + 4);
     return \<lparr>cs_low = low, cs_high = high, cs_window = window, cs_mem = mem,
       cs_rc_command = rc_command, cs_ep_command = ep_command\<rparr>
   }"

definition chip_untouched :: "kernel \<Rightarrow> u64 \<Rightarrow> chip_state \<Rightarrow> bool prog" where
  "chip_untouched K ep c = do {
     id \<leftarrow> readl K ep;
     if id \<noteq> 0x43a314e4 then return False else do {
     revision \<leftarrow> readl K (ep + 8);
     return (revision = 0x02800008 \<and> cs_low c = 4 \<and> cs_high c = 0 \<and> cs_window c = 0x18003000 \<and>
       cs_mem c = 0 \<and> cs_rc_command c = 0 \<and> cs_ep_command c = 0)
     }
   }"

text \<open>The last comparison; reading stops at the first register that differs.\<close>

definition chip_restored :: "kernel \<Rightarrow> u64 \<Rightarrow> u64 \<Rightarrow> chip_state \<Rightarrow> bool prog" where
  "chip_restored K rc ep c = do {
     v \<leftarrow> readw K (ep + 4);
     if v \<noteq> cs_ep_command c then return False else do {
     v \<leftarrow> readw K (rc + 4);
     if v \<noteq> cs_rc_command c then return False else do {
     v \<leftarrow> readl K (ep + 0x80);
     if v \<noteq> cs_window c then return False else do {
     v \<leftarrow> readl K (ep + 0x14);
     if v \<noteq> cs_high c then return False else do {
     v \<leftarrow> readl K (ep + 0x10);
     if v \<noteq> cs_low c then return False else do {
     v \<leftarrow> readl K (rc + 0x20);
     return (v = cs_mem c)
     }}}}}
   }"

definition restore_chip :: "kernel \<Rightarrow> u64 \<Rightarrow> u64 \<Rightarrow> chip_state \<Rightarrow> int \<Rightarrow> int prog" where
  "restore_chip K rc ep c r = do {
     writew K (cs_ep_command c) (ep + 4);
     writew K (cs_rc_command c) (rc + 4);
     writel K (cs_window c) (ep + 0x80);
     writel K (cs_high c) (ep + 0x14);
     writel K (cs_low c) (ep + 0x10);
     writel K (cs_mem c) (rc + 0x20);
     same \<leftarrow> chip_restored K rc ep c;
     return (if same then r else - EIO)
   }"

abbreviation BAR0_BASE :: u64 where "BAR0_BASE \<equiv> 0x7c0000000"

text \<open>From the sizing of BAR 0 to the label \<open>restore\<close>: the status and the mapping, 0 for none.\<close>

definition look_at_chip :: "kernel \<Rightarrow> bool \<Rightarrow> u64 \<Rightarrow> u64 \<Rightarrow> chip_state \<Rightarrow> (int \<times> u64) prog" where
  "look_at_chip K inspect_erom rc ep c = do {
     fits \<leftarrow> size_bar0 K ep (cs_low c) (cs_high c);
     if \<not> fits then return (- EIO, 0) else do {
     bar \<leftarrow> ioremap K BAR0_BASE 0x1000;
     if bar = 0 then return (- ENOMEM, 0) else do {
     r \<leftarrow> map_chip K inspect_erom rc ep bar;
     return (r, bar)
     }}
   }"

definition snapshot_chip :: "kernel \<Rightarrow> bool \<Rightarrow> u64 \<Rightarrow> u64 \<Rightarrow> int prog" where
  "snapshot_chip K inspect_erom rc ep = do {
     owned \<leftarrow> request_mem_region K BAR0_BASE 0x8000;
     if \<not> owned then return (- EBUSY) else do {
     c \<leftarrow> save_chip K rc ep;
     untouched \<leftarrow> chip_untouched K ep c;
     (r, bar) \<leftarrow> (if \<not> untouched then return (- EBUSY, 0) else do {
          (r, bar) \<leftarrow> look_at_chip K inspect_erom rc ep c;
          r \<leftarrow> restore_chip K rc ep c r;
          return (r, bar)
        });
     pwhen (bar \<noteq> 0) (iounmap K bar);
     release_mem_region K BAR0_BASE 0x8000;
     return r
     }
   }"

section \<open>The endpoint\<close>

fun live_registers :: "kernel \<Rightarrow> u64 \<Rightarrow> u64 list \<Rightarrow> int prog" where
  "live_registers K base [] = return 0"
| "live_registers K base (off # offs) = do {
     v \<leftarrow> readl K (base + off);
     if v = all_ones then return (- ENODEV) else live_registers K base offs
   }"

definition endpoint_offsets :: "u64 list" where
  "endpoint_offsets = [0x10, 0x14, 0x18, 0x1c, 0x80]"

text \<open>
  From the configuration delay to the label \<open>out\<close>. The two reads in the arguments of the last
  \<open>pr_info\<close> are made from left to right.
\<close>

definition observe_endpoint :: "kernel \<Rightarrow> u64 \<Rightarrow> nat \<Rightarrow> options \<Rightarrow> u64 \<Rightarrow> u64 \<Rightarrow> int prog" where
  "observe_endpoint K hz fuel opt rc ep = do {
     msleep K 100;
     v \<leftarrow> readl K ep;
     if v AND 0xffff \<noteq> 0x14e4 then return (- ENODEV) else do {
     v \<leftarrow> readl K (ep + 8);
     if drop_bit 16 v \<noteq> 0x0280 then return (- ENODEV) else do {
     v \<leftarrow> readl K (ep + 4);
     if v = all_ones \<or> v AND 4 \<noteq> 0 then return (- ENODEV) else do {
     v \<leftarrow> readl K (ep + 0x2c);
     if v = all_ones then return (- ENODEV) else do {
     r \<leftarrow> live_registers K ep endpoint_offsets;
     if r \<noteq> 0 then return r else do {
     _ \<leftarrow> readw K (rc + 4);
     _ \<leftarrow> readl K (rc + 0x20);
     r \<leftarrow> (if o_identify_chip opt then snapshot_chip K (o_inspect_erom opt) rc ep else return 0);
     if r = 0 \<and> o_scan_pci opt then do {
       s \<leftarrow> get_machine;
       a1625_pci_scan K hz fuel rc ep (v_scan_dart s) (v_scan_msi_domain s) (o_assign_memory opt)
         (o_bind_firmware opt) (o_hold_seconds opt) (o_hold_until_signal opt)
     } else return r
     }}}}}
   }"

text \<open>The status and, if the bus numbers have been written, their former value.\<close>

definition route_and_observe :: "kernel \<Rightarrow> u64 \<Rightarrow> nat \<Rightarrow> options \<Rightarrow> u64 \<Rightarrow> u64 \<Rightarrow> (int \<times> u32 option) prog" where
  "route_and_observe K hz fuel opt rc ep = do {
     v \<leftarrow> readl K rc;
     if v \<noteq> 0x1002106b then return (- ENODEV, None) else do {
     v \<leftarrow> readl K (rc + 8);
     if v \<noteq> 0x06040001 then return (- ENODEV, None) else do {
     buses \<leftarrow> readl K (rc + 0x18);
     if buses = all_ones \<or> (buses AND 0xffffff \<noteq> 0 \<and> buses AND 0xffffff \<noteq> 0x010100) then return (- ENODEV, None)
     else if buses AND 0xffffff = 0 then do {
       writel K ((buses AND 0xff000000) OR 0x010100) (rc + 0x18);
       v \<leftarrow> readl K (rc + 0x18);
       r \<leftarrow> (if v \<noteq> ((buses AND 0xff000000) OR 0x010100) then return (- EIO)
            else observe_endpoint K hz fuel opt rc ep);
       return (r, Some buses)
     } else do {
       r \<leftarrow> observe_endpoint K hz fuel opt rc ep;
       return (r, None)
     }
     }}
   }"

definition restore_buses :: "kernel \<Rightarrow> u64 \<Rightarrow> u32 option \<Rightarrow> int \<Rightarrow> int prog" where
  "restore_buses K rc changed r =
     (case changed of
        None \<Rightarrow> return r
      | Some buses \<Rightarrow> do {
          v \<leftarrow> readl K (rc + 0x18);
          if v = all_ones then return (- EIO) else do {
          writel K buses (rc + 0x18);
          v \<leftarrow> readl K (rc + 0x18);
          return (if v \<noteq> buses then - EIO else r)
          }
        })"

definition snapshot_endpoint :: "kernel \<Rightarrow> u64 \<Rightarrow> nat \<Rightarrow> options \<Rightarrow> int prog" where
  "snapshot_endpoint K hz fuel opt = do {
     rc_owned \<leftarrow> request_mem_region K RC_CFG 0x1000;
     if \<not> rc_owned then return (- EBUSY) else do {
     ep_owned \<leftarrow> request_mem_region K EP_CFG 0x1000;
     r \<leftarrow> (if \<not> ep_owned then return (- EBUSY) else do {
            rc \<leftarrow> ioremap K RC_CFG 0x1000;
            ep \<leftarrow> ioremap K EP_CFG 0x1000;
            r \<leftarrow> (if rc = 0 \<or> ep = 0 then return (- ENOMEM) else do {
                   (r, changed) \<leftarrow> route_and_observe K hz fuel opt rc ep;
                   restore_buses K rc changed r
                 });
            pwhen (ep \<noteq> 0) (iounmap K ep);
            pwhen (rc \<noteq> 0) (iounmap K rc);
            release_mem_region K EP_CFG 0x1000;
            return r
          });
     release_mem_region K RC_CFG 0x1000;
     return r
     }
   }"

section \<open>The powered radio\<close>

text \<open>From the release of PERST to the label \<open>stop_link\<close> and its rollback of the link control.\<close>

definition stop_link :: "kernel \<Rightarrow> u64 \<Rightarrow> u32 \<Rightarrow> int \<Rightarrow> int prog" where
  "stop_link K port control r = do {
     status \<leftarrow> readl K (port + 0x80);
     if status \<noteq> all_ones then do {
       writel K control (port + 0x80);
       v \<leftarrow> readl K (port + 0x80);
       return (if v \<noteq> control then - EIO else r)
     } else return (- ENODEV)
   }"

definition train_and_identify :: "kernel \<Rightarrow> u64 \<Rightarrow> nat \<Rightarrow> options \<Rightarrow> u64 \<Rightarrow> u32 \<Rightarrow> int prog" where
  "train_and_identify K hz fuel opt port control = do {
     writel K (control OR 1) (port + 0x80);
     status \<leftarrow> readl K (port + 0x80);
     r \<leftarrow> (if status \<noteq> (control OR 1) then return (- EIO) else do {
            (r, status) \<leftarrow> readl_poll_timeout K (port + 0x88) (\<lambda>v. v = all_ones \<or> v AND 1 \<noteq> 0) 1000 500000;
            let r = (if status = all_ones then - ENODEV else r);
            if r = 0 \<and> o_identify_endpoint opt then snapshot_endpoint K hz fuel opt else return r
          });
     stop_link K port control r
   }"

definition observe_held_radio :: "kernel \<Rightarrow> u64 \<Rightarrow> nat \<Rightarrow> options \<Rightarrow> observer" where
  "observe_held_radio K hz fuel opt port reset gpio_map = do {
     control \<leftarrow> readl K (port + 0x80);
     if control = all_ones \<or> control AND 1 \<noteq> 0 then return (- EIO) else do {
     status \<leftarrow> readl K (port + 0x88);
     if status = all_ones \<or> status AND 1 \<noteq> 0 then return (- EIO)
     else if \<not> o_train_link opt then return 0 else do {
     r \<leftarrow> read_equal K gpio_map PIN_CLKREQ 0x76220;
     if r \<noteq> 0 then return r else do {
     r \<leftarrow> gpiod_direction_output_raw K reset 1;
     r \<leftarrow> (if r \<noteq> 0 then return r else do {
            r \<leftarrow> read_equal K gpio_map PIN_PERST 0x76203;
            if r \<noteq> 0 then return r else train_and_identify K hz fuel opt port control
          });
     cleanup \<leftarrow> gpiod_direction_output_raw K reset 0;
     cleanup \<leftarrow> (if cleanup = 0 then read_equal K gpio_map PIN_PERST 0x76202 else return cleanup);
     return (if cleanup \<noteq> 0 then cleanup else r)
     }}}
   }"

end
