(* ===== verification/PowerDomains.thy ===== *)
theory PowerDomains
  imports Board
begin

text \<open>
  a1625_pcie_domains.h: a bounded lifetime of the three PCIe power domains. Temporary platform
  devices are attached to the existing genpd providers and resumed; a callback runs while all
  three are on; everything is released in reverse order and the domains are read back.
\<close>

section \<open>Model\<close>

text \<open>\<open>struct domain_probe\<close>.\<close>

record domain_probe =
  dp_path :: string
  dp_offset :: u32
  dp_consumer :: ptr
  dp_attached :: bool
  dp_resumed :: bool
  dp_forced :: bool
  dp_saved_auto :: u32

definition new_domain :: "string \<Rightarrow> u32 \<Rightarrow> domain_probe" where
  "new_domain path off = \<lparr>dp_path = path, dp_offset = off, dp_consumer = 0, dp_attached = False,
     dp_resumed = False, dp_forced = False, dp_saved_auto = 0\<rparr>"

definition pcie_domains :: "domain_probe list" where
  "pcie_domains =
    [new_domain ''/soc/power-management@20e000000/power-controller@20308'' 0x20308,
     new_domain ''/soc/power-management@20e000000/power-controller@20310'' 0x20310,
     new_domain ''/soc/power-management@20e000000/power-controller@20220'' 0x20220]"

text \<open>AUTO (28), RESET (31), and the target/actual state bits that an idle domain has clear.\<close>

abbreviation PS_BUSY_MASK :: u32 where "PS_BUSY_MASK \<equiv> 0x900004ff"

fun check_baseline :: "kernel \<Rightarrow> ptr \<Rightarrow> bool \<Rightarrow> domain_probe list \<Rightarrow> int prog" where
  "check_baseline K m cycle [] = return 0"
| "check_baseline K m cycle (d # ds) = do {
     (r, reg) \<leftarrow> regmap_read K m (dp_offset d);
     if r \<noteq> 0 then return r
     else if cycle \<and> reg AND PS_BUSY_MASK \<noteq> 0 then return (- EBUSY)
     else check_baseline K m cycle ds
   }"

text \<open>The three acquisition loops return the status and the array as they leave it.\<close>

fun attach_domains :: "kernel \<Rightarrow> u32 \<Rightarrow> domain_probe list \<Rightarrow> (int \<times> domain_probe list) prog" where
  "attach_domains K i [] = return (0, [])"
| "attach_domains K i (d # ds) = do {
     np \<leftarrow> of_find_node_by_path K (dp_path d);
     if np = 0 then return (- ENODEV, d # ds) else do {
     compat \<leftarrow> of_device_is_compatible K np ''apple,t7000-pmgr-pwrstate'';
     if \<not> compat then do { of_node_put K np; return (- ENODEV, d # ds) } else do {
     consumer \<leftarrow> val_call K (Dev (PlatformDeviceRegisterSimple ''a1625-pcie-domain-probe'' i));
     if IS_ERR consumer then do {
       of_node_put K np;
       return (PTR_ERR consumer, d\<lparr>dp_consumer := 0\<rparr> # ds)
     } else do {
     r \<leftarrow> int_call K (Pm (OfGenpdAddDevice np consumer));
     of_node_put K np;
     if r \<noteq> 0 then return (r, d\<lparr>dp_consumer := consumer\<rparr> # ds) else do {
     do_call K (Pm (PmRuntimeEnable consumer));
     (r, ds') \<leftarrow> attach_domains K (i + 1) ds;
     return (r, d\<lparr>dp_consumer := consumer, dp_attached := True\<rparr> # ds')
     }}}}
   }"

fun resume_domains :: "kernel \<Rightarrow> ptr \<Rightarrow> domain_probe list \<Rightarrow> (int \<times> domain_probe list) prog" where
  "resume_domains K m [] = return (0, [])"
| "resume_domains K m (d # ds) = do {
     r \<leftarrow> int_call K (Pm (PmRuntimeResumeAndGet (dp_consumer d)));
     if r < 0 then return (r, d # ds) else do {
     (r, reg) \<leftarrow> regmap_read K m (dp_offset d);
     if r \<noteq> 0 then return (r, d\<lparr>dp_resumed := True\<rparr> # ds)
     else if reg AND 0xf \<noteq> 0xf \<or> reg AND 0x80000400 \<noteq> 0 then return (- EIO, d\<lparr>dp_resumed := True\<rparr> # ds)
     else do {
       (r, ds') \<leftarrow> resume_domains K m ds;
       return (r, d\<lparr>dp_resumed := True\<rparr> # ds')
     }}
   }"

abbreviation PS_AUTO_MASK :: u32 where "PS_AUTO_MASK \<equiv> BIT 28 OR BIT 9 OR BIT 8"

fun force_domains :: "kernel \<Rightarrow> ptr \<Rightarrow> domain_probe list \<Rightarrow> (int \<times> domain_probe list) prog" where
  "force_domains K m [] = return (0, [])"
| "force_domains K m (d # ds) = do {
     (r, reg) \<leftarrow> regmap_read K m (dp_offset d);
     if r \<noteq> 0 then return (r, d # ds) else do {
     let d1 = d\<lparr>dp_saved_auto := reg AND BIT 28, dp_forced := True\<rparr>;
     r \<leftarrow> regmap_update_bits K m (dp_offset d) PS_AUTO_MASK 0;
     if r \<noteq> 0 then return (r, d1 # ds) else do {
     (r, reg) \<leftarrow> regmap_read_poll_timeout K m (dp_offset d) (\<lambda>reg. reg AND 0xff = 0xff) 10 10000;
     if r \<noteq> 0 then return (r, d1 # ds) else do {
     (r, ds') \<leftarrow> force_domains K m ds;
     return (r, d1 # ds')
     }}}
   }"

text \<open>The \<open>release\<close> loop runs from the last domain to the first; the list is given reversed.\<close>

definition release_domain :: "kernel \<Rightarrow> ptr \<Rightarrow> domain_probe \<Rightarrow> int \<Rightarrow> int prog" where
  "release_domain K m d r0 =
     (if dp_consumer d = 0 then return r0 else do {
        r \<leftarrow> (if dp_forced d then do {
               cleanup \<leftarrow> regmap_update_bits K m (dp_offset d) PS_AUTO_MASK (dp_saved_auto d);
               return (if cleanup \<noteq> 0 then cleanup else r0)
             } else return r0);
        r \<leftarrow> (if dp_resumed d then do {
               cleanup \<leftarrow> int_call K (Pm (PmRuntimePutSyncSuspend (dp_consumer d)));
               return (if cleanup < 0 then cleanup else r)
             } else return r);
        if dp_attached d then do {
          do_call K (Pm (PmRuntimeDisable (dp_consumer d)));
          cleanup \<leftarrow> int_call K (Pm (PmGenpdRemoveDevice (dp_consumer d)));
          if cleanup \<noteq> 0 then return cleanup
          else do { do_call K (Dev (PlatformDeviceUnregister (dp_consumer d))); return r }
        } else do { do_call K (Dev (PlatformDeviceUnregister (dp_consumer d))); return r }
      })"

fun release_domains :: "kernel \<Rightarrow> ptr \<Rightarrow> domain_probe list \<Rightarrow> int \<Rightarrow> int prog" where
  "release_domains K m [] r = return r"
| "release_domains K m (d # ds) r = do {
     r \<leftarrow> release_domain K m d r;
     release_domains K m ds r
   }"

fun verify_released :: "kernel \<Rightarrow> ptr \<Rightarrow> domain_probe list \<Rightarrow> int \<Rightarrow> int prog" where
  "verify_released K m [] r0 = return r0"
| "verify_released K m (d # ds) r0 = do {
     (cleanup, reg) \<leftarrow> regmap_read K m (dp_offset d);
     if cleanup \<noteq> 0 then verify_released K m ds cleanup
     else if reg AND PS_BUSY_MASK \<noteq> 0 then verify_released K m ds (- EIO)
     else verify_released K m ds r0
   }"

text \<open>From the attach loop to the \<open>release\<close> label: acquire, run the callback while all are on.\<close>

definition acquire_and_operate ::
  "kernel \<Rightarrow> ptr \<Rightarrow> bool \<Rightarrow> (u64 \<Rightarrow> int prog) option \<Rightarrow> u64 \<Rightarrow> (int \<times> domain_probe list) prog" where
  "acquire_and_operate K m force_active operate context = do {
     (r, ds) \<leftarrow> attach_domains K 0 pcie_domains;
     if r \<noteq> 0 then return (r, ds) else do {
     (r, ds) \<leftarrow> resume_domains K m ds;
     if r \<noteq> 0 then return (r, ds) else do {
     (r, ds) \<leftarrow> (if force_active then force_domains K m ds else return (r, ds));
     if r \<noteq> 0 then return (r, ds) else
     case operate of
       None \<Rightarrow> return (r, ds)
     | Some f \<Rightarrow> do { r \<leftarrow> f context; return (r, ds) }
     }}
   }"

definition a1625_with_pcie_domains ::
  "kernel \<Rightarrow> bool \<Rightarrow> bool \<Rightarrow> (u64 \<Rightarrow> int prog) option \<Rightarrow> u64 \<Rightarrow> int prog" where
  "a1625_with_pcie_domains K cycle force_active operate context =
     (if \<not> cycle \<and> (force_active \<or> \<not> Option.is_none operate) then return (- EINVAL) else do {
      board \<leftarrow> is_j42d_t7000 K;
      if \<not> board then return (- ENODEV) else do {
      node \<leftarrow> of_find_node_by_path K ''/soc/power-management@20e000000'';
      if node = 0 then return (- ENODEV) else do {
      compat \<leftarrow> of_device_is_compatible K node ''apple,t7000-pmgr'';
      if \<not> compat then do { of_node_put K node; return (- ENODEV) } else do {
      m \<leftarrow> syscon_node_to_regmap K node;
      of_node_put K node;
      if IS_ERR m then return (PTR_ERR m) else do {
      r \<leftarrow> check_baseline K m cycle pcie_domains;
      if r \<noteq> 0 \<or> \<not> cycle then return r else do {
      (r, ds) \<leftarrow> acquire_and_operate K m force_active operate context;
      r \<leftarrow> release_domains K m (rev ds) r;
      verify_released K m ds r
      }}}}}})"

section \<open>What the array holds\<close>

definition owned1 :: "domain_probe \<Rightarrow> resource \<Rightarrow> int" where
  "owned1 d x =
     (if dp_consumer d = 0 then 0 else unit_at (Some (PlatDev (dp_consumer d))) x) +
     (if dp_attached d then unit_at (Some (PmAttached (dp_consumer d))) x + unit_at (Some (PmEnabled (dp_consumer d))) x
      else 0) +
     (if dp_resumed d then unit_at (Some (PmUse (dp_consumer d))) x else 0)"

definition owned :: "domain_probe list \<Rightarrow> resource \<Rightarrow> int" where
  "owned ds x = sum_list (map (\<lambda>d. owned1 d x) ds)"

lemma owned_simps [simp]:
  "owned [] x = 0" "owned (d # ds) x = owned1 d x + owned ds x" "owned (rev ds) x = owned ds x"
  by (simp_all add: owned_def rev_map [symmetric])

text \<open>Stages of a domain: untouched, attached, resumed.\<close>

definition fresh :: "domain_probe \<Rightarrow> bool" where
  "fresh d \<longleftrightarrow> dp_consumer d = 0 \<and> \<not> dp_attached d \<and> \<not> dp_resumed d \<and> \<not> dp_forced d"

definition wf_domain :: "domain_probe \<Rightarrow> bool" where
  "wf_domain d \<longleftrightarrow> (dp_attached d \<longrightarrow> dp_consumer d \<noteq> 0) \<and> (dp_resumed d \<longrightarrow> dp_attached d) \<and> (dp_forced d \<longrightarrow> dp_resumed d)"

lemma pcie_domains_fresh: "list_all fresh pcie_domains"
  by (simp add: pcie_domains_def new_domain_def fresh_def)

lemma fresh_domain [simp]:
  assumes "fresh d"
  shows "wf_domain d" "\<not> dp_resumed d" "\<not> dp_forced d" "owned1 d x = 0"
    "wf_domain (d\<lparr>dp_consumer := c\<rparr>)"
    "c \<noteq> 0 \<Longrightarrow> wf_domain (d\<lparr>dp_consumer := c, dp_attached := True\<rparr>)"
    "owned1 (d\<lparr>dp_consumer := c\<rparr>) x = (if c = 0 then 0 else unit_at (Some (PlatDev c)) x)"
    "c \<noteq> 0 \<Longrightarrow> owned1 (d\<lparr>dp_consumer := c, dp_attached := True\<rparr>) x = unit_at (Some (PlatDev c)) x +
       unit_at (Some (PmAttached c)) x + unit_at (Some (PmEnabled c)) x"
  using assms by (auto simp: fresh_def wf_domain_def owned1_def)

lemma fresh_domains [simp]:
  assumes "list_all fresh ds"
  shows "list_all wf_domain ds" "list_all (\<lambda>d. \<not> dp_resumed d \<and> \<not> dp_forced d) ds" "owned ds x = 0"
  using assms by (induction ds) auto

text \<open>\<open>platform_device_register_simple\<close> returns a device or an error pointer, never \<open>NULL\<close>.\<close>

definition registers_nonnull :: "kernel \<Rightarrow> bool" where
  "registers_nonnull K \<longleftrightarrow> (\<forall>t n i. r_val (K t (Dev (PlatformDeviceRegisterSimple n i))) \<noteq> 0)"

lemma wp_register:
  assumes "registers_nonnull K"
    and "\<And>r. r_val r \<noteq> 0 \<Longrightarrow> Q (r_val r) (s\<lparr>trace := Call (Dev (PlatformDeviceRegisterSimple n i)) r # trace s\<rparr>)"
  shows "wp (val_call K (Dev (PlatformDeviceRegisterSimple n i))) Q s"
  using assms unfolding registers_nonnull_def
  by (simp add: wp_def val_call_def kcall_def Let_def)

lemma wp_attach_domains:
  assumes "registers_nonnull K" "list_all fresh ds"
    and "\<And>r ds' s'. list_all wf_domain ds' \<Longrightarrow> (r = 0 \<Longrightarrow> list_all dp_attached ds')
      \<Longrightarrow> list_all (\<lambda>d. \<not> dp_resumed d \<and> \<not> dp_forced d) ds'
      \<Longrightarrow> (\<And>x. held (trace s') x = held (trace s) x + owned ds' x) \<Longrightarrow> Q (r, ds') s'"
  shows "wp (attach_domains K i ds) Q s"
  using assms(2,3)
proof (induction ds arbitrary: i s Q)
  case Nil
  then show ?case by (auto intro!: wp_rules)
next
  case (Cons d ds)
  from Cons.prems(1) have d: "fresh d" and ds: "list_all fresh ds" by auto
  show ?case
    unfolding attach_domains.simps using d ds
    by (intro wp_register [OF assms(1)] wp_rules Cons.IH [OF ds] Cons.prems(2))
      (auto simp: unless_null_def PTR_ERR_nonzero)
qed

lemma wp_resume_domains:
  assumes "list_all wf_domain ds" "list_all dp_attached ds"
    and "list_all (\<lambda>d. \<not> dp_resumed d \<and> \<not> dp_forced d) ds"
    and "\<And>r ds' s'. list_all wf_domain ds' \<Longrightarrow> (r = 0 \<Longrightarrow> list_all dp_resumed ds')
      \<Longrightarrow> list_all (\<lambda>d. \<not> dp_forced d) ds'
      \<Longrightarrow> (\<And>x. held (trace s') x = held (trace s) x + owned ds' x - owned ds x) \<Longrightarrow> Q (r, ds') s'"
  shows "wp (resume_domains K m ds) Q s"
  using assms
proof (induction ds arbitrary: s Q)
  case Nil
  then show ?case by (auto intro!: wp_rules)
next
  case (Cons d ds)
  from Cons.prems(1-3) have ds: "list_all wf_domain ds" "list_all dp_attached ds"
    "list_all (\<lambda>d. \<not> dp_resumed d \<and> \<not> dp_forced d) ds"
    and d: "wf_domain d" "dp_attached d" "\<not> dp_resumed d" "\<not> dp_forced d" by auto
  have weak: "list_all (\<lambda>d. \<not> dp_forced d) ds"
    using ds(3) by (simp add: list_all_iff)
  have upd: "wf_domain (d\<lparr>dp_resumed := True\<rparr>)"
    "\<And>x. owned1 (d\<lparr>dp_resumed := True\<rparr>) x = owned1 d x + unit_at (Some (PmUse (dp_consumer d))) x"
    using d by (auto simp: wf_domain_def owned1_def)
  show ?case
    unfolding resume_domains.simps using d ds weak
    by (intro wp_rules Cons.IH [OF ds] Cons.prems(4)) (auto simp: upd)
qed

lemma wp_force_domains:
  assumes "list_all wf_domain ds" "list_all dp_resumed ds"
    and "\<And>r ds' s'. list_all wf_domain ds'
      \<Longrightarrow> (\<And>x. held (trace s') x = held (trace s) x + owned ds' x - owned ds x) \<Longrightarrow> Q (r, ds') s'"
  shows "wp (force_domains K m ds) Q s"
  using assms
proof (induction ds arbitrary: s Q)
  case Nil
  then show ?case by (auto intro!: wp_rules)
next
  case (Cons d ds)
  from Cons.prems(1,2) have ds: "list_all wf_domain ds" "list_all dp_resumed ds"
    and d: "wf_domain d" "dp_resumed d" by auto
  have upd: "wf_domain (d\<lparr>dp_saved_auto := v, dp_forced := True\<rparr>)"
    "\<And>x. owned1 (d\<lparr>dp_saved_auto := v, dp_forced := True\<rparr>) x = owned1 d x" for v
    using d by (auto simp: wf_domain_def owned1_def)
  show ?case
    unfolding force_domains.simps using d ds
    by (intro wp_rules Cons.IH [OF ds] Cons.prems(3)) (auto simp: upd)
qed

text \<open>
  A consumer whose detach failed is retained on purpose; everything else is given back, and a
  retained device is always one that is still attached.
\<close>

definition domain_retained :: "resource \<Rightarrow> bool" where
  "domain_retained x \<longleftrightarrow> (case x of PmAttached _ \<Rightarrow> True | PlatDev _ \<Rightarrow> True | _ \<Rightarrow> False)"

definition gap :: "event list \<Rightarrow> ptr \<Rightarrow> int" where
  "gap t c = held t (PlatDev c) - held t (PmAttached c)"

definition owned_gap :: "domain_probe list \<Rightarrow> ptr \<Rightarrow> int" where
  "owned_gap ds c = owned ds (PlatDev c) - owned ds (PmAttached c)"

lemma wp_release_domain:
  assumes "wf_domain d"
    and "\<And>r s'. (\<And>x. \<not> domain_retained x \<Longrightarrow> held (trace s') x = held (trace s) x - owned1 d x)
      \<Longrightarrow> (\<And>c. gap (trace s') c = gap (trace s) c - owned_gap [d] c) \<Longrightarrow> Q r s'"
  shows "wp (release_domain K m d r0) Q s"
  unfolding release_domain_def using assms(1)
  by (intro wp_rules assms(2))
    (auto simp: owned1_def wf_domain_def domain_retained_def gap_def owned_gap_def split: if_splits)

lemma wp_release_domains:
  assumes "list_all wf_domain ds"
    and "\<And>r s'. (\<And>x. \<not> domain_retained x \<Longrightarrow> held (trace s') x = held (trace s) x - owned ds x)
      \<Longrightarrow> (\<And>c. gap (trace s') c = gap (trace s) c - owned_gap ds c) \<Longrightarrow> Q r s'"
  shows "wp (release_domains K m ds r0) Q s"
  using assms
proof (induction ds arbitrary: r0 s Q)
  case Nil
  then show ?case by (auto intro!: wp_rules simp: owned_gap_def)
next
  case (Cons d ds)
  from Cons.prems(1) have d: "wf_domain d" and ds: "list_all wf_domain ds" by auto
  show ?case
    unfolding release_domains.simps
    by (intro wp_rules wp_release_domain [OF d] Cons.IH [OF ds] Cons.prems(2)) (auto simp: owned_gap_def)
qed

lemma verify_released_emits [emits_rules]:
  "(\<And>q r. P (Call (Regmap (RegmapRead m q)) r)) \<Longrightarrow> emits P (verify_released K m ds r0)"
  by (induction ds arbitrary: r0) (auto intro!: emits_rules)

lemma check_baseline_emits [emits_rules]:
  "(\<And>q r. P (Call (Regmap (RegmapRead m q)) r)) \<Longrightarrow> emits P (check_baseline K m cycle ds)"
  by (induction ds) (auto intro!: emits_rules)

lemma wp_acquire_and_operate:
  assumes K: "registers_nonnull K"
    and Q: "\<And>r ds t. list_all wf_domain ds \<Longrightarrow> (\<And>x. held (trace t) x = held (trace s) x + owned ds x) \<Longrightarrow> Q (r, ds) t"
    and op: "\<And>f ds t. operate = Some f \<Longrightarrow> list_all wf_domain ds
      \<Longrightarrow> (\<And>x. held (trace t) x = held (trace s) x + owned ds x) \<Longrightarrow> wp (f context) (\<lambda>r. Q (r, ds)) t"
  shows "wp (acquire_and_operate K m force_active operate context) Q s"
proof (cases operate)
  case None
  show ?thesis
    unfolding acquire_and_operate_def None option.case
    by (intro wp_rules wp_attach_domains [OF K pcie_domains_fresh] wp_resume_domains wp_force_domains Q) auto
next
  case (Some f)
  have f: "wp (f context) (\<lambda>r. wp (return (r, ds)) Q) t"
    if "list_all wf_domain ds" "\<And>x. held (trace t) x = held (trace s) x + owned ds x" for ds t
    by (rule wp_mono [OF op [OF Some that]]) (rule wp_return)
  show ?thesis
    unfolding acquire_and_operate_def Some option.case
    by (intro wp_rules wp_attach_domains [OF K pcie_domains_fresh] wp_resume_domains wp_force_domains Q f) auto
qed

section \<open>Nothing leaks\<close>

lemma domain_reads_neutral:
  "emits neutral (verify_released K m ds r)" "emits neutral (check_baseline K m cycle ds)"
  by (intro emits_rules, simp add: neutral_def)+

text \<open>The steps after the callback: release in reverse order, then read the domains back.\<close>

lemma wp_release_verify:
  assumes "list_all wf_domain ds"
    and "\<And>r s'. (\<And>x. \<not> domain_retained x \<Longrightarrow> held (trace s') x = held (trace t) x - owned ds x)
      \<Longrightarrow> (\<And>c. gap (trace s') c = gap (trace t) c - owned_gap ds c) \<Longrightarrow> Q r s'"
  shows "wp (release_domains K m (rev ds) r) (\<lambda>r. wp (verify_released K m ds r) Q) t"
proof -
  have wf: "list_all wf_domain (rev ds)" using assms(1) by simp
  show ?thesis
    by (intro wp_release_domains [OF wf] wp_neutral [OF domain_reads_neutral(1)] assms(2))
      (simp_all add: gap_def owned_gap_def)
qed

text \<open>
  A resource count \<open>h\<close> that the callback preserves and that the array accounts for by \<open>own\<close> is the
  same after the lifetime: either the count of one resource, or the gap between registered and
  attached consumers.
\<close>

lemma wp_domain_cycle:
  assumes K: "registers_nonnull K"
    and op: "\<And>f s. operate = Some f \<Longrightarrow> wp (f context) (\<lambda>_ s'. h (held (trace s')) = h (held (trace s))) s"
    and acc: "\<And>ds t t'. (\<And>x. held t' x = held t x + owned ds x) \<Longrightarrow> h (held t') = h (held t) + own ds"
    and rel: "\<And>ds t t'. (\<And>x. \<not> domain_retained x \<Longrightarrow> held t' x = held t x - owned ds x)
      \<Longrightarrow> (\<And>c. gap t' c = gap t c - owned_gap ds c) \<Longrightarrow> h (held t') = h (held t) - own ds"
    and Q: "\<And>r s'. h (held (trace s')) = (h (held (trace s)) :: int) \<Longrightarrow> Q r s'"
  shows "wp (acquire_and_operate K m force_active operate context)
    (\<lambda>(r, ds). wp (release_domains K m (rev ds) r) (\<lambda>r. wp (verify_released K m ds r) Q)) s"
proof (rule wp_acquire_and_operate [OF K], unfold prod.case)
  have rest: "wp (release_domains K m (rev ds) r) (\<lambda>r. wp (verify_released K m ds r) Q) t"
    if "list_all wf_domain ds" "h (held (trace t)) = h (held (trace s)) + own ds" for ds r and t :: machine
    proof (rule wp_release_verify)
    show "list_all wf_domain ds" by (rule that)
    fix r and s' :: machine
    assume "\<And>x. \<not> domain_retained x \<Longrightarrow> held (trace s') x = held (trace t) x - owned ds x"
      and "\<And>c. gap (trace s') c = gap (trace t) c - owned_gap ds c"
    note rel [OF this]
    with that(2) show "Q r s'" by (intro Q) simp
  qed
  fix ds and t :: machine
  assume ds: "list_all wf_domain ds" and t: "\<And>x. held (trace t) x = held (trace s) x + owned ds x"
  note t' = acc [OF t]
  show "wp (release_domains K m (rev ds) r) (\<lambda>r. wp (verify_released K m ds r) Q) t" for r
    by (rule rest [OF ds t'])
  show "wp (f context) (\<lambda>r. wp (release_domains K m (rev ds) r) (\<lambda>r. wp (verify_released K m ds r) Q)) t"
    if "operate = Some f" for f
    by (rule wp_mono [OF op [OF that]], rule rest [OF ds]) (simp add: t')
qed

lemma wp_pcie_domains:
  assumes K: "registers_nonnull K"
    and op: "\<And>f s. operate = Some f \<Longrightarrow> wp (f context) (\<lambda>_ s'. h (held (trace s')) = h (held (trace s))) s"
    and acc: "\<And>ds t t'. (\<And>x. held t' x = held t x + owned ds x) \<Longrightarrow> h (held t') = h (held t) + own ds"
    and rel: "\<And>ds t t'. (\<And>x. \<not> domain_retained x \<Longrightarrow> held t' x = held t x - owned ds x)
      \<Longrightarrow> (\<And>c. gap t' c = gap t c - owned_gap ds c) \<Longrightarrow> h (held t') = h (held t) - own ds"
  shows "wp (a1625_with_pcie_domains K cycle force_active operate context)
    (\<lambda>_ s'. h (held (trace s')) = (h (held (trace s)) :: int)) s"
  unfolding a1625_with_pcie_domains_def
  by (intro wp_neutral [OF is_j42d_t7000_neutral] wp_neutral [OF domain_reads_neutral(2)]
      wp_domain_cycle [OF K op acc rel, THEN wp_mono] wp_rules)
    (auto simp: unless_null_def intro!: arg_cong [where f=h] ext)

lemma pcie_domains_keeps:
  assumes K: "registers_nonnull K" and x: "\<not> domain_retained x"
    and op: "\<And>a. keeps x (client1 operate a)"
  shows "keeps x (a1625_with_pcie_domains K cycle force_active operate context)"
proof (rule keepsI)
  fix s
  have f: "keeps x (f a)" if "operate = Some f" for f a
    using op unfolding that by (rule client1_keeps)
  show "wp (a1625_with_pcie_domains K cycle force_active operate context)
    (\<lambda>_ s'. held (trace s') x = held (trace s) x) s"
    by (rule wp_pcie_domains [OF K, where h = "\<lambda>f. f x" and own = "\<lambda>ds. owned ds x"])
      (use x f in \<open>auto simp: keeps_def\<close>)
qed

lemma pcie_domains_keeps_gap:
  assumes K: "registers_nonnull K"
    and op: "\<And>f. operate = Some f \<Longrightarrow> keeps (PlatDev c) (f context)"
    "\<And>f. operate = Some f \<Longrightarrow> keeps (PmAttached c) (f context)"
  shows "wp (a1625_with_pcie_domains K cycle force_active operate context)
    (\<lambda>_ s'. gap (trace s') c = gap (trace s) c) s"
  unfolding gap_def
  by (rule wp_pcie_domains [OF K, where h = "\<lambda>f. f (PlatDev c) - f (PmAttached c)" and own = "\<lambda>ds. owned_gap ds c"])
    (use op in \<open>auto simp: owned_gap_def gap_def keeps_def wp_def split: prod.splits\<close>)

interpretation domains: lifetime
  "\<lambda>operate. a1625_with_pcie_domains K cycle force_active operate ctx" client1
  "\<lambda>x. domain_retained x \<or> \<not> registers_nonnull K" for K cycle force_active ctx
  by unfold_locales (rule pcie_domains_keeps; simp)

section \<open>The callback runs on powered hardware\<close>

text \<open>
  \<open>domain_uses\<close> counts the consumers that are resumed; \<open>domain_up q\<close> says that the last evidence
  about the power-state register \<open>q\<close> shows an active target, and no consumer was suspended since.
\<close>

fun domain_uses :: "event list \<Rightarrow> int" where
  "domain_uses [] = 0"
| "domain_uses (e # t) =
     (case e of
        Call (Pm (PmRuntimeResumeAndGet d)) r \<Rightarrow> if r_ret r < 0 then domain_uses t else domain_uses t + 1
      | Call (Pm (PmRuntimePutSyncSuspend d)) r \<Rightarrow> domain_uses t - 1
      | _ \<Rightarrow> domain_uses t)"

definition active_state :: "resp \<Rightarrow> bool" where
  "active_state r \<longleftrightarrow> r_ret r = 0 \<and> (ucast (r_val r) :: u32) AND 0xf = 0xf"

fun domain_up :: "u32 \<Rightarrow> event list \<Rightarrow> bool" where
  "domain_up q [] = False"
| "domain_up q (e # t) =
     (case e of
        Call (Regmap (RegmapRead m p)) r \<Rightarrow> if p = q then active_state r else domain_up q t
      | Call (Regmap (RegmapReadPollTimeout m p a b)) r \<Rightarrow> if p = q then active_state r else domain_up q t
      | Call (Regmap (RegmapWrite m p v)) r \<Rightarrow> p \<noteq> q \<and> domain_up q t
      | Call (Pm (PmRuntimePutSyncSuspend d)) r \<Rightarrow> False
      | _ \<Rightarrow> domain_up q t)"

definition domain_offsets :: "u32 list" where
  "domain_offsets = [0x20308, 0x20310, 0x20220]"

definition pcie_powered :: "event list \<Rightarrow> bool" where
  "pcie_powered t \<longleftrightarrow> domain_uses t = 3 \<and> (\<forall>q \<in> set domain_offsets. domain_up q t)"

text \<open>No access to a register of the PCIe blocks unless all three domains are up.\<close>

definition mmio_access :: "event \<Rightarrow> bool" where
  "mmio_access e \<longleftrightarrow> (case e of Call (Mmio c) _ \<Rightarrow>
     (case c of Ioremap _ _ \<Rightarrow> False | Iounmap _ \<Rightarrow> False | RequestMemRegion _ _ \<Rightarrow> False
      | ReleaseMemRegion _ _ \<Rightarrow> False | _ \<Rightarrow> True) | _ \<Rightarrow> False)"

fun power_guarded :: "event list \<Rightarrow> bool" where
  "power_guarded [] = True"
| "power_guarded (e # t) = (power_guarded t \<and> (mmio_access e \<longrightarrow> pcie_powered t))"

text \<open>Events that concern the power domains: a callback has none of them.\<close>

definition power_event :: "event \<Rightarrow> bool" where
  "power_event e \<longleftrightarrow> (case e of Call (Pm _) _ \<Rightarrow> True
     | Call (Regmap c) _ \<Rightarrow>
         (case c of RegmapRead m q \<Rightarrow> q \<in> set domain_offsets
          | RegmapReadPollTimeout m q a b \<Rightarrow> q \<in> set domain_offsets
          | RegmapWrite m q v \<Rightarrow> q \<in> set domain_offsets
          | RegmapUpdateBits m q k v \<Rightarrow> q \<in> set domain_offsets
          | _ \<Rightarrow> False)
     | _ \<Rightarrow> False)"

lemma power_frame:
  assumes "list_all (\<lambda>e. \<not> power_event e) new"
  shows "domain_uses (new @ t) = domain_uses t"
    "q \<in> set domain_offsets \<Longrightarrow> domain_up q (new @ t) = domain_up q t"
  using assms
  by (induction new) (auto simp: power_event_def split: event.splits call.splits regmap_call.splits)

lemma powered_frame: "list_all (\<lambda>e. \<not> power_event e) new \<Longrightarrow> pcie_powered (new @ t) = pcie_powered t"
  by (simp add: pcie_powered_def power_frame)

lemma guarded_powered:
  "list_all (\<lambda>e. \<not> power_event e) new \<Longrightarrow> pcie_powered t \<Longrightarrow> power_guarded (new @ t) = power_guarded t"
  by (induction new) (simp_all add: powered_frame)

lemma guarded_silent:
  "list_all (\<lambda>e. \<not> mmio_access e) new \<Longrightarrow> power_guarded (new @ t) = power_guarded t"
  by (induction new) simp_all

lemma wp_silent:
  assumes "emits (\<lambda>e. \<not> mmio_access e) m" "\<And>r (s' :: machine). power_guarded (trace s') = power_guarded (trace s) \<Longrightarrow> Q r s'"
  shows "wp m Q s"
  by (rule wp_frame [OF assms(1)]) (auto simp: guarded_silent intro!: assms(2))

text \<open>The three acquisition loops establish it, each its part.\<close>

lemma wp_attach_uses:
  assumes "\<And>r ds' s'. map dp_offset ds' = map dp_offset ds \<Longrightarrow> domain_uses (trace s') = domain_uses (trace s)
    \<Longrightarrow> power_guarded (trace s') = power_guarded (trace s) \<Longrightarrow> Q (r, ds') s'"
  shows "wp (attach_domains K i ds) Q s"
  using assms
proof (induction ds arbitrary: i s Q)
  case Nil
  then show ?case by (auto intro!: wp_rules)
next
  case (Cons d ds)
  show ?case
    unfolding attach_domains.simps
    by (intro wp_rules Cons.IH Cons.prems) (auto simp: PTR_ERR_nonzero mmio_access_def)
qed

lemma wp_resume_up:
  assumes "\<And>r ds' s'. map dp_offset ds' = map dp_offset ds \<Longrightarrow> (r = 0 \<Longrightarrow>
      domain_uses (trace s') = domain_uses (trace s) + int (length ds) \<and>
      (\<forall>q. q \<in> set (map dp_offset ds) \<or> domain_up q (trace s) \<longrightarrow> domain_up q (trace s')))
    \<Longrightarrow> power_guarded (trace s') = power_guarded (trace s) \<Longrightarrow> Q (r, ds') s'"
  shows "wp (resume_domains K m ds) Q s"
  using assms
proof (induction ds arbitrary: s Q)
  case Nil
  then show ?case by (auto intro!: wp_rules)
next
  case (Cons d ds)
  show ?case
    unfolding resume_domains.simps
    by (intro wp_rules Cons.IH Cons.prems) (auto simp: mmio_access_def active_state_def)
qed

lemma low_active: "v AND 0xff = 0xff \<Longrightarrow> v AND 0xf = (0xf :: u32)"
proof -
  assume v: "v AND 0xff = (0xff :: u32)"
  have "v AND 0xf = (v AND 0xff) AND 0xf" by (simp add: and.assoc)
  with v show ?thesis by simp
qed

lemma wp_force_up:
  assumes "\<And>r ds' s'. map dp_offset ds' = map dp_offset ds \<Longrightarrow> (r = 0 \<Longrightarrow> domain_uses (trace s') = domain_uses (trace s) \<and>
      (\<forall>q. q \<in> set (map dp_offset ds) \<or> domain_up q (trace s) \<longrightarrow> domain_up q (trace s')))
    \<Longrightarrow> power_guarded (trace s') = power_guarded (trace s) \<Longrightarrow> Q (r, ds') s'"
  shows "wp (force_domains K m ds) Q s"
  using assms
proof (induction ds arbitrary: s Q)
  case Nil
  then show ?case by (auto intro!: wp_rules)
next
  case (Cons d ds)
  show ?case
    unfolding force_domains.simps
    by (intro wp_rules Cons.IH Cons.prems) (auto simp: mmio_access_def active_state_def low_active)
qed

lemma wp_acquire_guarded:
  assumes op: "\<And>f. operate = Some f \<Longrightarrow> emits (\<lambda>e. \<not> power_event e) (f context)"
    and s: "domain_uses (trace s) = 0"
    and Q: "\<And>r ds s'. power_guarded (trace s') = power_guarded (trace s) \<Longrightarrow> Q (r, ds) s'"
  shows "wp (acquire_and_operate K m force_active operate context) Q s"
proof -
  have pm: "map dp_offset pcie_domains = domain_offsets" "length pcie_domains = 3"
    by (simp_all add: pcie_domains_def domain_offsets_def new_domain_def)
  have len: "length ds = 3" if "map dp_offset ds = domain_offsets" for ds
    using arg_cong [OF that, of length] by (simp add: domain_offsets_def)
  show ?thesis
  proof (cases operate)
    case None
    show ?thesis
      unfolding acquire_and_operate_def None option.case
      by (intro wp_rules wp_attach_uses wp_resume_up wp_force_up Q) auto
  next
    case (Some f)
    have f: "wp (f context) (\<lambda>r. wp (return (r, ds)) Q) t"
      if "pcie_powered (trace t)" "power_guarded (trace t) = power_guarded (trace s)" for ds t
      by (rule wp_frame [OF op [OF Some]], rule wp_return, rule Q) (use that guarded_powered in auto)
    show ?thesis
      unfolding acquire_and_operate_def Some option.case
      by (intro wp_rules wp_attach_uses wp_resume_up wp_force_up Q f)
        (auto simp: pm len s pcie_powered_def)
  qed
qed

definition setup_event :: "event \<Rightarrow> bool" where
  "setup_event e \<longleftrightarrow> \<not> mmio_access e \<and> (case e of Call (Pm _) _ \<Rightarrow> False | _ \<Rightarrow> True)"

lemma setup_uses: "list_all setup_event new \<Longrightarrow> domain_uses (new @ t) = domain_uses t"
  by (induction new) (auto simp: setup_event_def split: event.splits call.splits)

lemma wp_setup:
  assumes "emits setup_event m"
    and "\<And>r (s' :: machine). domain_uses (trace s') = domain_uses (trace s)
      \<Longrightarrow> power_guarded (trace s') = power_guarded (trace s) \<Longrightarrow> Q r s'"
  shows "wp m Q s"
  by (rule wp_frame [OF assms(1)])
    (auto simp: setup_uses guarded_silent setup_event_def list_all_iff intro!: assms(2))

lemma domain_steps_silent:
  "emits (\<lambda>e. \<not> mmio_access e) (release_domains K m ds r)"
  "emits (\<lambda>e. \<not> mmio_access e) (verify_released K m ds r)"
  "emits setup_event (check_baseline K m cycle ds)"
  "emits setup_event (is_j42d_t7000 K)"
proof -
  show "emits (\<lambda>e. \<not> mmio_access e) (release_domains K m ds r)"
    by (induction ds arbitrary: r) (auto intro!: emits_rules simp: release_domain_def mmio_access_def)
qed (intro emits_rules; simp add: mmio_access_def setup_event_def)+

lemma wp_pcie_domains_guarded:
  assumes op: "\<And>f. operate = Some f \<Longrightarrow> emits (\<lambda>e. \<not> power_event e) (f context)"
    and s: "domain_uses (trace s) = 0"
    and Q: "\<And>r s'. power_guarded (trace s') = power_guarded (trace s) \<Longrightarrow> Q r s'"
  shows "wp (a1625_with_pcie_domains K cycle force_active operate context) Q s"
  unfolding a1625_with_pcie_domains_def
  by (intro wp_setup [OF domain_steps_silent(3)] wp_setup [OF domain_steps_silent(4)]
      wp_silent [OF domain_steps_silent(1)] wp_silent [OF domain_steps_silent(2)]
      wp_acquire_guarded [OF op] wp_rules Q)
    (auto simp: s mmio_access_def)

section \<open>Success\<close>

definition domain_idle :: "resp \<Rightarrow> bool" where
  "domain_idle r \<longleftrightarrow> r_ret r = 0 \<and> (ucast (r_val r) :: u32) AND PS_BUSY_MASK = 0"

text \<open>The status of the last loop is 0 only if it was 0 and every read found an idle domain.\<close>

lemma wp_verify_released:
  assumes "\<And>r rs s'. length rs = length ds \<Longrightarrow> (r = 0 \<Longrightarrow> r0 = 0 \<and> list_all domain_idle rs)
      \<Longrightarrow> trace s' = rev (map2 (\<lambda>d x. Call (Regmap (RegmapRead m (dp_offset d))) x) ds rs) @ trace s \<Longrightarrow> Q r s'"
  shows "wp (verify_released K m ds r0) Q s"
  using assms
proof (induction ds arbitrary: r0 s Q)
  case Nil
  from Nil [of "[]"] show ?case by (auto intro!: wp_rules)
next
  case (Cons d ds)
  have IH: "wp (verify_released K m ds r1) Q (s\<lparr>trace := Call (Regmap (RegmapRead m (dp_offset d))) x # trace s\<rparr>)"
    if "r1 = 0 \<Longrightarrow> r0 = 0 \<and> domain_idle x" for r1 x
  proof (rule Cons.IH)
    fix r :: int and rs and s' :: machine
    assume "length rs = length ds" "r = 0 \<Longrightarrow> r1 = 0 \<and> list_all domain_idle rs"
      "trace s' = rev (map2 (\<lambda>d x. Call (Regmap (RegmapRead m (dp_offset d))) x) ds rs) @
        trace (s\<lparr>trace := Call (Regmap (RegmapRead m (dp_offset d))) x # trace s\<rparr>)"
    then show "Q r s'"
      by (intro Cons.prems [of "x # rs"]) (use that in auto)
  qed
  show ?case
    unfolding verify_released.simps
    by (intro wp_rules IH) (auto simp: domain_idle_def)
qed


lemma wp_acquire_offsets:
  assumes "\<And>r ds s'. map dp_offset ds = domain_offsets \<Longrightarrow> Q (r, ds) s'"
  shows "wp (acquire_and_operate K m force_active operate context) Q s"
proof -
  have pm: "map dp_offset pcie_domains = domain_offsets"
    by (simp add: pcie_domains_def domain_offsets_def new_domain_def)
  have f: "wp n (\<lambda>r. wp (return (r, ds)) Q) t" if "map dp_offset ds = domain_offsets" for ds t and n :: "int prog"
    by (rule wp_any, rule wp_return, rule assms, rule that)
  show ?thesis
  proof (cases operate)
    case None
    show ?thesis
      unfolding acquire_and_operate_def None option.case
      by (intro wp_rules wp_attach_uses wp_resume_up wp_force_up assms) (simp_all add: pm)
  next
    case (Some g)
    show ?thesis
      unfolding acquire_and_operate_def Some option.case
      by (intro wp_rules wp_attach_uses wp_resume_up wp_force_up assms f) (simp_all add: pm)
  qed
qed

definition domains_released :: "event list \<Rightarrow> bool" where
  "domains_released t \<longleftrightarrow> (\<exists>m r0 r1 r2 t0.
     t = Call (Regmap (RegmapRead m 0x20220)) r2 # Call (Regmap (RegmapRead m 0x20310)) r1 #
         Call (Regmap (RegmapRead m 0x20308)) r0 # t0 \<and>
     domain_idle r0 \<and> domain_idle r1 \<and> domain_idle r2)"

lemma wp_verify_three:
  assumes "map dp_offset ds = domain_offsets"
    and Q: "\<And>r s'. (r = 0 \<Longrightarrow> domains_released (trace s')) \<Longrightarrow> Q r s'"
  shows "wp (verify_released K m ds r0) Q s"
proof (rule wp_verify_released)
  fix r :: int and rs and s' :: machine
  assume len: "length rs = length ds" and r: "r = 0 \<Longrightarrow> r0 = 0 \<and> list_all domain_idle rs"
    and t: "trace s' = rev (map2 (\<lambda>d x. Call (Regmap (RegmapRead m (dp_offset d))) x) ds rs) @ trace s"
  from assms(1) obtain d0 d1 d2 where ds: "ds = [d0, d1, d2]"
    "dp_offset d0 = 0x20308" "dp_offset d1 = 0x20310" "dp_offset d2 = 0x20220"
    by (auto simp: domain_offsets_def)
  with len obtain r0 r1 r2 where rs: "rs = [r0, r1, r2]"
    by (auto simp: length_Suc_conv)
  show "Q r s'"
    by (rule Q) (use r t in \<open>auto simp: ds rs domains_released_def\<close>)
qed

lemma wp_pcie_domains_success:
  assumes "\<And>r s'. (r = 0 \<Longrightarrow> domains_released (trace s')) \<Longrightarrow> Q r s'"
  shows "wp (a1625_with_pcie_domains K True force_active operate context) Q s"
proof -
  have any: "wp n R t" if "\<And>r t'. R r t'" for n :: "'b prog" and R t
    by (rule wp_any) (rule that)
  show ?thesis
    unfolding a1625_with_pcie_domains_def
    by (intro any [of _ "is_j42d_t7000 K"] wp_acquire_offsets wp_verify_three 
        any [of _ "release_domains K m ds r" for m ds r] any [of _ "check_baseline K m c ds" for m c ds] wp_rules assms)
      (auto simp: PTR_ERR_nonzero)
qed

section \<open>Properties\<close>

lemmas pcie_domains_run = a1625_with_pcie_domains_def acquire_and_operate_def release_domain_def
  pcie_domains_def new_domain_def

definition peek :: "kernel \<Rightarrow> u64 \<Rightarrow> int prog" where
  "peek K a = do { v \<leftarrow> readl K a; return 0 }"

text \<open>
  The ledger: for a callback that gives back what it takes, the lifetime leaves every resource
  count as it was, on every path and for every kernel. The only exception is deliberate: a consumer
  that could not be detached from its power domain stays registered, and exactly such consumers do
  (registered minus attached consumers is unchanged).
\<close>

theorem pcie_domains_leak_free:
  assumes "run_state (a1625_with_pcie_domains K cycle force_active operate ctx) s = (r, s')"
    and "registers_nonnull K" and "\<And>x a. keeps x (client1 operate a)"
  shows "(\<not> domain_retained x \<longrightarrow> held (trace s') x = held (trace s) x) \<and> gap (trace s') c = gap (trace s) c"
proof
  show "\<not> domain_retained x \<longrightarrow> held (trace s') x = held (trace s) x"
    using domains.run_keeps [OF _ assms(3) assms(1)] assms(2) by simp
  have "keeps y (f ctx)" if "operate = Some f" for f y
    using assms(3) unfolding that by (rule client1_keeps)
  then show "gap (trace s') c = gap (trace s) c"
    using wp_run [OF pcie_domains_keeps_gap [OF assms(2)] assms(1)] by blast
qed

lemma board_registers_nonnull: "registers_nonnull board"
  by (simp add: registers_nonnull_def board_def value_resp_def or_eq_0_iff)

lemma peek_neutral: "emits neutral (peek K a)"
  unfolding peek_def by (intro emits_rules) (simp add: neutral_def)

theorem pcie_domains_leak_free_witness:
  "let t = trace (snd (run_state (a1625_with_pcie_domains board True True (Some (peek board)) 0x600000180) boot))
   in held t (PmUse 0x9000) = 0 \<and> gap t 0x9000 = 0"
proof -
  have "keeps x (client1 (Some (peek board)) a)" for x a
    by (simp add: client1_def emits_neutral_keeps peek_neutral)
  from pcie_domains_leak_free [OF run_split [OF refl] board_registers_nonnull this,
      where cycle = True and force_active = True and ctx = "0x600000180" and s = boot and c = "0x9000"
        and x = "PmUse 0x9000"]
  show ?thesis by (simp add: Let_def domain_retained_def gap_def)
qed

text \<open>
  Inside the lifetime no PCIe register is touched unless the three consumers are resumed and
  the last evidence from each power-state register is an active target, whatever the callback
  does apart from power management. An access to an unpowered block would hang the machine.
\<close>

theorem pcie_domains_guard_mmio:
  assumes "run_state (a1625_with_pcie_domains K cycle force_active operate ctx) s = (r, s')"
    and "\<And>f. operate = Some f \<Longrightarrow> emits (\<lambda>e. \<not> power_event e) (f ctx)"
    and "domain_uses (trace s) = 0" and "power_guarded (trace s)"
  shows "power_guarded (trace s')"
proof -
  have "wp (a1625_with_pcie_domains K cycle force_active operate ctx)
    (\<lambda>_ s'. power_guarded (trace s') = power_guarded (trace s)) s"
    by (rule wp_pcie_domains_guarded [OF assms(2) assms(3)])
  from wp_run [OF this assms(1)] assms(4) show ?thesis by simp
qed

lemma peek_quiet: "emits (\<lambda>e. \<not> power_event e) (peek K a)"
  unfolding peek_def by (intro emits_rules) (simp add: power_event_def)

theorem pcie_domains_guard_mmio_witness:
  "power_guarded (trace (snd (run_state (a1625_with_pcie_domains board True True (Some (peek board)) 0x600000180) boot)))"
  by (rule pcie_domains_guard_mmio [OF run_split [OF refl]]) (auto intro: peek_quiet)

text \<open>
  C14. A cycle that reports success ends with three successful reads of the power-state registers, in
  order, each showing target, actual state and AUTO cleared and no reset: the domains are off
  again, whatever happened in between.
\<close>

theorem pcie_domains_success_released:
  assumes "run_state (a1625_with_pcie_domains K True force_active operate ctx) s = (0, s')"
  shows "domains_released (trace s')"
proof -
  have "wp (a1625_with_pcie_domains K True force_active operate ctx)
    (\<lambda>r s'. r = 0 \<longrightarrow> domains_released (trace s')) s"
    by (rule wp_pcie_domains_success) simp
  from wp_run [OF this assms] show ?thesis by simp
qed

theorem pcie_domains_success_released_witness:
  "domains_released (trace (snd (run_state (a1625_with_pcie_domains board True True (Some (peek board)) 0x600000180) boot)))"
  by (rule pcie_domains_success_released [OF run_split]) (simp add: pcie_domains_run peek_def run_simps)

end
