(* ===== verification/PciePhy.thy ===== *)
theory PciePhy
  imports Board
begin

text \<open>
  a1625_pcie_phy.h: a bounded lifetime of the shared PCIe PHY and of port 1. Thirteen masked
  register writes set the block up, each one saved; a callback runs on the mapped port; the saved
  masks are put back in reverse order. The caller holds the three power domains.
\<close>

section \<open>Model\<close>

text \<open>\<open>struct core_step\<close>.\<close>

record core_step =
  cs_offset :: u64
  cs_mask :: u32
  cs_bits :: u32
  cs_delay_us :: u32
  cs_saved :: u32

definition core_step :: "u64 \<Rightarrow> u32 \<Rightarrow> u32 \<Rightarrow> u32 \<Rightarrow> core_step" where
  "core_step off msk bits delay =
     \<lparr>cs_offset = off, cs_mask = msk, cs_bits = bits, cs_delay_us = delay, cs_saved = 0\<rparr>"

definition core_steps :: "core_step list" where
  "core_steps =
    [core_step 0x40 1 1 0, core_step 0x100 1 1 0, core_step 0x118 1 1 0,
     core_step 0x118 1 0 0, core_step 0x100 1 0 0, core_step 0x40 1 0 0,
     core_step 0x198 1 0 0, core_step 0x188 1 1 100,
     core_step 0x18c 1 0 0, core_step 0x180 1 1 100,
     core_step 0x198 1 1 0, core_step 0x860 all_ones 3 0, core_step 0x188 0x100 0 0]"

definition core_offsets :: "u64 list" where
  "core_offsets = [0x90, 0x100, 0x108, 0x10c, 0x118, 0x130, 0x134, 0x180, 0x188, 0x18c, 0x198]"

definition port_offsets :: "u64 list" where
  "port_offsets = [0x80, 0x88, 0x124, 0x128]"

abbreviation CORE_BASE :: u64 where "CORE_BASE \<equiv> 0x600000000"
abbreviation PORT1_BASE :: u64 where "PORT1_BASE \<equiv> 0x602004000"

definition radio_is_off :: "kernel \<Rightarrow> int prog" where
  "radio_is_off K = do {
     node \<leftarrow> of_find_node_by_path K ''/soc/i2c@20a110000/pmic@74'';
     if node = 0 then return (- ENODEV) else do {
     client \<leftarrow> of_find_i2c_device_by_node K node;
     of_node_put K node;
     if client = 0 then return (- ENODEV) else do {
     device_lock K client;
     a \<leftarrow> i2c_client_addr K client;
     bound \<leftarrow> (if a = 0x74 then dev_driver K client else return False);
     r \<leftarrow> (if bound then do {
             m \<leftarrow> dev_get_regmap K client;
             if m = 0 then return (- ENODEV) else do {
             (r, value) \<leftarrow> regmap_read K m PMU_WL_REG_ON;
             return (if r = 0 \<and> value \<noteq> 0 then - EBUSY else r)
             }
           } else return (- ENODEV));
     device_unlock K client;
     put_device K client;
     return r
     }}
   }"

text \<open>
  The setup loop at index \<open>i\<close> of the array. \<open>applied\<close> is \<open>steps[0 .. applied - 1]\<close>, the newest
  first, as the rollback pops it. With \<open>inspect_prefix\<close> index 11 ends the loop, or is replaced by
  the entry after it, and index 12 always ends it.
\<close>

fun apply_steps ::
  "kernel \<Rightarrow> bool \<Rightarrow> bool \<Rightarrow> u64 \<Rightarrow> nat \<Rightarrow> core_step list \<Rightarrow> core_step list \<Rightarrow> (int \<times> core_step list) prog" where
  "apply_steps K inspect_prefix test_refclk core i [] applied = return (0, applied)"
| "apply_steps K inspect_prefix test_refclk core i (entry # entries) applied =
     (if inspect_prefix \<and> i = 11 \<and> \<not> test_refclk then return (0, applied)
      else if inspect_prefix \<and> i = 12 then return (0, applied)
      else do {
        let st = (if inspect_prefix \<and> i = 11 then hd entries else entry);
        value \<leftarrow> readl K (core + cs_offset st);
        if value = all_ones then return (- ENODEV, applied) else do {
        let st = st\<lparr>cs_saved := value AND cs_mask st\<rparr>;
        writel K (value AND NOT (cs_mask st) OR cs_bits st) (core + cs_offset st);
        value \<leftarrow> readl K (core + cs_offset st);
        if value = all_ones \<or> value AND cs_mask st \<noteq> cs_bits st
        then return (- EIO, st # applied)
        else do {
          pwhen (cs_delay_us st \<noteq> 0) (udelay K (cs_delay_us st));
          apply_steps K inspect_prefix test_refclk core (i + 1) entries (st # applied)
        }}
      })"

fun rollback_steps :: "kernel \<Rightarrow> u64 \<Rightarrow> core_step list \<Rightarrow> int \<Rightarrow> int prog" where
  "rollback_steps K core [] r = return r"
| "rollback_steps K core (st # applied) r = do {
     value \<leftarrow> readl K (core + cs_offset st);
     if value = all_ones then return (- EIO) else do {
     writel K (value AND NOT (cs_mask st) OR cs_saved st) (core + cs_offset st);
     value \<leftarrow> readl K (core + cs_offset st);
     rollback_steps K core applied
       (if value = all_ones \<or> value AND cs_mask st \<noteq> cs_saved st then - EIO else r)
     }
   }"

text \<open>Both snapshot loops: stop at the first register that reads all ones.\<close>

fun check_alive :: "kernel \<Rightarrow> u64 \<Rightarrow> u64 list \<Rightarrow> int prog" where
  "check_alive K base [] = return 0"
| "check_alive K base (off # offs) = do {
     value \<leftarrow> readl K (base + off);
     if value = all_ones then return (- ENODEV) else check_alive K base offs
   }"

text \<open>From the radio check to the callback; the second result is the rollback stack.\<close>

definition phy_prepare_and_operate ::
  "kernel \<Rightarrow> bool \<Rightarrow> bool \<Rightarrow> bool \<Rightarrow> u64 \<Rightarrow> u64 \<Rightarrow> (u64 \<Rightarrow> u64 \<Rightarrow> int prog) option \<Rightarrow> u64 \<Rightarrow> (int \<times> core_step list) prog" where
  "phy_prepare_and_operate K prepare_port inspect_prefix test_refclk core port operate context = do {
     (r, applied) \<leftarrow>
       (if prepare_port then do {
          r \<leftarrow> radio_is_off K;
          if r \<noteq> 0 then return (r, []) else
          apply_steps K inspect_prefix test_refclk core 0 core_steps []
        } else return (0, []));
     if r \<noteq> 0 then return (r, applied) else do {
     r \<leftarrow> check_alive K core core_offsets;
     if r \<noteq> 0 then return (r, applied) else do {
     r \<leftarrow> check_alive K port port_offsets;
     if r \<noteq> 0 then return (r, applied) else
     case operate of
       None \<Rightarrow> return (0, applied)
     | Some f \<Rightarrow> do { r \<leftarrow> f port context; return (r, applied) }
     }}
   }"

definition a1625_with_pcie_phy ::
  "kernel \<Rightarrow> bool \<Rightarrow> bool \<Rightarrow> bool \<Rightarrow> (u64 \<Rightarrow> u64 \<Rightarrow> int prog) option \<Rightarrow> u64 \<Rightarrow> int prog" where
  "a1625_with_pcie_phy K prepare_port inspect_prefix test_refclk operate context =
     (if inspect_prefix \<and> \<not> prepare_port \<or> test_refclk \<and> \<not> inspect_prefix then return (- EINVAL) else do {
      board \<leftarrow> is_j42d_t7000 K;
      if \<not> board then return (- ENODEV) else do {
      core_owned \<leftarrow> request_mem_region K CORE_BASE 0x2000;
      if \<not> core_owned then return (- EBUSY) else do {
      port_owned \<leftarrow> request_mem_region K PORT1_BASE 0x1000;
      if \<not> port_owned then do { release_mem_region K CORE_BASE 0x2000; return (- EBUSY) } else do {
      core \<leftarrow> ioremap K CORE_BASE 0x2000;
      port \<leftarrow> ioremap K PORT1_BASE 0x1000;
      r \<leftarrow> (if core = 0 \<or> port = 0 then return (- ENOMEM) else do {
              (r, applied) \<leftarrow> phy_prepare_and_operate K prepare_port inspect_prefix test_refclk
                 core port operate context;
              rollback_steps K core applied r
            });
      pwhen (port \<noteq> 0) (iounmap K port);
      pwhen (core \<noteq> 0) (iounmap K core);
      release_mem_region K PORT1_BASE 0x1000;
      release_mem_region K CORE_BASE 0x2000;
      return r
      }}}})"

section \<open>Events and resources of the parts\<close>

lemma apply_steps_emits [emits_rules]:
  assumes "\<And>a r. P (Call (Mmio (Readl a)) r)" "\<And>a v r. P (Call (Mmio (Writel a v)) r)"
    "\<And>n r. P (Call (Time (Udelay n)) r)"
  shows "emits P (apply_steps K ip tr core i es applied)"
  by (induction es arbitrary: i applied) (auto intro!: emits_rules assms simp: Let_def)

lemma rollback_steps_emits [emits_rules]:
  assumes "\<And>a r. P (Call (Mmio (Readl a)) r)" "\<And>a v r. P (Call (Mmio (Writel a v)) r)"
  shows "emits P (rollback_steps K core applied r)"
  by (induction applied arbitrary: r) (auto intro!: emits_rules assms)

lemma check_alive_emits [emits_rules]:
  "(\<And>a r. P (Call (Mmio (Readl a)) r)) \<Longrightarrow> emits P (check_alive K base offs)"
  by (induction offs) (auto intro!: emits_rules)

lemma phy_steps_neutral:
  "emits neutral (apply_steps K ip tr core i es applied)" "emits neutral (rollback_steps K core applied r)"
  "emits neutral (check_alive K base offs)"
  by (intro emits_rules, simp_all add: neutral_def)+

lemma radio_is_off_keeps: "keeps x (radio_is_off K)"
  unfolding radio_is_off_def
  by (intro keepsI wp_rules) (simp_all add: unless_null_def)

lemma phy_prepare_keeps:
  assumes "\<And>a. keeps x (client2 operate a)"
  shows "keeps x (phy_prepare_and_operate K pp ip tr core port operate context)"
proof (cases operate)
  case None
  show ?thesis
    unfolding phy_prepare_and_operate_def None option.case
    by (intro keepsI wp_rules wp_keeps [OF radio_is_off_keeps] wp_neutral [OF phy_steps_neutral(1)]
        wp_neutral [OF phy_steps_neutral(3)]) simp_all
next
  case (Some f)
  have f: "\<And>c a. keeps x (f c a)"
    using assms unfolding Some by (rule client2_keeps)
  show ?thesis
    unfolding phy_prepare_and_operate_def Some option.case
    by (intro keepsI wp_rules wp_keeps [OF radio_is_off_keeps] wp_neutral [OF phy_steps_neutral(1)]
        wp_neutral [OF phy_steps_neutral(3)] wp_keeps [OF f]) simp_all
qed

lemma pcie_phy_keeps:
  assumes "\<And>a. keeps x (client2 operate a)"
  shows "keeps x (a1625_with_pcie_phy K pp ip tr operate context)"
  unfolding a1625_with_pcie_phy_def
  by (intro keepsI wp_neutral [OF is_j42d_t7000_neutral] wp_keeps [OF phy_prepare_keeps [OF assms]]
      wp_neutral [OF phy_steps_neutral(2)] wp_rules) simp_all

interpretation phy: lifetime "\<lambda>operate. a1625_with_pcie_phy K pp ip tr operate ctx" client2 "\<lambda>_. False"
  for K pp ip tr ctx
  by unfold_locales (rule pcie_phy_keeps)

section \<open>The saved masks are restored\<close>

definition core_region :: "u64 \<Rightarrow> bool" where
  "core_region a \<longleftrightarrow> CORE_BASE \<le> a \<and> a < CORE_BASE + 0x2000"

lemma core_steps_region: "list_all (\<lambda>st. core_region (CORE_BASE + cs_offset st)) core_steps"
  by (simp add: core_steps_def core_step_def core_region_def)

text \<open>What popping the whole stack does to the registers.\<close>

fun undo :: "u64 \<Rightarrow> core_step list \<Rightarrow> (u64 \<Rightarrow> u32) \<Rightarrow> u64 \<Rightarrow> u32" where
  "undo core [] F = F"
| "undo core (st # applied) F =
     undo core applied (F(core + cs_offset st := F (core + cs_offset st) AND NOT (cs_mask st) OR cs_saved st))"

definition wf_step :: "u64 \<Rightarrow> core_step \<Rightarrow> bool" where
  "wf_step core st \<longleftrightarrow> core_region (core + cs_offset st) \<and> cs_bits st AND NOT (cs_mask st) = 0 \<and> \<not> bit (cs_bits st) 31"

definition wf_saved :: "u64 \<Rightarrow> core_step \<Rightarrow> bool" where
  "wf_saved core st \<longleftrightarrow> core_region (core + cs_offset st) \<and> cs_saved st AND NOT (cs_mask st) = 0 \<and> \<not> bit (cs_saved st) 31"

lemma core_steps_wf: "list_all (wf_step CORE_BASE) core_steps"
  by (simp add: core_steps_def core_step_def wf_step_def core_region_def bit_numeral_rec)

lemma masked_write:
  fixes v b m w :: u32
  assumes "b AND NOT m = 0"
  shows "(v AND NOT m OR b) AND m = b"
    "(v AND NOT m OR b) AND NOT m OR (v AND m) = v"
    "(v AND m) AND NOT m = 0"
    "\<not> bit v 31 \<Longrightarrow> \<not> bit b 31 \<Longrightarrow> \<not> bit (v AND NOT m OR b) 31"
    "\<not> bit v 31 \<Longrightarrow> \<not> bit (v AND m) 31"
    "(v XOR (v AND NOT m OR b)) AND NOT m = 0"
proof -
  have b: "bit b n \<Longrightarrow> bit m n" for n
    using arg_cong [OF assms, of "\<lambda>w. bit w n"] bit_imp_le_length [of b n] by (auto simp: bit_simps)
  show "(v AND NOT m OR b) AND m = b"
    "(v AND NOT m OR b) AND NOT m OR (v AND m) = v"
    "(v AND m) AND NOT m = 0"
    "(v XOR (v AND NOT m OR b)) AND NOT m = 0"
    by (rule bit_eqI; use b in \<open>auto simp: bit_simps\<close>)+
  show "\<not> bit v 31 \<Longrightarrow> \<not> bit b 31 \<Longrightarrow> \<not> bit (v AND NOT m OR b) 31"
    "\<not> bit v 31 \<Longrightarrow> \<not> bit (v AND m) 31"
    by (simp_all add: bit_simps)
qed

lemma not_all_ones: "\<not> bit v 31 \<Longrightarrow> v \<noteq> all_ones"
  by (auto simp: bit_numeral_rec)

text \<open>Registers as a function of the trace, and the assumption that they are not stuck at all ones.\<close>

definition bit31_clear :: "(u64 \<Rightarrow> u32) \<Rightarrow> bool" where
  "bit31_clear F \<longleftrightarrow> (\<forall>a. core_region a \<longrightarrow> \<not> bit (F a) 31)"

lemma mmio_at_writel: "mmio_at init (Call (Mmio (Writel a v)) r # t) = (mmio_at init t)(a := v)"
  and mmio_at_readl: "mmio_at init (Call (Mmio (Readl a)) r # t) = mmio_at init t"
  and mmio_at_delay: "mmio_at init (Call (Time c) r # t) = mmio_at init t"
  by (auto simp: fun_eq_iff)

lemma wp_rollback_restores:
  assumes K: "register_file init core_region K"
    and "list_all (wf_saved core) applied" "bit31_clear (mmio_at init (trace s))"
    and "\<And>s'. mmio_at init (trace s') = undo core applied (mmio_at init (trace s)) \<Longrightarrow> Q r s'"
  shows "wp (rollback_steps K core applied r) Q s"
  using assms(2-)
proof (induction applied arbitrary: r s)
  case Nil
  then show ?case by (auto intro!: wp_rules)
next
  case (Cons st applied)
  let ?a = "core + cs_offset st"
  let ?v = "mmio_at init (trace s) ?a"
  have st: "core_region ?a" "cs_saved st AND NOT (cs_mask st) = 0" "\<not> bit (cs_saved st) 31"
    and v: "\<not> bit ?v 31" and rest: "list_all (wf_saved core) applied"
    using Cons.prems(1,2) unfolding list.pred_inject(2) by (simp_all add: wf_saved_def bit31_clear_def list_all_iff)
  note w = masked_write [OF st(2), of ?v]
  have clear: "bit31_clear ((mmio_at init (trace s))(?a := ?v AND NOT (cs_mask st) OR cs_saved st))"
    using Cons.prems(2) w(4) [OF v st(3)] by (auto simp: bit31_clear_def)
  show ?case
    unfolding rollback_steps.simps
    by (intro wp_readl_register_file [OF K] wp_bind wp_if wp_do_call Cons.IH rest)
      (use st v w(1) not_all_ones [OF v] not_all_ones [OF w(4) [OF v st(3)]] clear Cons.prems(3)
        in \<open>simp_all add: mmio_at_writel mmio_at_readl fun_upd_def del: mmio_at.simps\<close>)
qed


lemma wp_apply_undoable:
  assumes K: "register_file init core_region K"
    and "list_all (wf_step core) es" "inspect_prefix \<Longrightarrow> i + length es = 13"
    and "list_all (wf_saved core) applied" "bit31_clear (mmio_at init (trace s))"
    and "\<And>r applied' s'. list_all (wf_saved core) applied' \<Longrightarrow> bit31_clear (mmio_at init (trace s'))
      \<Longrightarrow> undo core applied' (mmio_at init (trace s')) = undo core applied (mmio_at init (trace s)) \<Longrightarrow> Q (r, applied') s'"
  shows "wp (apply_steps K inspect_prefix test_refclk core i es applied) Q s"
  using assms(2-)
proof (induction es arbitrary: i applied s)
  case Nil
  then show ?case by (auto intro!: wp_rules)
next
  case (Cons entry es)
  define st where "st = (if inspect_prefix \<and> i = 11 then hd es else entry)"
  have "wf_step core st"
    using Cons.prems(1,2) by (cases es) (auto simp: st_def)
  then have st: "core_region (core + cs_offset st)" "cs_bits st AND NOT (cs_mask st) = 0" "\<not> bit (cs_bits st) 31"
    by (simp_all add: wf_step_def)
  let ?a = "core + cs_offset st"
  let ?F = "mmio_at init (trace s)"
  let ?v = "?F ?a"
  let ?st = "st\<lparr>cs_saved := ?v AND cs_mask st\<rparr>"
  have v: "\<not> bit ?v 31" using Cons.prems(4) st(1) by (simp add: bit31_clear_def)
  note w = masked_write [OF st(2), of ?v]
  have saved: "wf_saved core ?st"
    using st(1) w(3) w(5) [OF v] unfolding wf_saved_def by simp_all
  have clear: "bit31_clear (?F(?a := ?v AND NOT (cs_mask st) OR cs_bits st))"
    using Cons.prems(4) w(4) [OF v st(3)] by (auto simp: bit31_clear_def)
  have undone: "undo core (?st # applied) (?F(?a := ?v AND NOT (cs_mask st) OR cs_bits st)) = undo core applied ?F"
    using w(2) by (simp del: mmio_at.simps)
  have len: "inspect_prefix \<Longrightarrow> i + 1 + length es = 13" and es: "list_all (wf_step core) es"
    using Cons.prems(1,2) by simp_all
  have all: "list_all (wf_saved core) (?st # applied)"
    using saved Cons.prems(3) by simp
  show ?case
    unfolding apply_steps.simps st_def [symmetric] Let_def
    by (intro wp_if wp_return wp_bind wp_readl_register_file [OF K] wp_do_call wp_pwhen
        Cons.IH [OF es len all])
      (use st v w(1) not_all_ones [OF v] not_all_ones [OF w(4) [OF v st(3)]] clear all undone Cons.prems
        in \<open>simp_all add: mmio_at_writel mmio_at_readl fun_upd_def mmio_at_delay del: mmio_at.simps\<close>)
qed

lemma radio_is_off_emits [emits_rules]:
  assumes "\<And>c r. P (Call (Of c) r)" "\<And>c r. P (Call (Dev c) r)" "\<And>m r. P (Call (Regmap (RegmapRead m PMU_WL_REG_ON)) r)"
  shows "emits P (radio_is_off K)"
  unfolding radio_is_off_def by (intro emits_rules assms)

text \<open>A callback that leaves the PHY registers to this stage.\<close>

definition leaves_core :: "(u64 \<Rightarrow> u64 \<Rightarrow> int prog) option \<Rightarrow> bool" where
  "leaves_core operate \<longleftrightarrow> (\<forall>f p c. operate = Some f \<longrightarrow> emits (\<lambda>e. \<not> writes_within core_region e) (f p c))"

lemma phy_reads_leave_core:
  "emits (\<lambda>e. \<not> writes_within A e) (radio_is_off K)"
  "emits (\<lambda>e. \<not> writes_within A e) (check_alive K base offs)"
  "emits (\<lambda>e. \<not> writes_within A e) (is_j42d_t7000 K)"
  by (intro emits_rules, simp_all add: writes_within_def)+

lemma bit31_clear_cong:
  "(\<And>a. core_region a \<Longrightarrow> F a = G a) \<Longrightarrow> bit31_clear F = bit31_clear G"
  by (simp add: bit31_clear_def)

lemma undo_cong:
  "list_all (wf_saved core) applied \<Longrightarrow> (\<And>a. core_region a \<Longrightarrow> F a = G a) \<Longrightarrow> core_region a
   \<Longrightarrow> undo core applied F a = undo core applied G a"
proof (induction applied arbitrary: F G)
  case (Cons st applied)
  then have "core_region (core + cs_offset st)" by (simp add: wf_saved_def)
  then have "F (core + cs_offset st) = G (core + cs_offset st)" by (rule Cons.prems(2))
  then show ?case
    unfolding undo.simps using Cons.prems by (intro Cons.IH) simp_all
qed simp

lemma core_steps_length: "length core_steps = 13"
  by (simp add: core_steps_def)

text \<open>
  The state between setup and rollback: what the stack would undo to agrees with the registers
  before the stage.
\<close>

definition undoable :: "(u64 \<Rightarrow> u32) \<Rightarrow> core_step list \<Rightarrow> machine \<Rightarrow> machine \<Rightarrow> bool" where
  "undoable init applied s s' \<longleftrightarrow> list_all (wf_saved CORE_BASE) applied \<and>
     bit31_clear (mmio_at init (trace s')) \<and>
     (\<forall>a. core_region a \<longrightarrow> undo CORE_BASE applied (mmio_at init (trace s')) a = mmio_at init (trace s) a)"

lemma undoable_frame:
  assumes "undoable init applied s s1"
    and "\<And>a. core_region a \<Longrightarrow> mmio_at init (trace s2) a = mmio_at init (trace s1) a"
  shows "undoable init applied s s2"
  using assms undo_cong [of CORE_BASE applied "mmio_at init (trace s2)" "mmio_at init (trace s1)"]
    bit31_clear_cong [of "mmio_at init (trace s2)" "mmio_at init (trace s1)"]
  by (auto simp: undoable_def)

lemma wp_undoable_frame:
  assumes "emits (\<lambda>e. \<not> writes_within core_region e) m" "undoable init applied s0 s"
    and "\<And>r s'. undoable init applied s0 s' \<Longrightarrow> Q r s'"
  shows "wp m Q s"
  by (rule wp_no_write_within [OF assms(1)]) (rule assms(3), rule undoable_frame [OF assms(2)])

lemma wp_phy_prepare_undoable:
  assumes K: "register_file init core_region K" and op: "leaves_core operate"
    and s: "undoable init [] s0 s"
    and Q: "\<And>r applied s'. undoable init applied s0 s' \<Longrightarrow> Q (r, applied) s'"
  shows "wp (phy_prepare_and_operate K pp ip tr CORE_BASE port operate context) Q s"
proof -
  note reads = phy_reads_leave_core [of core_region]
  have apply_steps: "wp (apply_steps K ip tr CORE_BASE 0 core_steps []) R t"
    if "undoable init [] s0 t" "\<And>r applied s'. undoable init applied s0 s' \<Longrightarrow> R (r, applied) s'" for R t
    by (rule wp_apply_undoable [OF K core_steps_wf], simp add: core_steps_length)
      (use that in \<open>auto simp: undoable_def\<close>)
  show ?thesis
  proof (cases operate)
    case None
    show ?thesis
      unfolding phy_prepare_and_operate_def None option.case
      by (intro wp_bind wp_if wp_undoable_frame [OF reads(1)] wp_undoable_frame [OF reads(2)] wp_return
          apply_steps Q wp_case_pair) (use s in simp_all)
  next
    case (Some f)
    with op have f: "emits (\<lambda>e. \<not> writes_within core_region e) (f p c)" for p c
      by (simp add: leaves_core_def)
    show ?thesis
      unfolding phy_prepare_and_operate_def Some option.case
      by (intro wp_bind wp_if wp_undoable_frame [OF reads(1)] wp_undoable_frame [OF reads(2)] wp_return
          apply_steps Q wp_case_pair wp_undoable_frame [OF f]) (use s in simp_all)
  qed
qed

lemma wp_phy_restores:
  assumes K: "register_file init core_region K" and op: "leaves_core operate"
    and s: "bit31_clear (mmio_at init (trace s))"
    and Q: "\<And>r s'. (\<And>a. core_region a \<Longrightarrow> mmio_at init (trace s') a = mmio_at init (trace s) a) \<Longrightarrow> Q r s'"
  shows "wp (a1625_with_pcie_phy K pp ip tr operate context) Q s"
proof -
  have s0: "undoable init [] s s" using s by (simp add: undoable_def)
  have rollback: "wp (rollback_steps K CORE_BASE applied r) R t"
    if "undoable init applied s t" "\<And>s'. (\<And>a. core_region a \<Longrightarrow> mmio_at init (trace s') a = mmio_at init (trace s) a) \<Longrightarrow> R r s'"
    for applied r R t
    by (rule wp_rollback_restores [OF K]) (use that in \<open>auto simp: undoable_def\<close>)
  show ?thesis
    unfolding a1625_with_pcie_phy_def
    by (intro wp_undoable_frame [OF phy_reads_leave_core(3) s0] wp_rules wp_phy_prepare_undoable [OF K op]
        rollback Q)
      (auto simp: undoable_def bit31_clear_def)
qed

section \<open>Which bits are ever written\<close>

text \<open>
  The bits of a PHY register the stage may change. In the diagnostic prefix the counter command at
  \<open>0x860\<close> is off limits.
\<close>

definition core_mask :: "bool \<Rightarrow> u64 \<Rightarrow> u32" where
  "core_mask inspect_prefix a =
     (if a \<in> {CORE_BASE + 0x40, CORE_BASE + 0x100, CORE_BASE + 0x118, CORE_BASE + 0x198, CORE_BASE + 0x18c, CORE_BASE + 0x180}
      then 1
      else if a = CORE_BASE + 0x188 then 0x101
      else if a = CORE_BASE + 0x860 \<and> \<not> inspect_prefix then all_ones
      else 0)"

text \<open>A write answers the read just before it, of a live register, and changes allowed bits only.\<close>

definition masked_update :: "bool \<Rightarrow> u64 \<Rightarrow> u32 \<Rightarrow> event list \<Rightarrow> bool" where
  "masked_update inspect_prefix a v t =
     (case t of
        Call (Mmio (Readl b)) r # _ \<Rightarrow>
          b = a \<and> ucast (r_val r) \<noteq> all_ones \<and> (ucast (r_val r) XOR v) AND NOT (core_mask inspect_prefix a) = 0
      | _ \<Rightarrow> False)"

fun core_guarded :: "bool \<Rightarrow> event list \<Rightarrow> bool" where
  "core_guarded ip [] = True"
| "core_guarded ip (e # t) =
     (core_guarded ip t \<and>
      (case e of
         Call (Mmio (Writel a v)) _ \<Rightarrow> core_region a \<longrightarrow> masked_update ip a v t
       | Call (Mmio (Writew a v)) _ \<Rightarrow> \<not> core_region a \<and> \<not> core_region (a - 2)
       | _ \<Rightarrow> True))"

lemma core_guarded_frame:
  "list_all (\<lambda>e. \<not> writes_within core_region e) new \<Longrightarrow> core_guarded ip (new @ t) = core_guarded ip t"
  by (induction new) (auto simp: writes_within_def split: event.splits call.splits mmio_call.splits)

lemma wp_core_frame:
  assumes "emits (\<lambda>e. \<not> writes_within core_region e) m" "core_guarded ip (trace s)"
    and "\<And>r s'. core_guarded ip (trace s') \<Longrightarrow> Q r s'"
  shows "wp m Q s"
  by (rule wp_frame [OF assms(1)]) (use assms(2) in \<open>auto simp: core_guarded_frame intro!: assms(3)\<close>)

definition step_allowed :: "bool \<Rightarrow> core_step \<Rightarrow> bool" where
  "step_allowed ip st \<longleftrightarrow> cs_mask st AND NOT (core_mask ip (CORE_BASE + cs_offset st)) = 0 \<and>
     cs_bits st AND NOT (cs_mask st) = 0"

definition saved_allowed :: "bool \<Rightarrow> core_step \<Rightarrow> bool" where
  "saved_allowed ip st \<longleftrightarrow> cs_mask st AND NOT (core_mask ip (CORE_BASE + cs_offset st)) = 0 \<and>
     cs_saved st AND NOT (cs_mask st) = 0"

lemma allowed_write:
  fixes v b m c :: u32
  assumes "b AND NOT m = 0" "m AND NOT c = 0"
  shows "(v XOR (v AND NOT m OR b)) AND NOT c = 0"
proof -
  have "bit b n \<Longrightarrow> bit m n" "bit m n \<Longrightarrow> bit c n" for n
    using arg_cong [OF assms(1), of "\<lambda>w. bit w n"] arg_cong [OF assms(2), of "\<lambda>w. bit w n"]
      bit_imp_le_length [of b n] bit_imp_le_length [of m n] by (auto simp: bit_simps)
  then show ?thesis by (intro bit_eqI) (auto simp: bit_simps)
qed

lemma core_steps_allowed:
  assumes "j < 13" "\<not> (ip \<and> j = 11)"
  shows "step_allowed ip (core_steps ! j)"
proof -
  have "j = 0 \<or> j = 1 \<or> j = 2 \<or> j = 3 \<or> j = 4 \<or> j = 5 \<or> j = 6 \<or> j = 7 \<or> j = 8 \<or> j = 9 \<or> j = 10 \<or> j = 11 \<or> j = 12"
    using assms(1) by presburger
  then show ?thesis
    using assms(2) by (elim disjE; simp add: core_steps_def core_step_def step_allowed_def core_mask_def)
qed

lemma wp_apply_guarded:
  assumes "\<And>j. j < length es \<Longrightarrow> \<not> (ip \<and> i + j = 11) \<Longrightarrow> step_allowed ip (es ! j)"
    and "ip \<Longrightarrow> i + length es = 13"
    and "list_all (saved_allowed ip) applied" "core_guarded ip (trace s)"
    and "\<And>r applied' s'. list_all (saved_allowed ip) applied' \<Longrightarrow> core_guarded ip (trace s') \<Longrightarrow> Q (r, applied') s'"
  shows "wp (apply_steps K ip tr CORE_BASE i es applied) Q s"
  using assms
proof (induction es arbitrary: i applied s)
  case Nil
  then show ?case by (auto intro!: wp_rules)
next
  case (Cons entry es)
  define st where "st = (if ip \<and> i = 11 then hd es else entry)"
  have "step_allowed ip st"
  proof (cases "ip \<and> i = 11")
    case True
    with Cons.prems(2) have "length es = 1" by simp
    with True Cons.prems(1) [of 1] show ?thesis by (cases es) (auto simp: st_def)
  next
    case False
    with Cons.prems(1) [of 0] show ?thesis by (auto simp: st_def)
  qed
  then have st: "cs_mask st AND NOT (core_mask ip (CORE_BASE + cs_offset st)) = 0" "cs_bits st AND NOT (cs_mask st) = 0"
    by (simp_all add: step_allowed_def)
  have saved: "saved_allowed ip (st\<lparr>cs_saved := v AND cs_mask st\<rparr>)" for v
    using st masked_write(3) [OF st(2)] by (simp add: saved_allowed_def)
  have rest: "step_allowed ip (es ! j)" if "j < length es" "\<not> (ip \<and> i + 1 + j = 11)" for j
    using Cons.prems(1) [of "Suc j"] that by simp
  have len: "ip \<Longrightarrow> i + 1 + length es = 13" using Cons.prems(2) by simp
  show ?case
    unfolding apply_steps.simps st_def [symmetric] Let_def
    by (intro wp_rules Cons.IH [OF rest len])
      (use Cons.prems(3-) saved allowed_write [OF st(2,1)] in \<open>simp_all add: masked_update_def\<close>)
qed

lemma wp_rollback_guarded:
  assumes "list_all (saved_allowed ip) applied" "core_guarded ip (trace s)"
    and "\<And>r s'. core_guarded ip (trace s') \<Longrightarrow> Q r s'"
  shows "wp (rollback_steps K CORE_BASE applied r) Q s"
  using assms(1,2)
proof (induction applied arbitrary: r s)
  case Nil
  then show ?case by (auto intro!: wp_rules assms(3))
next
  case (Cons st applied)
  then have st: "cs_mask st AND NOT (core_mask ip (CORE_BASE + cs_offset st)) = 0" "cs_saved st AND NOT (cs_mask st) = 0"
    and rest: "list_all (saved_allowed ip) applied"
    unfolding list.pred_inject(2) by (simp_all add: saved_allowed_def list_all_iff)
  show ?case
    unfolding rollback_steps.simps
    by (intro wp_rules Cons.IH [OF rest] assms(3))
      (use Cons.prems(2) allowed_write [OF st(2,1)] in \<open>simp_all add: masked_update_def\<close>)
qed

lemma wp_phy_prepare_guarded:
  assumes op: "leaves_core operate" and s: "core_guarded ip (trace s)"
    and Q: "\<And>r applied s'. list_all (saved_allowed ip) applied \<Longrightarrow> core_guarded ip (trace s') \<Longrightarrow> Q (r, applied) s'"
  shows "wp (phy_prepare_and_operate K pp ip tr CORE_BASE port operate context) Q s"
proof -
  note reads = phy_reads_leave_core [of core_region]
  have apply_steps: "wp (apply_steps K ip tr CORE_BASE 0 core_steps []) R t"
    if "core_guarded ip (trace t)" "\<And>r applied s'. list_all (saved_allowed ip) applied \<Longrightarrow> core_guarded ip (trace s') \<Longrightarrow> R (r, applied) s'" for R t
    by (rule wp_apply_guarded, rule core_steps_allowed) (use that in \<open>simp_all add: core_steps_length\<close>)
  show ?thesis
  proof (cases operate)
    case None
    show ?thesis
      unfolding phy_prepare_and_operate_def None option.case
      by (intro wp_bind wp_if wp_core_frame [OF reads(1)] wp_core_frame [OF reads(2)] wp_return
          apply_steps Q wp_case_pair) (use s in simp_all)
  next
    case (Some f)
    with op have f: "emits (\<lambda>e. \<not> writes_within core_region e) (f p c)" for p c
      by (simp add: leaves_core_def)
    show ?thesis
      unfolding phy_prepare_and_operate_def Some option.case
      by (intro wp_bind wp_if wp_core_frame [OF reads(1)] wp_core_frame [OF reads(2)] wp_return
          apply_steps Q wp_case_pair wp_core_frame [OF f]) (use s in simp_all)
  qed
qed

lemma wp_phy_guarded:
  assumes op: "leaves_core operate" and s: "core_guarded ip (trace s)"
    and Q: "\<And>r s'. core_guarded ip (trace s') \<Longrightarrow> Q r s'"
  shows "wp (a1625_with_pcie_phy K pp ip tr operate context) Q s"
  unfolding a1625_with_pcie_phy_def
  by (intro wp_core_frame [OF phy_reads_leave_core(3), where ip = ip] wp_rules wp_phy_prepare_guarded [OF op]
      wp_rollback_guarded [where ip = ip] Q) (use s in simp_all)

section \<open>When the callback runs\<close>

text \<open>The last word on the radio's power register.\<close>

fun radio_read_off :: "event list \<Rightarrow> bool" where
  "radio_read_off [] = False"
| "radio_read_off (e # t) =
     (case e of
        Call (Regmap (RegmapRead m q)) r \<Rightarrow>
          if q = PMU_WL_REG_ON then r_ret r = 0 \<and> (ucast (r_val r) :: u32) = 0 else radio_read_off t
      | Call (Regmap (RegmapWrite m q v)) r \<Rightarrow> q \<noteq> PMU_WL_REG_ON \<and> radio_read_off t
      | _ \<Rightarrow> radio_read_off t)"

definition read_alive :: "u64 \<Rightarrow> event list \<Rightarrow> bool" where
  "read_alive a t \<longleftrightarrow> (case last_readl a t of None \<Rightarrow> False | Some v \<Rightarrow> v \<noteq> all_ones)"

definition phy_ready :: "bool \<Rightarrow> event list \<Rightarrow> bool" where
  "phy_ready prepare_port t \<longleftrightarrow> (prepare_port \<longrightarrow> radio_read_off t) \<and>
     list_all (\<lambda>off. read_alive (CORE_BASE + off) t) core_offsets \<and>
     list_all (\<lambda>off. read_alive (PORT1_BASE + off) t) port_offsets"

lemma wp_radio_is_off:
  assumes "\<And>r s'. (r = 0 \<Longrightarrow> radio_read_off (trace s')) \<Longrightarrow> Q r s'"
  shows "wp (radio_is_off K) Q s"
  unfolding radio_is_off_def
  by (intro wp_rules assms) (simp_all split: if_splits)

lemma wp_check_alive:
  assumes "\<And>r s'. (r = 0 \<Longrightarrow> list_all (\<lambda>off. read_alive (base + off) (trace s')) offs)
      \<Longrightarrow> radio_read_off (trace s') = radio_read_off (trace s)
      \<Longrightarrow> (\<And>a. read_alive a (trace s) \<Longrightarrow> r = 0 \<Longrightarrow> read_alive a (trace s')) \<Longrightarrow> Q r s'"
  shows "wp (check_alive K base offs) Q s"
  using assms
proof (induction offs arbitrary: s)
  case Nil
  then show ?case by (auto intro!: wp_rules)
next
  case (Cons off offs)
  show ?case
    unfolding check_alive.simps
    by (intro wp_rules Cons.IH Cons.prems) (auto simp: read_alive_def)
qed

lemma radio_read_off_frame:
  "list_all (\<lambda>e. case e of Call (Regmap _) _ \<Rightarrow> False | _ \<Rightarrow> True) new \<Longrightarrow> radio_read_off (new @ t) = radio_read_off t"
  by (induction new) (auto split: event.splits call.splits)

lemma wp_apply_radio:
  assumes "\<And>r s'. radio_read_off (trace s') = radio_read_off (trace s) \<Longrightarrow> Q r s'"
  shows "wp (apply_steps K ip tr core i es applied) Q s"
proof (rule wp_frame)
  show "emits (\<lambda>e. case e of Call (Regmap _) _ \<Rightarrow> False | _ \<Rightarrow> True) (apply_steps K ip tr core i es applied)"
    by (intro emits_rules) simp_all
qed (auto simp: radio_read_off_frame intro!: assms)

lemma phy_prepare_checked:
  "phy_prepare_and_operate K pp ip tr CORE_BASE PORT1_BASE (Some f) context =
   phy_prepare_and_operate K pp ip tr CORE_BASE PORT1_BASE (Some (\<lambda>p c. checked (phy_ready pp) (f p c))) context"
proof (rule prog_eqI)
  fix s
  let ?preparation = "if pp then do {
          r \<leftarrow> radio_is_off K;
          if r \<noteq> 0 then return (r, []) else
          apply_steps K ip tr CORE_BASE 0 core_steps []
        } else return (0, [])"
  have preparation_ok: "wp ?preparation (\<lambda>p s'. fst p = 0 \<longrightarrow> pp \<longrightarrow> radio_read_off (trace s')) s"
    by (intro wp_rules wp_radio_is_off wp_apply_radio) simp_all
  have core_ok: "wp (check_alive K CORE_BASE core_offsets) (\<lambda>r s'. r = 0 \<longrightarrow>
      (pp \<longrightarrow> radio_read_off (trace s')) \<and> list_all (\<lambda>off. read_alive (CORE_BASE + off) (trace s')) core_offsets) t"
    if "pp \<longrightarrow> radio_read_off (trace t)" for t
    by (rule wp_check_alive) (use that in simp)
  have port_ok: "wp (check_alive K PORT1_BASE port_offsets) (\<lambda>r s'. r = 0 \<longrightarrow> phy_ready pp (trace s')) t"
    if "(pp \<longrightarrow> radio_read_off (trace t)) \<and> list_all (\<lambda>off. read_alive (CORE_BASE + off) (trace t)) core_offsets" for t
    by (rule wp_check_alive) (use that in \<open>auto simp: phy_ready_def list_all_iff\<close>)
  show "run_state (phy_prepare_and_operate K pp ip tr CORE_BASE PORT1_BASE (Some f) context) s =
   run_state (phy_prepare_and_operate K pp ip tr CORE_BASE PORT1_BASE (Some (\<lambda>p c. checked (phy_ready pp) (f p c))) context) s"
    unfolding phy_prepare_and_operate_def option.case
    by (intro run_bind_cong [OF preparation_ok] run_cong run_bind_cong [OF core_ok] run_bind_cong [OF port_ok]
        run_bind_left) (simp_all add: run_checked)
qed

section \<open>Properties\<close>

lemmas pcie_phy_run = a1625_with_pcie_phy_def phy_prepare_and_operate_def radio_is_off_def
  core_steps_def core_step_def core_offsets_def port_offsets_def

text \<open>
  Round trip: if the PHY registers store what is written to them and do not read all ones, then
  after the stage every register of the block has the value it had before, on every path: in the
  full setup, in both diagnostic prefixes, and after a failed or a successful callback that does
  not itself write the block.
\<close>

theorem pcie_phy_restores_registers:
  assumes "run_state (a1625_with_pcie_phy K prepare_port inspect_prefix test_refclk operate ctx) s = (r, s')"
    and "register_file init core_region K" and "bit31_clear (mmio_at init (trace s))"
    and "leaves_core operate" and "core_region a"
  shows "mmio_at init (trace s') a = mmio_at init (trace s) a"
proof -
  have "wp (a1625_with_pcie_phy K prepare_port inspect_prefix test_refclk operate ctx)
    (\<lambda>_ s'. \<forall>a. core_region a \<longrightarrow> mmio_at init (trace s') a = mmio_at init (trace s) a) s"
    by (rule wp_phy_restores [OF assms(2,4,3)]) blast
  from wp_run [OF this assms(1)] assms(5) show ?thesis by blast
qed

lemma board_core_live: "bit31_clear (mmio_at board_init (trace boot))"
  by (simp add: bit31_clear_def board_init_def bit_numeral_rec)

lemma board_core_file: "register_file board_init core_region board"
  using board_register_file by (simp add: register_file_def)

theorem pcie_phy_restores_registers_witness:
  "mmio_at board_init (trace (snd (run_state (a1625_with_pcie_phy board True False False None 0) boot))) 0x600000188 = 0x100"
proof -
  have a: "core_region 0x600000188" by (simp add: core_region_def)
  have none: "leaves_core None" by (simp add: leaves_core_def)
  show ?thesis
    using pcie_phy_restores_registers [OF run_split [OF refl] board_core_file board_core_live none a]
    by (simp add: board_init_def)
qed

text \<open>
  For every kernel and every answer of the hardware: each write to the PHY block answers the read
  immediately before it, of the same register and of a value that is not all ones, and changes
  only the bits listed for that register; in the diagnostic prefix the counter command at
  \<open>0x860\<close> is never written. So a block that stops answering is not written to again.
\<close>

theorem pcie_phy_masked_writes:
  assumes "run_state (a1625_with_pcie_phy K prepare_port inspect_prefix test_refclk operate ctx) s = (r, s')"
    and "leaves_core operate" and "core_guarded inspect_prefix (trace s)"
  shows "core_guarded inspect_prefix (trace s')"
  by (rule wp_run [OF wp_phy_guarded [OF assms(2,3)] assms(1)])

theorem pcie_phy_masked_writes_witness:
  "core_guarded True (trace (snd (run_state (a1625_with_pcie_phy board True True True None 0) boot)))"
  by (rule pcie_phy_masked_writes [OF run_split [OF refl]]) (simp_all add: leaves_core_def)


text \<open>
  The stage leaves no resource behind, on any path and for any kernel.
\<close>

theorem pcie_phy_leak_free:
  assumes "run_state (a1625_with_pcie_phy K prepare_port inspect_prefix test_refclk operate ctx) s = (r, s')"
    and "\<And>x a. keeps x (client2 operate a)"
  shows "held (trace s') x = held (trace s) x"
  by (rule phy.run_keeps [OF _ assms(2,1)]) simp

theorem pcie_phy_leak_free_witness:
  "held (trace (snd (run_state (a1625_with_pcie_phy board True False False None 0) boot))) (Mapping CORE_BASE) = 0"
proof -
  have "keeps x (client2 None a)" for x and a :: "u64 \<times> u64"
    by (simp add: client2_def keeps_return)
  from pcie_phy_leak_free [OF run_split [OF refl] this] show ?thesis by simp
qed

end
