(* ===== verification/PcieModule.thy ===== *)
theory PcieModule
  imports Observers PowerDomains PciePhy
begin

text \<open>
  The module a1625_pcie_domains.c as a whole: how its options select the stages, how the stages nest
  (power domains, PHY, MSI domain, DART, radio, endpoint, scan), and its initialization, which checks the
  options and never lets the module stay loaded.
\<close>

section \<open>The nesting of the stages\<close>

definition set_scan_dart :: "ptr \<Rightarrow> unit prog" where
  "set_scan_dart d = upd_machine (\<lambda>s. s\<lparr>v_scan_dart := d\<rparr>)"

definition set_scan_msi_domain :: "ptr \<Rightarrow> unit prog" where
  "set_scan_msi_domain d = upd_machine (\<lambda>s. s\<lparr>v_scan_msi_domain := d\<rparr>)"

definition observe_radio_with_dart :: "kernel \<Rightarrow> u64 \<Rightarrow> nat \<Rightarrow> options \<Rightarrow> ptr \<Rightarrow> u64 \<Rightarrow> int prog" where
  "observe_radio_with_dart K hz fuel opt dart port = do {
     set_scan_dart dart;
     r \<leftarrow> a1625_radio_pulse K True (Some (observe_held_radio K hz fuel opt)) port;
     set_scan_dart 0;
     return r
   }"

definition observe_pci_with_msi :: "kernel \<Rightarrow> u64 \<Rightarrow> nat \<Rightarrow> options \<Rightarrow> ptr \<Rightarrow> u64 \<Rightarrow> int prog" where
  "observe_pci_with_msi K hz fuel opt domain port = do {
     set_scan_msi_domain domain;
     r \<leftarrow> a1625_with_dart K (Some (observe_radio_with_dart K hz fuel opt)) port (o_test_dma_range opt);
     set_scan_msi_domain 0;
     return r
   }"

text \<open>One statement \<open>if (!ret && b) ret = m;\<close> of the sequence.\<close>

definition and_then :: "int \<Rightarrow> bool \<Rightarrow> int prog \<Rightarrow> int prog" where
  "and_then r b m = (if r = 0 \<and> b then m else return r)"

definition observe_ready_phy :: "kernel \<Rightarrow> u64 \<Rightarrow> nat \<Rightarrow> u64 \<Rightarrow> options \<Rightarrow> u64 \<Rightarrow> u64 \<Rightarrow> int prog" where
  "observe_ready_phy K hz fuel page_size opt port context = do {
     r \<leftarrow> (if o_inspect_rc opt then snapshot_root_port K else return 0);
     r \<leftarrow> and_then r (o_inspect_dart opt) (snapshot_dart K opt False);
     r \<leftarrow> and_then r (o_probe_msi opt) (a1625_msi_probe K port);
     r \<leftarrow> and_then r (o_probe_dart opt)
            (a1625_with_dart K (if o_map_dart opt then Some (a1625_dart_map K page_size) else None) 0 (o_test_dma_range opt));
     r \<leftarrow> and_then r (o_probe_dart opt) (snapshot_dart K opt True);
     r \<leftarrow> and_then r (o_scan_msi opt) (a1625_with_msi K port (Some (observe_pci_with_msi K hz fuel opt)) port);
     r \<leftarrow> and_then r (o_scan_iommu opt \<and> \<not> o_scan_msi opt)
            (a1625_with_dart K (Some (observe_radio_with_dart K hz fuel opt)) port (o_test_dma_range opt));
     r \<leftarrow> and_then r (o_scan_iommu opt) (snapshot_dart K opt True);
     and_then r (o_pulse_radio opt \<and> \<not> o_scan_iommu opt)
       (a1625_radio_pulse K True (Some (observe_held_radio K hz fuel opt)) port)
   }"

definition snapshot_registers :: "kernel \<Rightarrow> u64 \<Rightarrow> nat \<Rightarrow> u64 \<Rightarrow> options \<Rightarrow> int prog" where
  "snapshot_registers K hz fuel page_size opt =
     a1625_with_pcie_phy K (o_prepare_port opt) (o_inspect_prefix opt) (o_test_refclk opt)
       (Some (observe_ready_phy K hz fuel page_size opt)) 0"

definition run_domain_observation :: "kernel \<Rightarrow> u64 \<Rightarrow> nat \<Rightarrow> u64 \<Rightarrow> options \<Rightarrow> u64 \<Rightarrow> int prog" where
  "run_domain_observation K hz fuel page_size opt context = snapshot_registers K hz fuel page_size opt"

section \<open>Initialization\<close>

definition options_rejected :: "options \<Rightarrow> bool" where
  "options_rejected opt \<longleftrightarrow>
     o_snapshot opt \<and> \<not> o_cycle opt \<or>
     o_force_active opt \<and> \<not> o_cycle opt \<or>
     o_prepare_port opt \<and> (\<not> o_snapshot opt \<or> \<not> o_cycle opt) \<or>
     o_inspect_prefix opt \<and> \<not> o_prepare_port opt \<or>
     o_inspect_rc opt \<and> \<not> o_inspect_prefix opt \<or>
     o_test_refclk opt \<and> \<not> o_inspect_prefix opt \<or>
     o_inspect_dart opt \<and> \<not> o_test_refclk opt \<or>
     o_probe_dart opt \<and> (\<not> o_inspect_dart opt \<or> \<not> o_force_active opt \<or> o_pulse_radio opt) \<or>
     o_map_dart opt \<and> \<not> o_probe_dart opt \<or>
     o_test_dma_range opt \<and> \<not> o_map_dart opt \<and> \<not> o_scan_iommu opt \<or>
     o_pulse_radio opt \<and> (\<not> o_test_refclk opt \<or> \<not> o_inspect_rc opt \<or> \<not> o_force_active opt) \<or>
     o_train_link opt \<and> \<not> o_pulse_radio opt \<or>
     o_identify_endpoint opt \<and> \<not> o_train_link opt \<or>
     o_identify_chip opt \<and> \<not> o_identify_endpoint opt \<or>
     o_inspect_erom opt \<and> \<not> o_identify_chip opt \<or>
     o_scan_pci opt \<and> (\<not> o_identify_endpoint opt \<or> o_identify_chip opt) \<or>
     o_scan_iommu opt \<and> (\<not> o_scan_pci opt \<or> \<not> o_inspect_dart opt \<or> o_probe_dart opt \<or> o_map_dart opt) \<or>
     o_scan_msi opt \<and> \<not> o_scan_iommu opt \<or>
     o_assign_memory opt \<and> \<not> o_scan_msi opt \<or>
     o_bind_firmware opt \<and> \<not> o_assign_memory opt \<or>
     o_hold_seconds opt \<noteq> 0 \<and> (\<not> o_bind_firmware opt \<or> 3600 < o_hold_seconds opt) \<or>
     o_hold_until_signal opt \<and> (\<not> o_bind_firmware opt \<or> o_hold_seconds opt \<noteq> 0) \<or>
     o_probe_msi opt \<and> (\<not> o_test_refclk opt \<or> \<not> o_force_active opt \<or> o_pulse_radio opt \<or> o_probe_dart opt)"

definition a1625_pcie_domains_init :: "kernel \<Rightarrow> u64 \<Rightarrow> nat \<Rightarrow> u64 \<Rightarrow> options \<Rightarrow> int prog" where
  "a1625_pcie_domains_init K hz fuel page_size opt =
     (if options_rejected opt then return (- EINVAL) else do {
      r \<leftarrow> a1625_with_pcie_domains K (o_cycle opt) (o_force_active opt)
             (if o_snapshot opt then Some (run_domain_observation K hz fuel page_size opt) else None) 0;
      return (if r \<noteq> 0 then r else - ECANCELED)
      })"

end
