(* ===== verification/Brackets.thy ===== *)
theory Brackets
  imports PcieModule
begin

text \<open>
  The stages as brackets around their clients. A bracket makes calls of its own kinds only, before and
  after the one call of its client; so what the client turns a property of the history into, the stage
  turns it into as well, as long as the property survives the stage's own calls. The properties of the
  whole module are composed from the properties of the innermost clients with this rule.
\<close>

section \<open>Properties of the history\<close>

definition takes :: "(event list \<Rightarrow> bool) \<Rightarrow> (event list \<Rightarrow> bool) \<Rightarrow> 'a prog \<Rightarrow> bool" where
  "takes I J m \<longleftrightarrow> (\<forall>s. I (trace s) \<longrightarrow> wp m (\<lambda>_ s'. J (trace s')) s)"

definition closed :: "(event \<Rightarrow> bool) \<Rightarrow> (event list \<Rightarrow> bool) \<Rightarrow> bool" where
  "closed own I \<longleftrightarrow> (\<forall>e t. own e \<longrightarrow> I t \<longrightarrow> I (e # t))"

lemma closedD: "closed own I \<Longrightarrow> I t \<Longrightarrow> own e \<Longrightarrow> I (e # t)"
  by (simp add: closed_def)

lemma takesI: "(\<And>s. I (trace s) \<Longrightarrow> wp m (\<lambda>_ s'. J (trace s')) s) \<Longrightarrow> takes I J m"
  by (simp add: takes_def)

lemma wp_takes:
  assumes "takes I J m" and "I (trace s)" and "\<And>r s'. J (trace s') \<Longrightarrow> Q r s'"
  shows "wp m Q s"
  using assms wp_mono unfolding takes_def by blast

lemma closed_append: "closed own I \<Longrightarrow> list_all own new \<Longrightarrow> I t \<Longrightarrow> I (new @ t)"
  by (induction new) (auto intro: closedD)

lemma wp_own:
  assumes "emits own m" and "closed own I" and "I (trace s)" and "\<And>r (s' :: machine). I (trace s') \<Longrightarrow> Q r s'"
  shows "wp m Q s"
  by (rule wp_frame [OF assms(1)]) (use closed_append [OF assms(2) _ assms(3)] in \<open>auto intro!: assms(4)\<close>)

lemma takes_emits: "emits own m \<Longrightarrow> closed own I \<Longrightarrow> (\<And>t. I t \<Longrightarrow> J t) \<Longrightarrow> takes I J m"
  by (intro takesI wp_own [where I = I]) auto

lemma takes_return: "(\<And>t. I t \<Longrightarrow> J t) \<Longrightarrow> takes I J (return x)"
  by (intro takesI wp_return) auto

lemma takes_run: "takes I J m \<Longrightarrow> run_state m s = (r, s') \<Longrightarrow> I (trace s) \<Longrightarrow> J (trace s')"
  unfolding takes_def using wp_run by fast

text \<open>Growth by events of one kind; \<open>emits\<close> is its preservation.\<close>

definition grows :: "(event \<Rightarrow> bool) \<Rightarrow> event list \<Rightarrow> event list \<Rightarrow> bool" where
  "grows P t0 t \<longleftrightarrow> (\<exists>new. t = new @ t0 \<and> list_all P new)"

lemma grows_refl: "grows P t t"
  by (simp add: grows_def)

lemma closed_grows: "(\<And>e. own e \<Longrightarrow> P e) \<Longrightarrow> closed own (grows P t0)"
proof (unfold closed_def grows_def, intro allI impI)
  fix e t assume *: "\<And>e. own e \<Longrightarrow> P e" "own e" "\<exists>new. t = new @ t0 \<and> list_all P new"
  then obtain new where "t = new @ t0" "list_all P new" by blast
  with * show "\<exists>new. e # t = new @ t0 \<and> list_all P new" by (intro exI [of _ "e # new"]) simp
qed

lemma emits_takes: "emits P m \<longleftrightarrow> (\<forall>t0. takes (grows P t0) (grows P t0) m)"
proof
  assume "emits P m"
  then show "\<forall>t0. takes (grows P t0) (grows P t0) m"
    by (auto intro: takes_emits closed_grows)
next
  assume *: "\<forall>t0. takes (grows P t0) (grows P t0) m"
  show "emits P m"
    unfolding emits_def
    by (intro allI wp_takes [OF spec [OF *]]) (auto simp: grows_def)
qed

section \<open>Brackets\<close>

locale bracket =
  fixes stage :: "'cb \<Rightarrow> int prog"
    and client :: "'cb \<Rightarrow> 'arg \<Rightarrow> int prog"
    and own :: "event \<Rightarrow> bool"
  assumes stage_takes:
    "closed own I \<Longrightarrow> closed own J \<Longrightarrow> (\<And>t. I t \<Longrightarrow> J t) \<Longrightarrow> (\<And>a. takes I J (client cb a)) \<Longrightarrow> takes I J (stage cb)"
begin

lemma stage_keeps_history: "closed own I \<Longrightarrow> (\<And>a. takes I I (client cb a)) \<Longrightarrow> takes I I (stage cb)"
  by (rule stage_takes)

lemma stage_emits:
  assumes "\<And>a. emits P (client cb a)" and "\<And>e. own e \<Longrightarrow> P e"
  shows "emits P (stage cb)"
  unfolding emits_takes
  by (intro allI stage_keeps_history closed_grows assms(2)) (use assms(1) in \<open>auto simp: emits_takes\<close>)

end

section \<open>The DART lifetime\<close>

definition tree_event :: "event \<Rightarrow> bool" where
  "tree_event e \<longleftrightarrow> (case e of Call c _ \<Rightarrow> (case c of Of _ \<Rightarrow> True | Cs _ \<Rightarrow> True | Dev _ \<Rightarrow> True | _ \<Rightarrow> False) | _ \<Rightarrow> False)"

lemma tree_event_calls [simp]:
  "tree_event (Call (Of c1) r)" "tree_event (Call (Cs c2) r)" "tree_event (Call (Dev c3) r)"
  by (simp_all add: tree_event_def)

lemma tree_parts:
  "emits tree_event (is_j42d_t7000 K)"
  "emits tree_event (add_props K cs node ps)"
  "emits tree_event (add_phandle K node)"
  "emits tree_event (dart_resource K node)"
  "emits tree_event (remove_node K cs node applied r)"
proof -
  show "emits tree_event (add_props K cs node ps)"
    by (induction ps) (auto intro!: emits_rules)
qed (auto simp: add_phandle_def dart_resource_def remove_node_def intro!: emits_rules)

lemma with_dart_takes:
  assumes cI: "closed tree_event I" and cJ: "closed tree_event J" and IJ: "\<And>t. I t \<Longrightarrow> J t"
    and client: "\<And>a. takes I J (client2 operate a)"
  shows "takes I J (a1625_with_dart K operate ctx test_dma_range)"
proof -
  note step = closedD [OF cI] closedD [OF cJ]
  note part = wp_own [OF _ cI]
  have f: "wp (f d c) Q s" if "operate = Some f" "I (trace s)" "\<And>r s'. J (trace s') \<Longrightarrow> Q r s'" for f d c Q s
    using client [of "(d, c)"] that by (auto simp: client2_def intro: wp_takes)
  have device: "wp (dart_device K operate ctx node) Q s" if "I (trace s)" "\<And>r s'. J (trace s') \<Longrightarrow> Q r s'" for node Q s
    unfolding dart_device_def
    by (cases operate; simp only: option.case; intro wp_rules f that(2)) (simp_all add: step IJ that(1))
  have node: "wp (dart_node K operate ctx test_dma_range ph node) Q s" if "I (trace s)" "\<And>r s'. J (trace s') \<Longrightarrow> Q r s'" for ph node Q s
    unfolding dart_node_def
    by (intro wp_rules part [OF tree_parts(2)] part [OF tree_parts(3)] part [OF tree_parts(4)] device
        wp_own [OF tree_parts(5) cJ] that(2)) (simp_all add: step IJ that(1))
  have changeset: "wp (dart_changeset K operate ctx test_dma_range ph soc) Q s" if "I (trace s)" "\<And>r s'. J (trace s') \<Longrightarrow> Q r s'" for ph soc Q s
    unfolding dart_changeset_def
    by (intro wp_rules node that(2)) (simp_all add: step IJ that(1))
  show ?thesis
    unfolding a1625_with_dart_def
    by (intro takesI wp_rules part [OF tree_parts(1)] changeset) (simp_all add: step IJ)
qed

interpretation dart_bracket: bracket "\<lambda>operate. a1625_with_dart K operate ctx test_dma_range" client2 tree_event
  for K ctx test_dma_range
  by unfold_locales (rule with_dart_takes)

section \<open>The MSI domain\<close>

text \<open>Register writes go to the two MSI registers of the port.\<close>

definition msi_event :: "u64 \<Rightarrow> event \<Rightarrow> bool" where
  "msi_event port e \<longleftrightarrow> (case e of
     Call c _ \<Rightarrow> (case c of Of _ \<Rightarrow> True | Irq _ \<Rightarrow> True | Mmio (Readl _) \<Rightarrow> True
       | Mmio (Writel a _) \<Rightarrow> a = port + 0x124 \<or> a = port + 0x128 | _ \<Rightarrow> False)
   | CallbackResult cb _ _ \<Rightarrow> (case cb of MsiAlloc _ _ \<Rightarrow> True | MsiFree _ _ \<Rightarrow> True | MsiEoi _ \<Rightarrow> True | _ \<Rightarrow> False))"

lemma msi_event_calls [simp]:
  "msi_event port (Call (Of c1) r)" "msi_event port (Call (Irq c2) r)" "msi_event port (Call (Mmio (Readl a)) r)"
  "msi_event port (Call (Mmio (Writel (port + 0x124) v)) r)" "msi_event port (Call (Mmio (Writel (port + 0x128) v)) r)"
  "msi_event port (CallbackResult (MsiAlloc x y) q z)" "msi_event port (CallbackResult (MsiFree x y) q z)"
  "msi_event port (CallbackResult (MsiEoi w) q z)"
  by (simp_all add: msi_event_def)

lemma msi_loop_parts:
  "emits (msi_event port) (set_hwirqs K d v h n)" "emits (msi_event port) (free_slots K d v n)"
  "emits (msi_event port) (reset_irq_data K d v n)"
  by (induction n arbitrary: v h) (auto simp: set_used_def intro!: emits_rules)

lemma msi_callback_parts: "emits (msi_event port) (msi_callback K cb)"
  by (cases cb) (auto simp: msi_callback_def a1625_msi_alloc_def a1625_msi_free_def a1625_msi_eoi_def set_used_def
      intro!: emits_rules msi_loop_parts)

lemma run_msi_callbacks_parts: "emits (msi_event port) (run_msi_callbacks K cbs)"
  by (induction cbs) (auto intro!: emits_rules msi_callback_parts)

lemma msi_parts:
  "emits (msi_event port) (is_j42d_t7000 K)"
  "emits (msi_event port) (any_mapped K parent is)"
  "emits (msi_event port) (still_mapped K parent is r)"
  "emits (msi_event port) (check_messages K domain is irqs)"
  "emits (msi_event port) (free_irqs K irqs)"
  "emits (msi_event port) (init_msi aic)"
  "emits (msi_event port) (msi_remove_domain K port parent domain control base irqs r)"
proof -
  show any: "emits (msi_event port) (any_mapped K parent is)" by (induction "is") (auto intro!: emits_rules)
  show still: "emits (msi_event port) (still_mapped K parent is r)" for "is" r
    by (induction "is" arbitrary: r) (auto intro!: emits_rules)
  have message: "emits (msi_event port) (check_message K domain irq i)" for irq i
    unfolding check_message_def by (intro emits_rules) simp_all
  show "emits (msi_event port) (check_messages K domain is irqs)"
    by (induction "is" arbitrary: irqs)
      (auto simp: irq_domain_alloc_irqs_def intro!: emits_rules run_msi_callbacks_parts message)
  show free: "emits (msi_event port) (free_irqs K irqs)" for irqs
    by (induction irqs) (auto simp: irq_domain_free_irqs_def intro!: emits_rules run_msi_callbacks_parts)
  show "emits (msi_event port) (msi_remove_domain K port parent domain control base irqs r)"
    unfolding msi_remove_domain_def by (intro emits_rules free still) simp_all
qed (auto simp: init_msi_def intro!: emits_rules)

lemma with_msi_takes:
  assumes cI: "closed (msi_event port) I" and cJ: "closed (msi_event port) J" and IJ: "\<And>t. I t \<Longrightarrow> J t"
    and client: "\<And>a. takes I J (client2 operate a)"
  shows "takes I J (a1625_with_msi K port operate ctx)"
proof -
  note step = closedD [OF cI] closedD [OF cJ]
  note part = wp_own [OF _ cI]
  have f: "wp (f d c) Q s" if "operate = Some f" "I (trace s)" "\<And>r s'. J (trace s') \<Longrightarrow> Q r s'" for f d c Q s
    using client [of "(d, c)"] that by (auto simp: client2_def intro: wp_takes)
  have domain: "wp (msi_with_domain K port domain operate ctx) Q s" if "I (trace s)" "\<And>r s'. J (trace s') \<Longrightarrow> Q r s'" for domain Q s
    unfolding msi_with_domain_def
    by (cases operate; simp only: option.case; intro wp_rules part [OF msi_parts(4)] part [OF msi_parts(5)] f that(2))
      (simp_all add: step IJ that(1))
  have stage: "wp (msi_domain_stage K port parent control base operate ctx) Q s"
    if "I (trace s)" "\<And>r s'. J (trace s') \<Longrightarrow> Q r s'" for parent control base Q s
    unfolding msi_domain_stage_def
    by (intro wp_rules domain wp_own [OF msi_parts(7) cJ] that(2)) (simp_all add: step IJ that(1))
  show ?thesis
    unfolding a1625_with_msi_def
    by (intro takesI wp_rules part [OF msi_parts(1)] part [OF msi_parts(2)] part [OF msi_parts(6)] stage)
      (simp_all add: step IJ)
qed

interpretation msi_bracket: bracket "\<lambda>operate. a1625_with_msi K port operate ctx" client2 "msi_event port"
  for K port ctx
  by unfold_locales (rule with_msi_takes)

section \<open>The PHY\<close>

definition phy_event :: "event \<Rightarrow> bool" where
  "phy_event e \<longleftrightarrow> (case e of
     Call c _ \<Rightarrow> (case c of Of _ \<Rightarrow> True | Dev _ \<Rightarrow> True | Time _ \<Rightarrow> True
       | Regmap (RegmapRead _ q) \<Rightarrow> q = PMU_WL_REG_ON
       | Mmio m \<Rightarrow> (case m of Writel a _ \<Rightarrow> core_region a | Writew _ _ \<Rightarrow> False | _ \<Rightarrow> True)
       | _ \<Rightarrow> False)
   | _ \<Rightarrow> False)"

lemma phy_event_calls [simp]:
  "phy_event (Call (Of c1) r)" "phy_event (Call (Dev c2) r)" "phy_event (Call (Time c3) r)"
  "phy_event (Call (Regmap (RegmapRead m PMU_WL_REG_ON)) r)" "phy_event (Call (Mmio (Readl a)) r)"
  "core_region a \<Longrightarrow> phy_event (Call (Mmio (Writel a v)) r)"
  "phy_event (Call (Mmio (Ioremap a n)) r)" "phy_event (Call (Mmio (Iounmap a)) r)"
  "phy_event (Call (Mmio (RequestMemRegion a n)) r)" "phy_event (Call (Mmio (ReleaseMemRegion a n)) r)"
  by (simp_all add: phy_event_def)

abbreviation in_core :: "u64 \<Rightarrow> core_step list \<Rightarrow> bool" where
  "in_core core sts \<equiv> list_all (\<lambda>st. core_region (core + cs_offset st)) sts"

lemma wp_apply_steps_own:
  assumes c: "closed phy_event I" and "I (trace s)" and "in_core core es" and "in_core core applied"
    and Q: "\<And>r sts s'. I (trace s') \<Longrightarrow> in_core core sts \<Longrightarrow> Q (r, sts) s'"
    and "ip \<and> i \<le> 11 \<longrightarrow> i + length es = 13"
  shows "wp (apply_steps K ip tr core i es applied) Q s"
  using assms(2-4,6)
proof (induction es arbitrary: i applied s)
  case Nil
  then show ?case by (auto intro!: wp_rules Q)
next
  case (Cons e es)
  have hd: "core_region (core + cs_offset (hd es))" if "ip" "i = 11"
    using Cons.prems(2,4) that by (cases es) auto
  show ?case
    unfolding apply_steps.simps
    by (intro wp_rules Q Cons.IH)
      (use Cons.prems hd in \<open>auto simp: closedD [OF c]\<close>)
qed

lemma wp_rollback_own:
  assumes c: "closed phy_event I" and "I (trace s)" and "in_core core applied"
    and Q: "\<And>r s'. I (trace s') \<Longrightarrow> Q r s'"
  shows "wp (rollback_steps K core applied r) Q s"
  using assms(2,3)
proof (induction applied arbitrary: r s)
  case Nil
  then show ?case by (auto intro!: wp_rules Q)
next
  case (Cons st applied)
  then show ?case
    unfolding rollback_steps.simps by (intro wp_rules Q Cons.IH) (auto simp: closedD [OF c])
qed

lemma phy_parts:
  "emits phy_event (is_j42d_t7000 K)" "emits phy_event (radio_is_off K)" "emits phy_event (check_alive K base offs)"
proof -
  show "emits phy_event (check_alive K base offs)"
    by (induction offs) (auto intro!: emits_rules)
  show "emits phy_event (radio_is_off K)"
    unfolding radio_is_off_def by (intro emits_rules) simp_all
qed (intro emits_rules; simp)

lemma with_pcie_phy_takes:
  assumes cI: "closed phy_event I" and cJ: "closed phy_event J" and IJ: "\<And>t. I t \<Longrightarrow> J t"
    and client: "\<And>a. takes I J (client2 operate a)"
  shows "takes I J (a1625_with_pcie_phy K pp ip tr operate ctx)"
proof -
  note step = closedD [OF cI] closedD [OF cJ]
  note part = wp_own [OF _ cI]
  have f: "wp (f d c) Q s" if "operate = Some f" "I (trace s)" "\<And>r s'. J (trace s') \<Longrightarrow> Q r s'" for f d c Q s
    using client [of "(d, c)"] that by (auto simp: client2_def intro: wp_takes)
  have prepare: "wp (phy_prepare_and_operate K pp ip tr CORE_BASE port operate ctx) Q s"
    if "I (trace s)" "\<And>r sts s'. J (trace s') \<Longrightarrow> in_core CORE_BASE sts \<Longrightarrow> Q (r, sts) s'" for port Q s
    unfolding phy_prepare_and_operate_def
    by (cases operate; simp only: option.case; intro wp_rules part [OF phy_parts(2)] part [OF phy_parts(3)]
        wp_apply_steps_own [OF cI] f that(2))
      (simp_all add: step IJ that(1) core_steps_region, (simp add: core_steps_def)+)
  show ?thesis
    unfolding a1625_with_pcie_phy_def
    by (intro takesI wp_rules part [OF phy_parts(1)] prepare wp_rollback_own [OF cJ])
      (simp_all add: step IJ)
qed

interpretation phy_bracket: bracket "\<lambda>operate. a1625_with_pcie_phy K pp ip tr operate ctx" client2 phy_event
  for K pp ip tr ctx
  by unfold_locales (rule with_pcie_phy_takes)

section \<open>The radio\<close>

definition pin_event :: "event \<Rightarrow> bool" where
  "pin_event e \<longleftrightarrow> (case e of
     Call c _ \<Rightarrow> (case c of Of _ \<Rightarrow> True | Dev _ \<Rightarrow> True | Time _ \<Rightarrow> True | Gpio _ \<Rightarrow> True
       | Regmap m \<Rightarrow> (case m of RegmapRead _ q \<Rightarrow> q \<in> {PMU_WL_REG_ON, PIN_PERST, PIN_CLKREQ, PIN_DEVICE_WAKE}
         | RegmapReadBypassed _ q \<Rightarrow> q \<in> {PMU_WL_REG_ON, PIN_PERST, PIN_CLKREQ, PIN_DEVICE_WAKE} | RegmapWrite _ q _ \<Rightarrow> q = PMU_WL_REG_ON \<or> q = PIN_PERST | _ \<Rightarrow> False)
       | _ \<Rightarrow> False)
   | _ \<Rightarrow> False)"

lemma pin_event_calls [simp]:
  "pin_event (Call (Of c1) r)" "pin_event (Call (Dev c2) r)" "pin_event (Call (Time c3) r)" "pin_event (Call (Gpio c4) r)"
  "pin_event (Call (Regmap (RegmapRead m q)) r) \<longleftrightarrow> q \<in> {PMU_WL_REG_ON, PIN_PERST, PIN_CLKREQ, PIN_DEVICE_WAKE}"
  "pin_event (Call (Regmap (RegmapReadBypassed m q)) r) \<longleftrightarrow> q \<in> {PMU_WL_REG_ON, PIN_PERST, PIN_CLKREQ, PIN_DEVICE_WAKE}"
  "pin_event (Call (Regmap (RegmapWrite m q v)) r) \<longleftrightarrow> q = PMU_WL_REG_ON \<or> q = PIN_PERST"
  by (simp_all add: pin_event_def)

lemma pin_parts:
  "emits pin_event (is_j42d_t7000 K)" "q \<in> {PMU_WL_REG_ON, PIN_PERST, PIN_CLKREQ, PIN_DEVICE_WAKE} \<Longrightarrow> emits pin_event (read_equal K m q v)" "emits pin_event (radio_devices_bound K gd pmu)"
  "emits pin_event (radio_restore K gm pm rs ps touched r)"
  by (auto simp: read_equal_def radio_devices_bound_def radio_restore_def intro!: emits_rules)

lemma radio_pulse_takes:
  assumes cI: "closed pin_event I" and cJ: "closed pin_event J" and IJ: "\<And>t. I t \<Longrightarrow> J t"
    and client: "\<And>a. takes I J (client3 obs a)"
  shows "takes I J (a1625_radio_pulse K pulse obs ctx)"
proof -
  note step = closedD [OF cI] closedD [OF cJ]
  note part = wp_own [OF _ cI]
  have wp_pins: "wp (read_equal K m q v) Q s" if "q \<in> {PMU_WL_REG_ON, PIN_PERST, PIN_CLKREQ, PIN_DEVICE_WAKE}" "I (trace s)"
      "\<And>r s'. I (trace s') \<Longrightarrow> Q r s'" for m q v Q s
    by (rule wp_own [OF pin_parts(2) [OF that(1)] cI that(2)]) (rule that(3))
  have f: "wp (f c g m) Q s" if "obs = Some f" "I (trace s)" "\<And>r s'. J (trace s') \<Longrightarrow> Q r s'" for f c g m Q s
    using client [of "(c, g, m)"] that by (auto simp: client3_def intro: wp_takes)
  have stage: "wp (radio_power_stage K gm pm reset obs ctx) Q s"
    if "I (trace s)" "\<And>r touched s'. J (trace s') \<Longrightarrow> Q (r, touched) s'" for gm pm reset Q s
    unfolding radio_power_stage_def
    by (cases obs; simp only: option.case; intro wp_bind [where m = "read_equal _ _ _ _"] wp_pins wp_rules f that(2))
      (simp_all add: step IJ that(1))
  have locked: "wp (radio_pulse_locked K gd pmu pulse obs ctx) Q s"
    if "I (trace s)" "\<And>r s'. J (trace s') \<Longrightarrow> Q r s'" for gd pmu Q s
    unfolding radio_pulse_locked_def
    by (intro stage wp_pins part [OF pin_parts(3)] wp_own [OF pin_parts(4) cJ] wp_rules that(2))
      (simp_all add: step IJ that(1))
  show ?thesis
    unfolding a1625_radio_pulse_def
    by (intro takesI part [OF pin_parts(1)] locked wp_rules) (simp_all add: step IJ)
qed

interpretation radio_bracket: bracket "\<lambda>obs. a1625_radio_pulse K pulse obs ctx" client3 pin_event
  for K pulse ctx
  by unfold_locales (rule radio_pulse_takes)

section \<open>The power domains\<close>

definition domain_event :: "event \<Rightarrow> bool" where
  "domain_event e \<longleftrightarrow> (case e of
     Call c _ \<Rightarrow> (case c of Of _ \<Rightarrow> True | Dev _ \<Rightarrow> True | Pm _ \<Rightarrow> True
       | Regmap m \<Rightarrow> (case m of RegmapWrite _ _ _ \<Rightarrow> False | _ \<Rightarrow> True) | _ \<Rightarrow> False)
   | _ \<Rightarrow> False)"

lemma domain_event_calls [simp]:
  "domain_event (Call (Of c1) r)" "domain_event (Call (Dev c2) r)" "domain_event (Call (Pm c3) r)"
  "domain_event (Call (Regmap (RegmapRead m q)) r)" "domain_event (Call (Regmap (RegmapUpdateBits m q k v)) r)"
  "domain_event (Call (Regmap (RegmapReadPollTimeout m q x y)) r)"
  by (simp_all add: domain_event_def)

lemma domain_parts:
  "emits domain_event (is_j42d_t7000 K)" "emits domain_event (check_baseline K m cycle ds)"
  "emits domain_event (attach_domains K i ds)" "emits domain_event (resume_domains K m ds)"
  "emits domain_event (force_domains K m ds)" "emits domain_event (release_domains K m ds r)"
  "emits domain_event (verify_released K m ds r)"
proof -
  show "emits domain_event (check_baseline K m cycle ds)" by (induction ds) (auto intro!: emits_rules)
  show "emits domain_event (attach_domains K i ds)" by (induction ds arbitrary: i) (auto intro!: emits_rules)
  show "emits domain_event (resume_domains K m ds)" by (induction ds) (auto intro!: emits_rules)
  show "emits domain_event (force_domains K m ds)" by (induction ds) (auto simp: Let_def intro!: emits_rules)
  show "emits domain_event (release_domains K m ds r)"
    by (induction ds arbitrary: r) (auto simp: release_domain_def intro!: emits_rules)
  show "emits domain_event (verify_released K m ds r)" by (induction ds arbitrary: r) (auto intro!: emits_rules)
qed (intro emits_rules; simp)

lemma with_pcie_domains_takes:
  assumes cI: "closed domain_event I" and cJ: "closed domain_event J" and IJ: "\<And>t. I t \<Longrightarrow> J t"
    and client: "\<And>a. takes I J (client1 operate a)"
  shows "takes I J (a1625_with_pcie_domains K cycle force_active operate ctx)"
proof -
  note step = closedD [OF cI] closedD [OF cJ]
  note part = wp_own [OF _ cI]
  have f: "wp (f c) Q s" if "operate = Some f" "I (trace s)" "\<And>r s'. J (trace s') \<Longrightarrow> Q r s'" for f c Q s
    using client [of c] that by (auto simp: client1_def intro: wp_takes)
  have acquire: "wp (acquire_and_operate K m force_active operate ctx) Q s"
    if "I (trace s)" "\<And>r ds s'. J (trace s') \<Longrightarrow> Q (r, ds) s'" for m Q s
    unfolding acquire_and_operate_def
    by (cases operate; simp only: option.case; intro part [OF domain_parts(3)] part [OF domain_parts(4)]
        part [OF domain_parts(5)] wp_rules f that(2)) (simp_all add: step IJ that(1))
  show ?thesis
    unfolding a1625_with_pcie_domains_def
    by (intro takesI part [OF domain_parts(1)] part [OF domain_parts(2)] wp_own [OF domain_parts(6) cJ]
        wp_own [OF domain_parts(7) cJ] acquire wp_rules) (simp_all add: step IJ)
qed

interpretation domains_bracket: bracket "\<lambda>operate. a1625_with_pcie_domains K cycle force_active operate ctx" client1 domain_event
  for K cycle force_active ctx
  by unfold_locales (rule with_pcie_domains_takes)

end
