(* ===== verification/Ordinary.thy ===== *)
theory Ordinary
  imports Brackets
begin

text \<open>
  The kinds of calls each part makes. \<open>ordinary\<close> events are neither power management, nor register-map,
  nor GPIO calls, and do not hand a device to its driver: the mapping check and the snapshots make no
  others, and the scan hands the radio over only with \<open>bind_firmware\<close>. So they leave the power domains and
  the pins alone, whatever callbacks run.
\<close>

section \<open>Ordinary events\<close>

definition ordinary :: "event \<Rightarrow> bool" where
  "ordinary e \<longleftrightarrow> (case e of Call c _ \<Rightarrow> (case c of Pm _ \<Rightarrow> False | Regmap _ \<Rightarrow> False | Gpio _ \<Rightarrow> False
     | Pci (PciBusAddDevice _) \<Rightarrow> False | _ \<Rightarrow> True) | _ \<Rightarrow> True)"

lemma ordinary_calls [simp]:
  "ordinary (Call (Mmio c1) r)" "ordinary (Call (Time c2) r)" "ordinary (Call (Of c3) r)" "ordinary (Call (Cs c4) r)"
  "ordinary (Call (Dev c5) r)" "ordinary (Call (Irq c6) r)" "ordinary (Call (Iommu c7) r)" "ordinary (Call (Pci c8) r) \<longleftrightarrow> \<not> starts_firmware (Call (Pci c8) r)"
  "ordinary (CallbackResult cb q v)"
  by (auto simp: ordinary_def starts_firmware_def split: pci_call.split)

lemma starts_firmware_calls [simp]:
  "starts_firmware (Call (Pci (PciBusAddDevice d)) r)"
  "(\<And>d. c \<noteq> PciBusAddDevice d) \<Longrightarrow> \<not> starts_firmware (Call (Pci c) r)"
  by (auto simp: starts_firmware_def split: pci_call.splits)

definition scan_event :: "bool \<Rightarrow> event \<Rightarrow> bool" where
  "scan_event bind_firmware e \<longleftrightarrow> ordinary e \<or> bind_firmware \<and> starts_firmware e"

lemma scan_event_ordinary [simp]: "ordinary e \<Longrightarrow> scan_event b e"
  by (simp add: scan_event_def)

lemma emits_scan_event: "emits ordinary m \<Longrightarrow> emits (scan_event b) m"
  by (erule emits_mono) simp

section \<open>The scan\<close>

lemma ordinary_msi [emits_rules]:
  "emits ordinary (set_hwirqs K d v h n)" "emits ordinary (free_slots K d v n)" "emits ordinary (reset_irq_data K d v n)"
  by (induction n arbitrary: v h) (auto simp: set_used_def intro!: emits_rules)

lemma ordinary_msi_callback [emits_rules]: "emits ordinary (msi_callback K cb)"
  by (cases cb) (auto simp: msi_callback_def a1625_msi_alloc_def a1625_msi_free_def a1625_msi_eoi_def set_used_def intro!: emits_rules)

lemma ordinary_leaf_callback [emits_rules]: "emits ordinary (leaf_callback K cb)"
  by (cases cb) (auto simp: leaf_callback_def a1625_scan_read_def a1625_scan_write_def intro!: emits_rules)

lemma ordinary_leaf_callbacks [emits_rules]: "emits ordinary (run_leaf_callbacks K cbs)"
  by (induction cbs) (auto intro!: emits_rules)

lemma ordinary_call_with_leaves [emits_rules]: "(\<And>r. ordinary (Call c r)) \<Longrightarrow> emits ordinary (call_with_leaves K c)"
  unfolding call_with_leaves_def by (intro emits_rules)

lemma ordinary_identify [emits_rules]:
  "emits ordinary (a1625_scan_endpoint_msi K dev)" "emits ordinary (check_radio_iommu K dev)" "emits ordinary (a1625_scan_identify K pdev)"
proof -
  show msi: "emits ordinary (a1625_scan_endpoint_msi K dev)" for dev
    unfolding a1625_scan_endpoint_msi_def by (intro emits_rules) simp_all
  show iommu: "emits ordinary (check_radio_iommu K dev)" for dev
    unfolding check_radio_iommu_def by (intro emits_rules) simp_all
  show "emits ordinary (a1625_scan_identify K pdev)"
    unfolding a1625_scan_identify_def by (intro emits_rules msi iommu) simp_all
qed

lemma ordinary_scan_callbacks [emits_rules]: "emits ordinary (run_scan_callbacks K cbs)"
proof (induction cbs)
  case (Cons cb cbs)
  have "emits ordinary (scan_callback K cb)"
    by (cases cb) (auto simp: scan_callback_def intro!: emits_rules)
  with Cons show ?case by (auto intro!: emits_rules)
qed (auto intro!: emits_rules)

lemma ordinary_call_with_scan [emits_rules]: "(\<And>r. ordinary (Call c r)) \<Longrightarrow> emits ordinary (call_with_scan K c)"
  unfolding call_with_scan_def by (intro emits_rules)

lemma ordinary_observation [emits_rules]:
  "emits ordinary (await_fault K regs n error)" "emits ordinary (report_tables K regs domain addr tables)"
  "emits ordinary (read_registers K base offs)" "emits ordinary (hold_loop K n dev regs until_signal deadline)"
proof -
  show "emits ordinary (await_fault K regs n error)" by (induction n arbitrary: error) (auto intro!: emits_rules)
  show "emits ordinary (report_tables K regs domain addr tables)" by (induction tables) (auto simp: Let_def intro!: emits_rules)
  show "emits ordinary (read_registers K base offs)" by (induction offs) (auto intro!: emits_rules)
  show "emits ordinary (hold_loop K n dev regs until_signal deadline)" by (induction n) (auto intro!: emits_rules)
qed

lemma ordinary_fault_tables [emits_rules]: "emits ordinary (a1625_scan_fault_tables K dev)"
  unfolding a1625_scan_fault_tables_def by (intro emits_rules) simp_all

lemma ordinary_hold [emits_rules]: "emits ordinary (a1625_hold_wifi K hz fuel dev seconds until_signal)"
  unfolding a1625_hold_wifi_def by (intro emits_rules) simp_all

lemma ordinary_firmware_observe [emits_rules]: "emits ordinary (firmware_observe K hz fuel dev)"
  unfolding firmware_observe_def by (intro emits_rules) simp_all

lemma scan_event_firmware: "emits (scan_event True) (a1625_scan_firmware K hz fuel root)"
proof -
  have "emits (scan_event True) (firmware_bind K hz fuel dev)" for dev
    unfolding firmware_bind_def call_with_leaves_def
    by (intro emits_rules emits_scan_event [OF ordinary_leaf_callbacks] emits_scan_event [OF ordinary_firmware_observe]
        emits_scan_event [OF ordinary_observation(3)]) (simp_all add: scan_event_def)
  then show ?thesis
    unfolding a1625_scan_firmware_def by (intro emits_rules) (simp_all add: scan_event_def)
qed

lemma ordinary_restore [emits_rules]:
  "emits ordinary (restore_controls K rc ep cs r)" "emits ordinary (restore_bars K cfg bs r)"
  "emits ordinary (header_restored K rc ep h)" "emits ordinary (read_bars K cfg offs)"
proof -
  show "emits ordinary (restore_controls K rc ep cs r)" by (induction cs arbitrary: r) (auto simp: Let_def intro!: emits_rules)
  show "emits ordinary (restore_bars K cfg bs r)" by (induction bs arbitrary: r) (auto intro!: emits_rules)
  show "emits ordinary (read_bars K cfg offs)" by (induction offs) (auto intro!: emits_rules)
  show "emits ordinary (header_restored K rc ep h)" unfolding header_restored_def by (intro emits_rules) simp_all
qed

lemma ordinary_scan_restore [emits_rules]: "emits ordinary (scan_restore K rc ep h r)"
  unfolding scan_restore_def by (intro emits_rules) simp_all

lemma scan_event_enumerate: "emits (scan_event bf) (scan_enumerate K hz fuel bridge am bf)"
proof -
  have firmware: "emits (scan_event bf) (if r = 0 \<and> bf then do { bus \<leftarrow> bridge_bus K bridge; a1625_scan_firmware K hz fuel bus } else return r)" for r
    by (cases bf) (auto intro!: emits_rules scan_event_firmware)
  show ?thesis
    unfolding scan_enumerate_def Let_def
    by (intro firmware emits_rules emits_scan_event [OF ordinary_call_with_leaves] emits_scan_event [OF ordinary_call_with_scan]) simp_all
qed

lemma scan_event_with_bridge: "emits (scan_event bf) (scan_with_bridge K hz fuel rc ep parent bridge md am bf h)"
  unfolding scan_with_bridge_def
  by (intro emits_rules scan_event_enumerate emits_scan_event [OF ordinary_scan_restore]) simp_all

lemma scan_event_with_parent: "emits (scan_event bf) (scan_with_parent K hz fuel rc ep node md am bf h)"
  unfolding scan_with_parent_def
  by (intro emits_rules scan_event_with_bridge) simp_all

lemma ordinary_add_props [emits_rules]: "emits ordinary (add_props K cs node ps)"
  by (induction ps) (auto intro!: emits_rules)

lemma ordinary_pci_node [emits_rules]:
  "emits ordinary (a1625_pci_node_create K dart)" "emits ordinary (a1625_pci_node_remove K st)"
  unfolding a1625_pci_node_create_def a1625_pci_node_remove_def by (intro emits_rules; simp)+

lemma ordinary_read_header [emits_rules]: "emits ordinary (scan_read_header K rc ep)"
  unfolding scan_read_header_def by (intro emits_rules) simp_all

lemma ordinary_save_controls [emits_rules]: "emits ordinary (a1625_scan_save_controls K)"
  unfolding emits_def
proof (intro allI wp_scan_save_controls)
  fix s s' assume "saves 26 s s'"
  then obtain new where "trace s' = new @ trace s" "list_all register_read new"
    unfolding saves_def by force
  moreover have "register_read e \<Longrightarrow> ordinary e" for e
    by (auto simp: register_read_def split: event.splits call.splits)
  ultimately show "\<exists>new. trace s' = new @ trace s \<and> list_all ordinary new"
    by (auto simp: list_all_iff)
qed

lemma scan_event_pci_scan: "emits (scan_event bf) (a1625_pci_scan K hz fuel rc ep dart md am bf hs hu)"
  unfolding a1625_pci_scan_def
  by (intro emits_rules scan_event_with_parent emits_scan_event [OF ordinary_read_header]
      emits_scan_event [OF ordinary_save_controls] emits_scan_event [OF ordinary_pci_node(1)] emits_scan_event [OF ordinary_pci_node(2)])

section \<open>The observers\<close>

lemma ordinary_erom [emits_rules]: "emits ordinary (erom_walk K bar offset components pcie)"
proof (induction K bar offset components pcie rule: erom_walk.induct)
  case (1 K bar offset components pcie)
  show ?case
    by (subst erom_walk.simps) (auto intro!: emits_rules 1)
qed

lemma ordinary_read_chip [emits_rules]: "emits ordinary (read_chip K ie ep bar)"
  unfolding read_chip_def inspect_components_def by (intro emits_rules) simp_all

lemma ordinary_chip [emits_rules]: "emits ordinary (snapshot_chip K ie rc ep)"
  unfolding snapshot_chip_def save_chip_def chip_untouched_def look_at_chip_def size_bar0_def map_chip_def
    set_checked_def set_command_def restore_chip_def chip_restored_def
  by (intro emits_rules) simp_all

lemma ordinary_live [emits_rules]: "emits ordinary (live_registers K base offs)"
  by (induction offs) (auto intro!: emits_rules)

lemma scan_event_observe_endpoint: "emits (scan_event (o_bind_firmware opt)) (observe_endpoint K hz fuel opt rc ep)"
  unfolding observe_endpoint_def
  by (intro emits_rules scan_event_pci_scan emits_scan_event [OF ordinary_live] emits_scan_event [OF ordinary_chip]) simp_all

lemma ordinary_restore_buses [emits_rules]: "emits ordinary (restore_buses K rc changed r)"
  unfolding restore_buses_def by (intro emits_rules) simp_all

lemma scan_event_endpoint: "emits (scan_event (o_bind_firmware opt)) (snapshot_endpoint K hz fuel opt)"
  unfolding snapshot_endpoint_def route_and_observe_def
  by (intro emits_rules scan_event_observe_endpoint emits_scan_event [OF ordinary_restore_buses]) simp_all

lemma ordinary_snapshots [emits_rules]:
  "emits ordinary (snapshot_dart K opt reset_expected)" "emits ordinary (snapshot_root_port K)"
proof -
  have regs: "emits ordinary (dart_registers K off rs dart offs)" for off rs dart offs
    by (induction offs) (auto intro!: emits_rules)
  show "emits ordinary (snapshot_dart K opt reset_expected)"
    unfolding snapshot_dart_def by (intro emits_rules regs) simp_all
  show "emits ordinary (snapshot_root_port K)"
    unfolding snapshot_root_port_def by (intro emits_rules) simp_all
qed

lemma scan_event_train: "emits (scan_event (o_bind_firmware opt)) (train_and_identify K hz fuel opt port control)"
  unfolding train_and_identify_def stop_link_def Let_def
  by (intro emits_rules scan_event_endpoint) simp_all

lemma ordinary_dart_map: "emits ordinary (a1625_dart_map K page_size dart ctx)"
proof -
  have probe: "emits ordinary (a1625_map_probe K ps pdev)" for ps pdev
    unfolding a1625_map_probe_def map_with_regs_def map_page_def check_mapping_def dma_domain_def
    by (intro emits_rules) simp_all
  have callbacks: "emits ordinary (run_map_callbacks K ps cbs)" for ps cbs
    by (induction cbs) (auto intro!: emits_rules probe split: callback.split)
  have remove: "emits ordinary (remove_node K cs node applied r)" for cs node applied r
    unfolding remove_node_def by (intro emits_rules) simp_all
  show ?thesis
    unfolding a1625_dart_map_def map_node_def map_device_def platform_device_add_def
    by (intro emits_rules callbacks remove) simp_all
qed

end
