(* ===== verification/ModuleSafety.thy ===== *)
theory ModuleSafety
  imports Ordinary
begin

text \<open>
  Safety of the whole module, composed from the parts: whatever options are set and whatever the kernel,
  the hardware and the callbacks do, the PCIe registers are only touched under power, the radio is only
  powered under reset, and bus mastering is only enabled for a driver.
\<close>

section \<open>Clients and stages, one after the other\<close>

lemma observe_held_radio_emits:
  assumes "\<And>e. scan_event (o_bind_firmware opt) e \<Longrightarrow> P e" and "\<And>m r. P (Call (Regmap (RegmapReadBypassed m PIN_CLKREQ)) r)"
    and "\<And>m r. P (Call (Regmap (RegmapReadBypassed m PIN_PERST)) r)" and "\<And>g v r. P (Call (Gpio (GpiodDirectionOutputRaw g v)) r)"
  shows "emits P (observe_held_radio K hz fuel opt port reset gpio_map)"
  unfolding observe_held_radio_def
  by (intro emits_rules emits_mono [OF scan_event_train] assms) simp_all

lemma and_then_emits: "emits P m \<Longrightarrow> emits P (and_then r b m)"
  unfolding and_then_def by (intro emits_rules)

text \<open>The MSI probe is the MSI lifetime without a client.\<close>

lemma msi_probe_emits: "emits (msi_event port) (a1625_msi_probe K port)"
  unfolding a1625_msi_probe_def
  by (rule msi_bracket.stage_emits) (simp_all add: client2_def emits_return)

text \<open>A client sees only the context the stage was given.\<close>

lemma with_dart_context: "a1625_with_dart K (Some f) ctx b = a1625_with_dart K (Some (\<lambda>d _. f d ctx)) ctx b"
  by (simp add: a1625_with_dart_def dart_changeset_def dart_node_def dart_device_def cong: if_cong)

lemma with_msi_context: "a1625_with_msi K port (Some f) ctx = a1625_with_msi K port (Some (\<lambda>d _. f d ctx)) ctx"
  by (simp add: a1625_with_msi_def msi_domain_stage_def msi_with_domain_def cong: if_cong)

text \<open>The callback of the PHY stage is given the port it mapped.\<close>

lemma with_phy_context:
  "a1625_with_pcie_phy K pp ip tr (Some f) ctx = a1625_with_pcie_phy K pp ip tr (Some (\<lambda>_ _. f PORT1_BASE ctx)) ctx"
proof (rule prog_eqI)
  fix s
  have *: "run_state (State_Monad.bind (phy_prepare_and_operate K pp ip tr core port (Some f) ctx) g) t =
    run_state (State_Monad.bind (phy_prepare_and_operate K pp ip tr core port (Some (\<lambda>_ _. f PORT1_BASE ctx)) ctx) g) t"
    if "port = PORT1_BASE" for core port pp ip tr g t
    unfolding that phy_prepare_and_operate_def option.case by (rule refl)
  show "run_state (a1625_with_pcie_phy K pp ip tr (Some f) ctx) s =
    run_state (a1625_with_pcie_phy K pp ip tr (Some (\<lambda>_ _. f PORT1_BASE ctx)) ctx) s"
    unfolding a1625_with_pcie_phy_def
    by (intro run_cong run_bind_cong [OF wp_ioremap_base] run_bind_left run_bind_right *) auto
qed

text \<open>
  The calls of the module at the ready PHY, around the radio pulse with its observer. With valid
  options the radio is pulsed at most once, and only a snapshot of the DART follows.
\<close>

lemma observe_ready_phy_composed:
  assumes cI: "closed P I" and cJ: "closed P J" and IJ: "\<And>t. I t \<Longrightarrow> J t"
    and tree: "\<And>e. tree_event e \<Longrightarrow> P e"
    and with_msi: "\<And>operate ctx. (\<And>a. takes I J (client2 operate a)) \<Longrightarrow> takes I J (a1625_with_msi K port operate ctx)"
    and msi_probe: "takes I I (a1625_msi_probe K port)"
    and dart: "\<And>b. emits P (snapshot_dart K opt b)" and rc: "emits P (snapshot_root_port K)"
    and dart_map: "\<And>d c. emits P (a1625_dart_map K page_size d c)"
    and valid: "\<not> options_rejected opt"
    and radio: "takes I J (a1625_radio_pulse K True (Some (observe_held_radio K hz fuel opt)) port)"
  shows "takes I J (observe_ready_phy K hz fuel page_size opt port ctx)"
proof -
  have closed: "closed tree_event I" "closed tree_event J"
    using cI cJ tree by (auto simp: closed_def)
  have msi_needs_iommu: "o_scan_msi opt \<Longrightarrow> o_scan_iommu opt"
    using valid by (simp add: options_rejected_def)
  have with_dart: "takes I J (observe_radio_with_dart K hz fuel opt d port)" for d
    unfolding observe_radio_with_dart_def set_scan_dart_def
    by (intro takesI wp_bind wp_upd_machine wp_takes [OF radio] wp_return) simp_all
  have dart_stage: "takes I J (a1625_with_dart K (Some (observe_radio_with_dart K hz fuel opt)) port b)" for b
    unfolding with_dart_context [of _ "observe_radio_with_dart K hz fuel opt"]
    by (rule dart_bracket.stage_takes [OF closed(1,2) IJ]) (simp_all add: client2_def with_dart)
  have client: "takes I J (observe_pci_with_msi K hz fuel opt d port)" for d
    unfolding observe_pci_with_msi_def set_scan_msi_domain_def
    by (intro takesI wp_bind wp_upd_machine wp_takes [OF dart_stage] wp_return) simp_all
  have msi_stage: "takes I J (a1625_with_msi K port (Some (observe_pci_with_msi K hz fuel opt)) port)"
    unfolding with_msi_context [of _ _ "observe_pci_with_msi K hz fuel opt"]
    by (rule with_msi) (simp add: client2_def client)
  have map_stage: "emits P (a1625_with_dart K (if b then Some (a1625_dart_map K page_size) else None) 0 b')" for b b'
    by (rule dart_bracket.stage_emits) (auto simp: client2_def intro!: dart_map emits_return tree)
  have last: "wp (do {
       r \<leftarrow> and_then r (o_scan_msi opt) (a1625_with_msi K port (Some (observe_pci_with_msi K hz fuel opt)) port);
       r \<leftarrow> and_then r (o_scan_iommu opt \<and> \<not> o_scan_msi opt)
            (a1625_with_dart K (Some (observe_radio_with_dart K hz fuel opt)) port (o_test_dma_range opt));
       r \<leftarrow> and_then r (o_scan_iommu opt) (snapshot_dart K opt True);
       and_then r (o_pulse_radio opt \<and> \<not> o_scan_iommu opt)
         (a1625_radio_pulse K True (Some (observe_held_radio K hz fuel opt)) port)
     }) (\<lambda>_ s'. J (trace s')) s" if "I (trace s)" for r s
    unfolding and_then_def
    by (intro wp_rules wp_takes [OF msi_stage] wp_takes [OF dart_stage] wp_takes [OF radio] wp_own [OF dart cJ])
      (use that msi_needs_iommu IJ in blast)+

  have quiet: "wp (State_Monad.bind m f) (\<lambda>_ s'. J (trace s')) s"
    if "emits P m" "I (trace s)" "\<And>r s'. I (trace s') \<Longrightarrow> wp (f r) (\<lambda>_ s'. J (trace s')) s'" for m :: "int prog" and f :: "int \<Rightarrow> int prog" and s
    by (intro wp_bind wp_own [OF that(1) cI that(2)] that(3))
  have first: "emits P (if o_inspect_rc opt then snapshot_root_port K else return 0)"
    by (intro emits_rules rc)
  have probe: "wp (State_Monad.bind (and_then r b (a1625_msi_probe K port)) f) (\<lambda>_ s'. J (trace s')) s"
    if "I (trace s)" "\<And>r s'. I (trace s') \<Longrightarrow> wp (f r) (\<lambda>_ s'. J (trace s')) s'" for r b f s
    unfolding and_then_def by (intro wp_bind wp_if wp_takes [OF msi_probe] wp_return that)
  show ?thesis
    unfolding observe_ready_phy_def
    by (intro takesI probe quiet first and_then_emits dart map_stage last)
qed

text \<open>A property that survives the calls of the MSI stage as well.\<close>

lemma observe_ready_phy_takes:
  assumes cI: "closed P I" and cJ: "closed P J" and IJ: "\<And>t. I t \<Longrightarrow> J t"
    and tree: "\<And>e. tree_event e \<Longrightarrow> P e" and msi: "\<And>e. msi_event port e \<Longrightarrow> P e"
    and dart: "\<And>b. emits P (snapshot_dart K opt b)" and rc: "emits P (snapshot_root_port K)"
    and dart_map: "\<And>d c. emits P (a1625_dart_map K page_size d c)"
    and valid: "\<not> options_rejected opt"
    and radio: "takes I J (a1625_radio_pulse K True (Some (observe_held_radio K hz fuel opt)) port)"
  shows "takes I J (observe_ready_phy K hz fuel page_size opt port ctx)"
proof -
  have closed: "closed (msi_event port) I" "closed (msi_event port) J"
    using cI cJ msi by (auto simp: closed_def)
  show ?thesis
    by (rule observe_ready_phy_composed [OF cI cJ IJ tree msi_bracket.stage_takes [OF closed IJ]
          takes_emits [OF msi_probe_emits closed(1)] dart rc dart_map valid radio])
qed


section \<open>The power domains hold while registers are touched\<close>

lemma ordinary_no_power: "ordinary e \<Longrightarrow> \<not> power_event e"
  by (auto simp: ordinary_def power_event_def split: event.splits call.splits)

lemma scan_event_no_power: "scan_event b e \<Longrightarrow> \<not> power_event e"
  using ordinary_no_power [of e]
  by (auto simp: scan_event_def starts_firmware_def power_event_def split: event.splits call.splits)

lemma stage_event_no_power:
  "tree_event e \<Longrightarrow> \<not> power_event e" "msi_event port e \<Longrightarrow> \<not> power_event e"
  "phy_event e \<Longrightarrow> \<not> power_event e" "pin_event e \<Longrightarrow> \<not> power_event e"
  by (auto simp: tree_event_def msi_event_def phy_event_def pin_event_def power_event_def domain_offsets_def
      split: event.splits call.splits regmap_call.splits)

lemma observation_no_power:
  assumes "\<not> options_rejected opt"
  shows "emits (\<lambda>e. \<not> power_event e) (run_domain_observation K hz fuel page_size opt ctx)"
proof -
  let ?P = "\<lambda>e. \<not> power_event e"
  note quiet = emits_mono [OF ordinary_snapshots(1) ordinary_no_power] emits_mono [OF ordinary_snapshots(2) ordinary_no_power]
    emits_mono [OF ordinary_dart_map ordinary_no_power]
  have held: "emits ?P (observe_held_radio K hz fuel opt port reset gpio_map)" for port reset gpio_map
    by (rule observe_held_radio_emits) (simp_all add: scan_event_no_power, simp_all add: power_event_def)
  have pulse: "emits ?P (a1625_radio_pulse K True (Some (observe_held_radio K hz fuel opt)) port)" for port
    by (rule radio_bracket.stage_emits) (auto simp: client3_def held stage_event_no_power)
  have ready: "emits ?P (observe_ready_phy K hz fuel page_size opt port c)" for port c
    unfolding emits_takes
  proof (intro allI observe_ready_phy_takes [where P = ?P])
    fix t0 show "takes (grows ?P t0) (grows ?P t0) (a1625_radio_pulse K True (Some (observe_held_radio K hz fuel opt)) port)"
      using pulse by (simp add: emits_takes)
  qed (simp_all add: assms closed_grows stage_event_no_power quiet)
  show ?thesis
    unfolding run_domain_observation_def snapshot_registers_def
    by (rule phy_bracket.stage_emits) (auto simp: client2_def ready stage_event_no_power)
qed

text \<open>
  C1. Power: on every run of the module, with any options, no register of the PCIe blocks is read or
  written unless the three power domains are resumed and were last read as active.
\<close>

theorem module_power_guarded:
  assumes "run_state (a1625_pcie_domains_init K hz fuel page_size opt) s = (r, s')"
    and "domain_uses (trace s) = 0" and "power_guarded (trace s)"
  shows "power_guarded (trace s')"
proof -
  have "wp (a1625_pcie_domains_init K hz fuel page_size opt) (\<lambda>_ s'. power_guarded (trace s') = power_guarded (trace s)) s"
    unfolding a1625_pcie_domains_init_def
    by (intro wp_rules wp_mono [OF wp_pcie_domains_guarded [OF _ assms(2)]])
      (auto split: if_splits intro: observation_no_power)
  from wp_run [OF this assms(1)] assms(3) show ?thesis by simp
qed

text \<open>The options of a full run: enumeration behind the DART with MSI, memory, and firmware until a signal.\<close>

definition firmware_options :: options where
  "firmware_options = \<lparr>o_cycle = True, o_force_active = True, o_snapshot = True, o_prepare_port = True,
     o_inspect_prefix = True, o_test_refclk = True, o_inspect_rc = True, o_inspect_dart = True,
     o_probe_dart = False, o_scan_iommu = True, o_probe_msi = False, o_map_dart = False, o_test_dma_range = False,
     o_pulse_radio = True, o_train_link = True, o_identify_endpoint = True, o_identify_chip = False,
     o_inspect_erom = False, o_scan_pci = True, o_scan_msi = True, o_assign_memory = True, o_bind_firmware = True,
     o_hold_seconds = 0, o_hold_until_signal = True\<rparr>"

theorem module_power_guarded_witness:
  "power_guarded (trace (snd (run_state (a1625_pcie_domains_init board 250 1 4096 firmware_options) boot)))"
  by (rule module_power_guarded [OF run_split [OF refl]]) simp_all

section \<open>The radio is powered under reset\<close>

lemma ordinary_no_radio: "ordinary e \<Longrightarrow> \<not> writes_radio e"
  by (auto simp: ordinary_def writes_radio_def split: event.splits call.splits)

lemma scan_event_no_radio: "scan_event b e \<Longrightarrow> \<not> writes_radio e"
  using ordinary_no_radio [of e]
  by (auto simp: scan_event_def starts_firmware_def writes_radio_def split: event.splits call.splits)

lemma stage_event_no_radio:
  "tree_event e \<Longrightarrow> \<not> writes_radio e" "msi_event port e \<Longrightarrow> \<not> writes_radio e"
  "phy_event e \<Longrightarrow> \<not> writes_radio e" "domain_event e \<Longrightarrow> \<not> writes_radio e"
  by (auto simp: tree_event_def msi_event_def phy_event_def domain_event_def writes_radio_def
      split: event.splits call.splits regmap_call.splits)

lemma closed_radio_safe: "(\<And>e. P e \<Longrightarrow> \<not> writes_radio e) \<Longrightarrow> closed P radio_safe"
  unfolding closed_def using radio_safe_append [of "[e]" for e] by fastforce

lemma observation_radio_safe:
  assumes "\<not> options_rejected opt"
  shows "takes radio_safe radio_safe (run_domain_observation K hz fuel page_size opt ctx)"
proof -
  let ?P = "\<lambda>e. \<not> writes_radio e"
  note quiet = emits_mono [OF ordinary_snapshots(1) ordinary_no_radio] emits_mono [OF ordinary_snapshots(2) ordinary_no_radio]
    emits_mono [OF ordinary_dart_map ordinary_no_radio]
  have "emits ?P (observe_held_radio K hz fuel opt port reset gpio_map)" for port reset gpio_map
    by (rule observe_held_radio_emits) (simp_all add: scan_event_no_radio, simp_all add: writes_radio_def)
  then have pulse: "takes radio_safe radio_safe (a1625_radio_pulse K True (Some (observe_held_radio K hz fuel opt)) port)" for port
    by (intro takesI wp_radio_pulse_safe) (simp_all add: quiet_observer_def)
  have "takes radio_safe radio_safe (observe_ready_phy K hz fuel page_size opt port c)" for port c
    by (rule observe_ready_phy_takes [where P = ?P])
      (simp_all add: assms pulse closed_radio_safe stage_event_no_radio quiet)
  then show ?thesis
    unfolding run_domain_observation_def snapshot_registers_def
    by (intro phy_bracket.stage_takes closed_radio_safe stage_event_no_radio) (auto simp: client2_def)
qed

text \<open>What holds of the observation holds of the module, if the calls of the power stage leave it alone.\<close>

lemma module_takes:
  assumes "closed domain_event I" "closed domain_event J" "\<And>t. I t \<Longrightarrow> J t"
    and "\<And>c. \<not> options_rejected opt \<Longrightarrow> takes I J (run_domain_observation K hz fuel page_size opt c)"
  shows "takes I J (a1625_pcie_domains_init K hz fuel page_size opt)"
proof -
  have stage: "takes I J (a1625_with_pcie_domains K cycle force_active
      (if o_snapshot opt then Some (run_domain_observation K hz fuel page_size opt) else None) 0)" if "\<not> options_rejected opt" for cycle force_active
    by (rule domains_bracket.stage_takes [OF assms(1-3)]) (use assms(3,4) that in \<open>auto simp: client1_def intro: takes_return\<close>)
  show ?thesis
    unfolding a1625_pcie_domains_init_def
    by (intro takesI wp_rules wp_takes [OF stage]) (simp_all add: assms(3))
qed

text \<open>
  C10. The radio: on every run of the module its power is only switched on while PERST is verified low, and
  the saved PERST configuration is only written back once the radio is verified off.
\<close>

theorem module_radio_sequence:
  assumes "run_state (a1625_pcie_domains_init K hz fuel page_size opt) s = (r, s')" and "radio_safe (trace s)"
  shows "radio_safe (trace s')"
proof -
  have "takes radio_safe radio_safe (a1625_pcie_domains_init K hz fuel page_size opt)"
    by (intro module_takes closed_radio_safe stage_event_no_radio observation_radio_safe) simp_all
  then show ?thesis using assms by (rule takes_run)
qed

theorem module_radio_sequence_witness:
  "radio_safe (trace (snd (run_state (a1625_pcie_domains_init board 250 1 4096 firmware_options) boot)))"
  by (rule module_radio_sequence [OF run_split [OF refl]]) simp

section \<open>Nothing leaks\<close>

lemma read_loops_neutral:
  "emits neutral (dart_registers K off rs dart offs)" "emits neutral (live_registers K base offs)"
  by (induction offs) (auto intro!: emits_rules simp: neutral_def)

lemma erom_neutral: "emits neutral (erom_walk K bar offset components pcie)"
proof (induction K bar offset components pcie rule: erom_walk.induct)
  case (1 K bar offset components pcie)
  show ?case
    by (subst erom_walk.simps) (auto intro!: emits_rules 1 simp: neutral_def)
qed

lemma snapshots_keep:
  "keeps x (snapshot_dart K opt b)" "keeps x (snapshot_root_port K)"
  unfolding snapshot_dart_def snapshot_root_port_def
  by (intro keepsI wp_neutral [OF read_loops_neutral(1)] wp_rules; simp)+

lemma map_chip_neutral: "emits neutral (map_chip K ie rc ep bar)"
  unfolding map_chip_def set_checked_def set_command_def read_chip_def inspect_components_def
  by (intro emits_rules erom_neutral) (simp_all add: neutral_def)

lemma chip_parts_neutral:
  "emits neutral (save_chip K rc ep)" "emits neutral (chip_untouched K ep c)" "emits neutral (size_bar0 K ep low high)"
  "emits neutral (restore_chip K rc ep c r)" "emits neutral (restore_buses K rc changed r)"
  unfolding save_chip_def chip_untouched_def size_bar0_def restore_chip_def chip_restored_def restore_buses_def
  by (intro emits_rules; simp add: neutral_def)+

lemma look_at_chip_held:
  assumes "\<And>r bar s'. held (trace s') x = held (trace s) x + (if bar = 0 then 0 else unit_at (Some (Mapping BAR0_BASE)) x)
      \<Longrightarrow> bar = 0 \<or> bar = BAR0_BASE \<Longrightarrow> Q (r, bar) s'"
  shows "wp (look_at_chip K ie rc ep c) Q s"
  unfolding look_at_chip_def
  by (intro wp_neutral [OF chip_parts_neutral(3)] wp_neutral [OF map_chip_neutral] wp_rules assms) simp_all

lemma snapshot_chip_keeps: "keeps x (snapshot_chip K ie rc ep)"
  unfolding snapshot_chip_def
  by (intro keepsI look_at_chip_held [where x = x] wp_neutral [OF chip_parts_neutral(1)] wp_neutral [OF chip_parts_neutral(2)]
      wp_neutral [OF chip_parts_neutral(4)] wp_rules) auto

lemma observe_endpoint_keeps: "keeps x (observe_endpoint K hz fuel opt rc ep)"
  unfolding observe_endpoint_def
  by (intro keepsI wp_neutral [OF read_loops_neutral(2)] wp_keeps [OF snapshot_chip_keeps [of x]] wp_keeps [OF pci_scan_keeps [of x]] wp_rules)
    simp_all

lemma route_and_observe_keeps: "keeps x (route_and_observe K hz fuel opt rc ep)"
  unfolding route_and_observe_def
  by (intro keepsI wp_keeps [OF observe_endpoint_keeps [of x]] wp_rules) simp_all

lemma snapshot_endpoint_keeps: "keeps x (snapshot_endpoint K hz fuel opt)"
  unfolding snapshot_endpoint_def
  by (intro keepsI wp_keeps [OF route_and_observe_keeps [of x]] wp_neutral [OF chip_parts_neutral(5)] wp_rules) simp_all

lemma stop_link_neutral: "emits neutral (stop_link K port control r)"
  unfolding stop_link_def by (intro emits_rules) (simp_all add: neutral_def)

lemma train_and_identify_keeps: "keeps x (train_and_identify K hz fuel opt port control)"
  unfolding train_and_identify_def Let_def
  by (intro keepsI wp_keeps [OF snapshot_endpoint_keeps [of x]] wp_neutral [OF stop_link_neutral] wp_rules) simp_all

lemma observe_held_radio_keeps: "keeps x (observe_held_radio K hz fuel opt port reset gpio_map)"
  unfolding observe_held_radio_def
  by (intro keepsI wp_keeps [OF train_and_identify_keeps [of x]] wp_rules) simp_all

lemma and_then_keeps: "keeps x m \<Longrightarrow> keeps x (and_then r b m)"
  by (simp add: and_then_def keeps_return)

lemma observe_ready_phy_keeps: "keeps x (observe_ready_phy K hz fuel page_size opt port c)"
proof -
  have pulse: "keeps x (a1625_radio_pulse K True (Some (observe_held_radio K hz fuel opt)) port)" for port
    by (rule radio.stage_keeps) (simp_all add: client3_def observe_held_radio_keeps)
  have with_dart: "keeps x (observe_radio_with_dart K hz fuel opt d port)" for d port
    unfolding observe_radio_with_dart_def set_scan_dart_def
    by (intro keepsI wp_bind wp_upd_machine wp_keeps [OF pulse] wp_return) simp
  have dart_stage: "keeps x (a1625_with_dart K (Some (observe_radio_with_dart K hz fuel opt)) port b)" for port b
    by (rule dart.stage_keeps) (simp_all add: client2_def with_dart)
  have with_msi: "keeps x (observe_pci_with_msi K hz fuel opt d port)" for d port
    unfolding observe_pci_with_msi_def set_scan_msi_domain_def
    by (intro keepsI wp_bind wp_upd_machine wp_keeps [OF dart_stage] wp_return) simp
  have stages: "keeps x (a1625_with_msi K port (Some (observe_pci_with_msi K hz fuel opt)) port)"
    "keeps x (a1625_msi_probe K port)"
    "keeps x (a1625_with_dart K (if b then Some (a1625_dart_map K page_size) else None) 0 b')" for b b'
    unfolding a1625_msi_probe_def
    by (auto intro!: msi.stage_keeps dart.stage_keeps simp: client2_def with_msi dart_map_keeps keeps_return)
  show ?thesis
    unfolding observe_ready_phy_def
    by (intro keeps_bind and_then_keeps pulse dart_stage stages snapshots_keep)
      (simp add: snapshots_keep keeps_return)
qed

lemma observation_keeps: "keeps x (run_domain_observation K hz fuel page_size opt c)"
  unfolding run_domain_observation_def snapshot_registers_def
  by (rule phy.stage_keeps) (simp_all add: client2_def observe_ready_phy_keeps)

text \<open>
  C6. The module gives back every resource on every run, whatever fails: regions, mappings, references,
  locks, device-tree nodes, devices, interrupts, pages and power. The only exception is deliberate: a consumer
  that could not be detached from its power domain stays registered, and exactly such consumers do.
\<close>

theorem module_leak_free:
  assumes "run_state (a1625_pcie_domains_init K hz fuel page_size opt) s = (r, s')" and "registers_nonnull K"
  shows "(\<not> domain_retained x \<longrightarrow> held (trace s') x = held (trace s) x) \<and> gap (trace s') c = gap (trace s) c"
proof (cases "options_rejected opt")
  case True
  then show ?thesis using assms(1) by (simp add: a1625_pcie_domains_init_def)
next
  case False
  let ?operate = "if o_snapshot opt then Some (run_domain_observation K hz fuel page_size opt) else None"
  have client: "keeps y (client1 ?operate a)" for y a
    by (simp add: client1_def observation_keeps keeps_return)
  obtain r1 s1 where run: "run_state (a1625_with_pcie_domains K (o_cycle opt) (o_force_active opt) ?operate 0) s = (r1, s1)"
    by fastforce
  then have "s' = s1" using assms(1) False by (simp add: a1625_pcie_domains_init_def)
  moreover have "wp (a1625_with_pcie_domains K (o_cycle opt) (o_force_active opt) ?operate 0) (\<lambda>_ s'. gap (trace s') c = gap (trace s) c) s"
    by (rule pcie_domains_keeps_gap [OF assms(2)]) (auto simp: observation_keeps split: if_splits)
  moreover have "\<not> domain_retained x \<Longrightarrow> held (trace s1) x = held (trace s) x"
    by (rule domains.run_keeps [OF _ client run]) (simp add: assms(2))
  ultimately show ?thesis using wp_run [OF _ run] by blast
qed

theorem module_leak_free_witness:
  "held (trace (snd (run_state (a1625_pcie_domains_init board 250 1 4096 firmware_options) boot))) (PmUse 0x9000) = 0"
  using module_leak_free [OF run_split [OF refl] board_registers_nonnull, where s = boot and x = "PmUse 0x9000"]
  by (simp add: domain_retained_def)

end
