(* ===== verification/ScanPages.thy ===== *)
theory ScanPages
  imports ScanInvariant
begin

text \<open>
  A scan writes to the two configuration pages only, whatever the kernel asks its accessors to write.
\<close>

definition page_address :: "u64 \<Rightarrow> bool" where
  "page_address a \<longleftrightarrow> a - RC_CFG < 0x1000 \<or> a - EP_CFG < 0x1000"

definition page_write :: "event \<Rightarrow> bool" where
  "page_write e \<longleftrightarrow> (case e of
     Call (Mmio (Writel a _)) _ \<Rightarrow> page_address a
   | Call (Mmio (Writew a _)) _ \<Rightarrow> page_address a
   | _ \<Rightarrow> True)"

text \<open>Since the history was \<open>t0\<close>, with at most \<open>n\<close> saved controls.\<close>

definition paged :: "nat \<Rightarrow> event list \<Rightarrow> machine \<Rightarrow> bool" where
  "paged n t0 s \<longleftrightarrow>
     ps_rc (the_scan s) = RC_CFG \<and> ps_ep (the_scan s) = EP_CFG \<and> list_all control_wf (ps_controls (the_scan s)) \<and>
     length (ps_controls (the_scan s)) \<le> n \<and> (\<exists>new. trace s = new @ t0 \<and> list_all page_write new)"

lemma paged_event: "paged n t0 s \<Longrightarrow> page_write e \<Longrightarrow> paged n t0 (s\<lparr>trace := e # trace s\<rparr>)"
  unfolding paged_def by (auto intro: exI [of _ "e # _"])

lemma paged_more: "paged n t0 (s\<lparr>trace := t\<rparr>) \<Longrightarrow> page_write e \<Longrightarrow> paged n t0 (s\<lparr>trace := e # t\<rparr>)"
  using paged_event [of n t0 "s\<lparr>trace := t\<rparr>" e] by simp

lemma page_offset:
  assumes "0 \<le> x" "x < 0x1000" "cfg = RC_CFG \<or> cfg = EP_CFG"
  shows "page_address (cfg + word_of_int x)"
proof -
  have "uint (word_of_int x :: u64) = x"
    using assms by (simp add: uint_word_of_int_eq take_bit_int_eq_self)
  then have "(word_of_int x :: u64) < 0x1000" using assms by (simp add: word_less_alt)
  then show ?thesis using assms(3) by (auto simp: page_address_def)
qed

lemma paged_config_write: "maintains (paged n t0) (leaf_callback K (CfgWrite bus devfn offset width value))"
proof (rule maintainsI)
  fix s assume s: "paged n t0 s"
  let ?cfg = "a1625_scan_config (the_scan s) bus devfn"
  have log: "wp (log_result cb q x) (\<lambda>_. paged n t0) s'" if "paged n t0 s'" for cb q x s'
    using paged_event [OF that] by (intro wp_rules) (simp add: page_write_def)
  show "wp (leaf_callback K (CfgWrite bus devfn offset width value)) (\<lambda>_. paged n t0) s"
    unfolding leaf_callback_def callback.case
  proof (rule wp_bind, rule wp_scan_write)
    show "list_all control_wf (ps_controls (the_scan s))" using s by (simp add: paged_def)
    show "wp (log_result cb q x) (\<lambda>_. paged n t0) s" for cb q x by (rule log [OF s])
    show "wp (log_result cb q x) (\<lambda>_. paged n t0) (s\<lparr>the_scan := (the_scan s)\<lparr>ps_rejected := True\<rparr>\<rparr>)" for cb q x
      by (rule log) (use s in \<open>simp add: paged_def\<close>)
    fix s' assume cfg: "?cfg \<noteq> 0" and w: "writes_one (the_scan s) bus ?cfg offset s s'"
    then obtain w v resp where h: "harmless (ps_firmware_active (the_scan s)) bus offset w v"
      and s': "s' = s\<lparr>trace := Call (Mmio (if w = 2 then Writew (?cfg + word_of_int offset) (ucast v)
                                  else Writel (?cfg + word_of_int offset) v)) resp # trace s\<rparr>"
      by (auto simp: writes_one_def)
    have range: "0 \<le> offset" "offset < 0x1000" using h by (auto simp: harmless_def)
    have "?cfg = RC_CFG \<or> ?cfg = EP_CFG" using s cfg by (auto simp: paged_def a1625_scan_config_def split: if_splits)
    then have "page_address (?cfg + word_of_int offset)" by (rule page_offset [OF range])
    then have "paged n t0 s'" unfolding s' by (intro paged_event [OF s]) (simp add: page_write_def)
    then show "wp (log_result cb q x) (\<lambda>_. paged n t0) s'" for cb q x by (rule log)
  qed
qed

interpretation pages: scan_invariant "paged n t0" for n t0
proof
  show "paged n t0 s \<Longrightarrow> \<not> mmio_write (Call c r) \<Longrightarrow> paged n t0 (s\<lparr>trace := Call c r # trace s\<rparr>)" for s c r
    by (rule paged_event) (auto simp: mmio_write_def page_write_def split: call.splits mmio_call.splits)
  show "paged n t0 s \<Longrightarrow> paged n t0 (s\<lparr>trace := CallbackResult cb q x # trace s\<rparr>)" for s cb q x
    by (rule paged_event) (simp_all add: page_write_def)
qed (simp_all add: paged_config_write, simp_all add: paged_def)

lemma paged_field: "paged n t0 s \<Longrightarrow> paged n t0 (s\<lparr>the_scan := (the_scan s)\<lparr>ps_devices := d\<rparr>\<rparr>)"
  "paged n t0 s \<Longrightarrow> paged n t0 (s\<lparr>the_scan := (the_scan s)\<lparr>ps_firmware_active := b\<rparr>\<rparr>)"
  by (simp_all add: paged_def)

lemma paged_identify: "maintains (paged n t0) (a1625_scan_identify K dev)"
  unfolding a1625_scan_identify_def
  by (intro inv_rules pages.reject_inv pages.endpoint_msi_inv pages.check_radio_iommu_inv) (auto intro: pages.step paged_field)

lemma paged_callbacks: "maintains (paged n t0) (run_scan_callbacks K cbs)"
proof -
  have "maintains (paged n t0) (scan_callback K cb)" for cb
    by (cases cb) (auto simp: scan_callback_def page_write_def intro!: inv_rules pages.leaf_callback_inv paged_identify paged_event)
  then show ?thesis by (induction cbs) (auto intro!: inv_rules)
qed

lemma paged_firmware: "maintains (paged n t0) (a1625_scan_firmware K hz fuel root)"
proof -
  have "maintains (paged n t0) (firmware_bind K hz fuel dev)" for dev
    unfolding firmware_bind_def
    by (intro inv_rules pages.call_with_leaves_inv pages.firmware_observe_inv pages.observation_loops_inv)
      (auto intro: pages.step paged_field)
  then show ?thesis
    unfolding a1625_scan_firmware_def by (intro inv_rules) (auto intro: pages.step)
qed

lemma paged_enumerate: "maintains (paged n t0) (scan_enumerate K hz fuel bridge assign_memory bind_firmware)"
  unfolding scan_enumerate_def call_with_scan_def
  by (intro inv_rules pages.call_with_leaves_inv paged_callbacks paged_firmware) (auto intro: pages.step)

section \<open>Restoration\<close>

lemma paged_restore_controls:
  "list_all control_wf cs \<Longrightarrow> maintains (paged n t0) (restore_controls K RC_CFG EP_CFG cs r)"
proof (induction cs arbitrary: r)
  case (Cons c cs)
  then have "uint (sc_where c) < 0x1000"
    by (auto simp: control_wf_def entry_wf_def split: if_splits)
  moreover have "(ucast (sc_where c) :: u64) = word_of_int (uint (sc_where c))"
    by (simp add: word_uint_eq_iff unsigned_ucast_eq uint_word_of_int_eq)
  ultimately have page: "page_address (RC_CFG + ucast (sc_where c))" "page_address (EP_CFG + ucast (sc_where c))"
    using page_offset [of "uint (sc_where c)"] by simp_all
  show ?case
    unfolding restore_controls.simps using Cons page
    by (intro inv_rules Cons.IH) (auto intro!: paged_event simp: page_write_def)
qed (auto intro: inv_rules)

lemma paged_restore_bars:
  "(\<And>off. off \<in> fst ` set bs \<Longrightarrow> page_address (cfg + off)) \<Longrightarrow> maintains (paged n t0) (restore_bars K cfg bs r)"
proof (induction bs arbitrary: r)
  case (Cons p bs)
  then show ?case
    unfolding restore_bars.simps by (intro inv_rules Cons.IH) (auto intro!: paged_event simp: page_write_def)
qed (auto intro: inv_rules)

lemma bar_pages:
  "off \<in> fst ` set (zip rc_bar_offsets vs) \<Longrightarrow> page_address (RC_CFG + off)"
  "off \<in> fst ` set (zip ep_bar_offsets vs) \<Longrightarrow> page_address (EP_CFG + off)"
  by (auto simp: rc_bar_offsets_def ep_bar_offsets_def page_address_def dest!: set_zip_leftD)

lemma paged_restore: "maintains (paged n t0) (scan_restore K RC_CFG EP_CFG h r)"
proof (rule maintainsI)
  fix s assume s: "paged n t0 s"
  then have "list_all control_wf (rev (ps_controls (the_scan s)))" by (simp add: paged_def)
  note controls = wp_maintains [OF paged_restore_controls [OF this]]
  note bars = wp_maintains [OF paged_restore_bars [OF bar_pages(1), where ?t0.0 = t0 and ?n = n]] wp_maintains [OF paged_restore_bars [OF bar_pages(2), where ?t0.0 = t0 and ?n = n]]
  have compare: "wp (header_restored K RC_CFG EP_CFG h) Q u" if "paged n t0 u" "\<And>r s'. paged n t0 s' \<Longrightarrow> Q r s'" for Q u
    by (rule wp_maintains [OF pages.header_restored_inv that])
  show "wp (scan_restore K RC_CFG EP_CFG h r) (\<lambda>_. paged n t0) s"
    unfolding scan_restore_def
    by (intro wp_get_scan controls bars compare wp_rules) (use s in \<open>auto intro!: paged_more [OF paged_more] paged_event simp: page_write_def page_address_def\<close>)
qed

section \<open>The whole scan\<close>

lemma paged_with_parent:
  "maintains (paged n t0) (scan_with_parent K hz fuel RC_CFG EP_CFG node msi_domain assign_memory bind_firmware h)"
proof -
  have bridge: "maintains (paged n t0) (scan_with_bridge K hz fuel RC_CFG EP_CFG parent bridge msi_domain assign_memory bind_firmware h)" for parent bridge
    unfolding scan_with_bridge_def
    by (intro inv_rules paged_enumerate paged_restore) (auto intro: pages.step)
  show ?thesis
    unfolding scan_with_parent_def by (intro inv_rules bridge) (auto intro: pages.step)
qed

text \<open>Saving starts from the empty list.\<close>

lemma wp_paged_save_controls:
  assumes s: "paged 0 t0 s" and Q: "\<And>r s'. paged 26 t0 s' \<Longrightarrow> Q r s'"
  shows "wp (a1625_scan_save_controls K) Q s"
proof (rule wp_scan_save_controls)
  fix r s' assume "saves 26 s s'"
  then obtain new cs cap m where s': "s' = s\<lparr>trace := new @ trace s,
            the_scan := (the_scan s)\<lparr>ps_controls := ps_controls (the_scan s) @ cs, ps_msi_cap := cap, ps_msi_64 := m\<rparr>\<rparr>"
    and cs: "list_all control_wf cs" "length cs \<le> 26" and new: "list_all register_read new"
    unfolding saves_def by blast
  have "register_read e \<Longrightarrow> page_write e" for e
    by (auto simp: register_read_def page_write_def split: event.splits call.splits mmio_call.splits)
  with new have "list_all page_write new" by (auto simp: list_all_iff)
  with s cs have "paged 26 t0 s'" unfolding s' paged_def by auto
  then show "Q r s'" by (rule Q)
qed

text \<open>The list starts empty, so nothing is presupposed.\<close>

lemma wp_pci_scan_paged:
  assumes Q: "\<And>r s'. paged 26 (trace s) s' \<Longrightarrow> Q r s'"
  shows "wp (a1625_pci_scan K hz fuel RC_CFG EP_CFG dart msi_domain assign_memory bind_firmware hold_seconds hold_until_signal) Q s"
proof -
  let ?scan = "a1625_pci_scan K hz fuel RC_CFG EP_CFG dart msi_domain assign_memory bind_firmware hold_seconds hold_until_signal"
  let ?start = "s\<lparr>the_scan := init_scan RC_CFG EP_CFG dart msi_domain assign_memory bind_firmware hold_seconds hold_until_signal\<rparr>"
  have start: "paged 0 (trace s) ?start" by (simp add: paged_def init_scan_def)
  have weaken: "paged 0 (trace s) u \<Longrightarrow> paged 26 (trace s) u" for u by (simp add: paged_def)
  note header = wp_maintains [OF pages.read_header_inv [where n = 0 and ?t0.0 = "trace s"]]
  note keep = wp_maintains [OF paged_with_parent [where n = 26 and ?t0.0 = "trace s"]]
    wp_maintains [OF pages.node_inv(1) [where n = 26 and ?t0.0 = "trace s"]] wp_maintains [OF pages.node_inv(2) [where n = 26 and ?t0.0 = "trace s"]]
  show ?thesis
    unfolding a1625_pci_scan_def
    by (intro wp_upd_scan header wp_paged_save_controls [where ?t0.0 = "trace s"] keep wp_rules Q) (use start in \<open>auto intro: weaken\<close>)
qed

text \<open>Every write of a scan is in the two pages.\<close>

lemma pci_scan_pages:
  "emits page_write (a1625_pci_scan K hz fuel RC_CFG EP_CFG dart msi_domain assign_memory bind_firmware hold_seconds hold_until_signal)"
  unfolding emits_def by (intro allI wp_pci_scan_paged) (simp add: paged_def)

text \<open>
  C28. The saved controls keep their type through a whole scan: whatever the kernel answers and whichever configuration
  writes and other callbacks it runs, there are at most 26 of them, each a 2- or 4-byte register of one of the two
  functions, inside its page, away from command, BARs, ROM address and bridge control, with a saved value inside its mask.
\<close>

theorem pci_scan_controls_typed:
  "let s' = snd (run_state (a1625_pci_scan K hz fuel RC_CFG EP_CFG dart msi_domain assign_memory bind_firmware
       hold_seconds hold_until_signal) s)
   in length (ps_controls (the_scan s')) \<le> 26 \<and> list_all control_wf (ps_controls (the_scan s'))"
proof -
  have "wp (a1625_pci_scan K hz fuel RC_CFG EP_CFG dart msi_domain assign_memory bind_firmware hold_seconds hold_until_signal)
    (\<lambda>_ s'. length (ps_controls (the_scan s')) \<le> 26 \<and> list_all control_wf (ps_controls (the_scan s'))) s"
    by (rule wp_pci_scan_paged) (simp add: paged_def)
  from wp_run [OF this, OF surjective_pairing] show ?thesis by (simp add: Let_def)
qed

end
