(* ===== verification/ModuleMaster.thy ===== *)
theory ModuleMaster
  imports ModuleSafety ScanPages
begin

text \<open>
  Bus mastering over the whole module. The chip snapshot enables memory decoding only, the scan is guarded
  by its own invariant, and no other part writes a command register.
\<close>

section \<open>Calm events\<close>

definition calm :: "event \<Rightarrow> bool" where
  "calm e \<longleftrightarrow> \<not> enables_master e \<and> \<not> refusal e \<and> \<not> identification e"

lemma closed_fresh: "(\<And>e. P e \<Longrightarrow> calm e) \<Longrightarrow> closed P scan_fresh"
  by (auto simp: closed_def scan_fresh_def calm_def)

lemma closed_master: "(\<And>e. P e \<Longrightarrow> calm e) \<Longrightarrow> closed P master_guarded"
  by (auto simp: closed_def calm_def)

lemma fresh_master: "scan_fresh t \<Longrightarrow> master_guarded t"
  by (simp add: scan_fresh_def)

lemma calm_calls [simp]:
  "calm (Call (Mmio (Readl a)) r)" "calm (Call (Mmio (Readw a)) r)" "calm (Call (Mmio (Readb a)) r)" "calm (Call (Mmio (Ioremap a n)) r)"
  "calm (Call (Mmio (ReadlPollTimeout a y z)) r)"
  "calm (Call (Mmio (Iounmap a)) r)" "calm (Call (Mmio (RequestMemRegion a n)) r)" "calm (Call (Mmio (ReleaseMemRegion a n)) r)"
  "calm (Call (Mmio (Writel a v)) r) \<longleftrightarrow> a \<noteq> RC_CFG + 4 \<and> a \<noteq> EP_CFG + 4"
  "calm (Call (Mmio (Writew a w)) r) \<longleftrightarrow> (a = RC_CFG + 4 \<or> a = EP_CFG + 4 \<longrightarrow> w AND 4 = 0)"
  "calm (Call (Time c2) r)" "calm (Call (Of c3) r)" "calm (Call (Cs c4) r)" "calm (Call (Dev c5) r)" "calm (Call (Pm c6) r)"
  "calm (Call (Regmap c7) r)" "calm (Call (Gpio c8) r)" "calm (Call (Iommu c9) r)" "calm (Call (Irq c10) r)"
  "calm (CallbackResult (MsiAlloc i j) q z)" "calm (CallbackResult (MsiFree i j) q z)" "calm (CallbackResult (MsiEoi d) q z)"
  "calm (CallbackResult (MapProbe d) q z)"
  by (auto simp: calm_def enables_master_def refusal_def identification_def)

lemma stage_event_calm:
  "tree_event e \<Longrightarrow> calm e" "msi_event PORT1_BASE e \<Longrightarrow> calm e" "phy_event e \<Longrightarrow> calm e"
  "pin_event e \<Longrightarrow> calm e" "domain_event e \<Longrightarrow> calm e"
  by (auto simp: tree_event_def msi_event_def phy_event_def pin_event_def domain_event_def core_region_def
      split: event.splits call.splits mmio_call.splits callback.splits)

text \<open>The observer of the endpoint is calm and writes to the configuration pages only.\<close>

definition observed :: "event \<Rightarrow> bool" where
  "observed e \<longleftrightarrow> calm e \<and> page_write e"

lemma closed_observed: "(\<And>e. observed e \<Longrightarrow> P e) \<Longrightarrow> closed P I \<Longrightarrow> closed observed I"
  by (simp add: closed_def)

lemma page_write_calls [simp]:
  "page_write (Call (Mmio (Writel a v)) r) \<longleftrightarrow> a - RC_CFG < 0x1000 \<or> a - EP_CFG < 0x1000"
  "page_write (Call (Mmio (Writew a w)) r) \<longleftrightarrow> a - RC_CFG < 0x1000 \<or> a - EP_CFG < 0x1000"
  "(\<And>a v. c \<noteq> Writel a v) \<Longrightarrow> (\<And>a v. c \<noteq> Writew a v) \<Longrightarrow> page_write (Call (Mmio c) r)"
  "page_write (Call (Time tc) r)"
  by (auto simp: page_write_def page_address_def split: mmio_call.split)

lemma observed_calls [simp]:
  "observed (Call (Mmio c) r) \<longleftrightarrow> calm (Call (Mmio c) r) \<and> page_write (Call (Mmio c) r)" "observed (Call (Time tc) r)"
  by (simp_all add: observed_def)

text \<open>Everything outside the endpoint, the port and the PHY writes no register.\<close>

definition quiet :: "event \<Rightarrow> bool" where
  "quiet e \<longleftrightarrow> calm e \<and> \<not> mmio_write e"

lemma quiet_calls [simp]:
  "quiet (Call c r) \<longleftrightarrow> calm (Call c r) \<and> \<not> mmio_write (Call c r)" "quiet (CallbackResult (MapProbe d) q z)"
  by (simp_all add: quiet_def) (simp add: mmio_write_def)

lemma stage_event_quiet:
  "tree_event e \<Longrightarrow> quiet e" "pin_event e \<Longrightarrow> quiet e" "domain_event e \<Longrightarrow> quiet e"
  using stage_event_calm(1,4,5) [of e]
  by (auto simp: quiet_def tree_event_def pin_event_def domain_event_def mmio_write_def split: event.splits call.splits)

section \<open>The chip\<close>

lemma erom_observed: "emits observed (erom_walk K bar offset components pcie)"
proof (induction K bar offset components pcie rule: erom_walk.induct)
  case (1 K bar offset components pcie)
  show ?case by (subst erom_walk.simps) (auto intro!: emits_rules 1)
qed

lemma chip_observed:
  "emits observed (save_chip K rc ep)" "emits observed (chip_untouched K ep c)" "emits observed (size_bar0 K EP_CFG low high)"
  "emits observed (look_at_chip K ie RC_CFG EP_CFG c)"
proof -
  show size: "emits observed (size_bar0 K EP_CFG low high)" for low high
    unfolding size_bar0_def by (intro emits_rules) simp_all
  show "emits observed (look_at_chip K ie RC_CFG EP_CFG c)"
    unfolding look_at_chip_def map_chip_def set_checked_def set_command_def read_chip_def inspect_components_def
    by (intro emits_rules erom_observed size) simp_all
qed (auto simp: save_chip_def chip_untouched_def intro!: emits_rules)

lemma restore_chip_observed:
  "cs_rc_command c = 0 \<Longrightarrow> cs_ep_command c = 0 \<Longrightarrow> emits observed (restore_chip K RC_CFG EP_CFG c r)"
  unfolding restore_chip_def chip_restored_def by (intro emits_rules) simp_all

lemma wp_chip_untouched:
  assumes "closed observed I" "I (trace s)"
    and "\<And>b s'. I (trace s') \<Longrightarrow> (b \<Longrightarrow> cs_rc_command c = 0 \<and> cs_ep_command c = 0) \<Longrightarrow> Q b s'"
  shows "wp (chip_untouched K ep c) Q s"
  unfolding chip_untouched_def
  by (intro wp_rules assms(3)) (simp_all add: closedD [OF assms(1)] assms(2))

lemma snapshot_chip_takes:
  assumes "closed observed I"
  shows "takes I I (snapshot_chip K ie RC_CFG EP_CFG)"
proof -
  note own = wp_own [OF _ assms]
  show ?thesis
    unfolding snapshot_chip_def
    by (intro takesI wp_bind wp_bool_call wp_if own [OF chip_observed(1)] wp_chip_untouched [OF assms] own [OF chip_observed(4)]
        own [OF restore_chip_observed] wp_case_prod wp_return wp_case_pair wp_pwhen wp_do_call)
      (simp_all add: closedD [OF assms])
qed

section \<open>The endpoint\<close>

lemma live_registers_observed: "emits observed (live_registers K base offs)"
  by (induction offs) (auto intro!: emits_rules)

lemma restore_buses_observed: "emits observed (restore_buses K RC_CFG changed r)"
  unfolding restore_buses_def by (intro emits_rules) simp_all

text \<open>Around the scan, for whatever the scan does to a property that observed events preserve.\<close>

lemma snapshot_endpoint_takes:
  assumes cI: "closed observed I" and cJ: "closed observed J" and IJ: "\<And>t. I t \<Longrightarrow> J t"
    and scan: "\<And>dart md am bf hs hu. takes I J (a1625_pci_scan K hz fuel RC_CFG EP_CFG dart md am bf hs hu)"
  shows "takes I J (snapshot_endpoint K hz fuel opt)"
proof -
  note step = closedD [OF cI] closedD [OF cJ]
  have endpoint: "takes I J (observe_endpoint K hz fuel opt RC_CFG EP_CFG)"
    unfolding observe_endpoint_def
    by (intro takesI wp_own [OF live_registers_observed cI] wp_takes [OF snapshot_chip_takes [OF cI]]
        wp_takes [OF scan] wp_rules) (simp_all add: step IJ)
  have route: "takes I J (route_and_observe K hz fuel opt RC_CFG EP_CFG)"
    unfolding route_and_observe_def
    by (intro takesI wp_takes [OF endpoint] wp_rules) (simp_all add: step IJ)
  show ?thesis
    unfolding snapshot_endpoint_def
    by (intro takesI wp_takes [OF route] wp_own [OF restore_buses_observed cJ] wp_rules) (simp_all add: step IJ)
qed

text \<open>Around the endpoint: the link control of the port is the only register written.\<close>

definition held_event :: "event \<Rightarrow> bool" where
  "held_event e \<longleftrightarrow> (case e of
     Call c _ \<Rightarrow> (case c of Time _ \<Rightarrow> True | Gpio _ \<Rightarrow> True | Regmap (RegmapReadBypassed _ _) \<Rightarrow> True
       | Mmio m \<Rightarrow> (case m of Readl _ \<Rightarrow> True | ReadlPollTimeout _ _ _ \<Rightarrow> True | Writel a _ \<Rightarrow> a = PORT1_BASE + 0x80 | _ \<Rightarrow> False)
       | _ \<Rightarrow> False)
   | _ \<Rightarrow> False)"

lemma held_event_calls [simp]:
  "held_event (Call (Time c1) r)" "held_event (Call (Gpio c2) r)" "held_event (Call (Regmap (RegmapReadBypassed m q)) r)"
  "held_event (Call (Mmio (Readl a)) r)" "held_event (Call (Mmio (ReadlPollTimeout a x y)) r)"
  "held_event (Call (Mmio (Writel a v)) r) \<longleftrightarrow> a = PORT1_BASE + 0x80"
  by (simp_all add: held_event_def)

lemma held_event_calm: "held_event e \<Longrightarrow> calm e"
  by (auto simp: held_event_def split: event.splits call.splits mmio_call.splits regmap_call.splits)

lemma observe_held_radio_takes:
  assumes cI: "closed held_event I" and cJ: "closed held_event J" and IJ: "\<And>t. I t \<Longrightarrow> J t"
    and endpoint: "takes I J (snapshot_endpoint K hz fuel opt)"
  shows "takes I J (observe_held_radio K hz fuel opt PORT1_BASE reset gpio_map)"
proof -
  note step = closedD [OF cI] closedD [OF cJ]
  have stop: "emits held_event (stop_link K PORT1_BASE control r)" for control r
    unfolding stop_link_def by (intro emits_rules) simp_all
  have train: "takes I J (train_and_identify K hz fuel opt PORT1_BASE control)" for control
    unfolding train_and_identify_def Let_def
    by (intro takesI wp_takes [OF endpoint] wp_own [OF stop cJ] wp_rules) (simp_all add: step IJ)
  show ?thesis
    unfolding observe_held_radio_def
    by (intro takesI wp_takes [OF train] wp_rules) (simp_all add: step IJ)
qed

section \<open>The module\<close>

lemma with_radio_context:
  "a1625_radio_pulse K pulse (Some f) ctx = a1625_radio_pulse K pulse (Some (\<lambda>_ r m. f ctx r m)) ctx"
  by (simp add: a1625_radio_pulse_def radio_pulse_locked_def radio_power_stage_def cong: if_cong)

lemma dart_map_quiet: "emits quiet (a1625_dart_map K page_size dart ctx)"
proof -
  have probe: "emits quiet (a1625_map_probe K ps pdev)" for ps pdev
    unfolding a1625_map_probe_def map_with_regs_def map_page_def check_mapping_def dma_domain_def
    by (intro emits_rules) simp_all
  have callbacks: "emits quiet (run_map_callbacks K ps cbs)" for ps cbs
    by (induction cbs) (auto intro!: emits_rules probe split: callback.split)
  have props: "emits quiet (add_props K cs node ps)" for cs node ps
    by (induction ps) (auto intro!: emits_rules)
  have remove: "emits quiet (remove_node K cs node applied r)" for cs node applied r
    unfolding remove_node_def by (intro emits_rules) simp_all
  show ?thesis
    unfolding a1625_dart_map_def map_node_def map_device_def platform_device_add_def
    by (intro emits_rules callbacks remove props) simp_all
qed

lemma snapshots_quiet: "emits quiet (snapshot_dart K opt b)" "emits quiet (snapshot_root_port K)"
proof -
  have regs: "emits quiet (dart_registers K off rs dart offs)" for off rs dart offs
    by (induction offs) (auto intro!: emits_rules)
  show "emits quiet (snapshot_dart K opt b)"
    unfolding snapshot_dart_def by (intro emits_rules regs) simp_all
  show "emits quiet (snapshot_root_port K)"
    unfolding snapshot_root_port_def by (intro emits_rules) simp_all
qed

text \<open>The observation, given what its MSI stages and its observer of the powered radio do.\<close>

lemma ready_composed:
  assumes cI: "closed P I" and cJ: "closed P J" and IJ: "\<And>t. I t \<Longrightarrow> J t"
    and P: "\<And>e. quiet e \<Longrightarrow> P e" and valid: "\<not> options_rejected opt"
    and msi_stage: "\<And>operate ctx. (\<And>a. takes I J (client2 operate a)) \<Longrightarrow> takes I J (a1625_with_msi K PORT1_BASE operate ctx)"
      "takes I I (a1625_msi_probe K PORT1_BASE)"
    and held: "\<And>reset gpio_map. takes I J (observe_held_radio K hz fuel opt PORT1_BASE reset gpio_map)"
  shows "takes I J (observe_ready_phy K hz fuel page_size opt PORT1_BASE ctx)"
proof -
  have pin: "closed pin_event I" "closed pin_event J"
    using cI cJ stage_event_quiet(2) P by (auto simp: closed_def)
  have pulse: "takes I J (a1625_radio_pulse K True (Some (observe_held_radio K hz fuel opt)) PORT1_BASE)"
    unfolding with_radio_context [of _ _ "observe_held_radio K hz fuel opt"]
    by (rule radio_bracket.stage_takes [OF pin IJ]) (simp_all add: client3_def held)
  show ?thesis
    by (rule observe_ready_phy_composed [OF cI cJ IJ P [OF stage_event_quiet(1)] msi_stage])
      (simp_all add: emits_mono [OF snapshots_quiet(1) P] emits_mono [OF snapshots_quiet(2) P]
        emits_mono [OF dart_map_quiet P] valid pulse)
qed

lemma observation_composed:
  assumes "closed phy_event I" and "closed phy_event J" and "\<And>t. I t \<Longrightarrow> J t"
    and "takes I J (observe_ready_phy K hz fuel page_size opt PORT1_BASE 0)"
  shows "takes I J (run_domain_observation K hz fuel page_size opt ctx)"
  unfolding run_domain_observation_def snapshot_registers_def
    with_phy_context [of _ _ _ _ "observe_ready_phy K hz fuel page_size opt"]
  by (rule phy_bracket.stage_takes [OF assms(1-3)]) (simp_all add: client2_def assms(4))

lemma observation_takes:
  assumes cI: "closed calm I" and cJ: "closed calm J" and IJ: "\<And>t. I t \<Longrightarrow> J t"
    and scan: "\<And>dart md am bf hs hu. takes I J (a1625_pci_scan K hz fuel RC_CFG EP_CFG dart md am bf hs hu)"
    and valid: "\<not> options_rejected opt"
  shows "takes I J (run_domain_observation K hz fuel page_size opt ctx)"
proof -
  have own: "closed (msi_event PORT1_BASE) I" "closed (msi_event PORT1_BASE) J" "closed observed I" "closed observed J"
    "closed held_event I" "closed held_event J" "closed phy_event I" "closed phy_event J"
    using cI cJ stage_event_calm(2,3) held_event_calm by (auto simp: closed_def observed_def)
  have held: "takes I J (observe_held_radio K hz fuel opt PORT1_BASE reset gpio_map)" for reset gpio_map
    by (intro observe_held_radio_takes snapshot_endpoint_takes own IJ scan)
  have probe: "takes I I (a1625_msi_probe K PORT1_BASE)"
    by (rule takes_emits [OF msi_probe_emits own(1)])
  have ready: "takes I J (observe_ready_phy K hz fuel page_size opt PORT1_BASE 0)"
    by (rule ready_composed [OF cI cJ IJ _ valid msi_bracket.stage_takes [OF own(1,2) IJ] probe held]) (auto simp: quiet_def)
  show ?thesis by (rule observation_composed [OF own(7,8) IJ ready])
qed

text \<open>
  C5. Bus mastering: on every run of the module, no write sets the bus master bit of the root port or of the
  radio, or could, before the radio has been handed to a driver. The chip snapshot, which enables memory
  decoding, does not enable it either.
\<close>

theorem module_bus_master:
  assumes "run_state (a1625_pcie_domains_init K hz fuel page_size opt) s = (r, s')" and "scan_fresh (trace s)"
  shows "master_guarded (trace s')"
proof -
  have scan: "takes scan_fresh master_guarded (a1625_pci_scan K hz fuel RC_CFG EP_CFG dart md am bf hs hu)" for dart md am bf hs hu
    by (intro takesI wp_pci_scan) (simp_all add: scan_ended_def)
  have "takes scan_fresh master_guarded (a1625_pcie_domains_init K hz fuel page_size opt)"
    by (rule module_takes [OF closed_fresh [OF stage_event_calm(5)] closed_master [OF stage_event_calm(5)] fresh_master
          observation_takes [OF closed_fresh [of calm] closed_master [of calm] fresh_master scan]])
  then show ?thesis using assms by (rule takes_run)
qed

theorem module_bus_master_witness:
  "master_guarded (trace (snd (run_state (a1625_pcie_domains_init board 250 1 4096 firmware_options) boot)))"
  by (rule module_bus_master [OF run_split [OF refl] scan_fresh_boot])

end
