(* ===== verification/ModuleOptions.thy ===== *)
theory ModuleOptions
  imports ModuleMaster
begin

text \<open>
  What the options select: a module without options only reads, a rejected combination does nothing, and
  only the full chain of options can hand the radio to a driver. The module never stays loaded.
\<close>

section \<open>Options\<close>

text \<open>What binding firmware presupposes, directly and through other options.\<close>

definition firmware_chain :: "options \<Rightarrow> bool" where
  "firmware_chain opt \<longleftrightarrow>
     o_cycle opt \<and> o_force_active opt \<and> o_snapshot opt \<and> o_prepare_port opt \<and> o_inspect_prefix opt \<and>
     o_test_refclk opt \<and> o_inspect_rc opt \<and> o_inspect_dart opt \<and> o_pulse_radio opt \<and> o_train_link opt \<and>
     o_identify_endpoint opt \<and> o_scan_pci opt \<and> o_scan_iommu opt \<and> o_scan_msi opt \<and> o_assign_memory opt \<and>
     o_bind_firmware opt \<and>
     \<not> o_probe_dart opt \<and> \<not> o_map_dart opt \<and> \<not> o_probe_msi opt \<and> \<not> o_identify_chip opt \<and> \<not> o_inspect_erom opt \<and>
     (o_hold_seconds opt = 0 \<or> o_hold_seconds opt \<le> 3600 \<and> \<not> o_hold_until_signal opt)"

lemma firmware_needs_chain: "\<not> options_rejected opt \<Longrightarrow> o_bind_firmware opt \<Longrightarrow> firmware_chain opt"
  unfolding options_rejected_def firmware_chain_def by (simp add: not_less) blast

section \<open>Handing over the radio\<close>

abbreviation no_firmware :: "event list \<Rightarrow> bool" where
  "no_firmware t \<equiv> \<not> list_ex starts_firmware t"

lemma closed_no_firmware: "(\<And>e. P e \<Longrightarrow> \<not> starts_firmware e) \<Longrightarrow> closed P no_firmware"
  by (auto simp: closed_def)

lemma stage_event_no_firmware:
  "ordinary e \<Longrightarrow> \<not> starts_firmware e" "tree_event e \<Longrightarrow> \<not> starts_firmware e" "msi_event port e \<Longrightarrow> \<not> starts_firmware e"
  "phy_event e \<Longrightarrow> \<not> starts_firmware e" "pin_event e \<Longrightarrow> \<not> starts_firmware e" "domain_event e \<Longrightarrow> \<not> starts_firmware e"
  by (auto simp: ordinary_def tree_event_def msi_event_def phy_event_def pin_event_def domain_event_def starts_firmware_def
      split: event.splits call.splits pci_call.splits)

lemma observation_no_firmware:
  assumes "\<not> options_rejected opt" and "\<not> o_bind_firmware opt"
  shows "takes no_firmware no_firmware (run_domain_observation K hz fuel page_size opt ctx)"
proof -
  let ?P = "\<lambda>e. \<not> starts_firmware e"
  note quiet = emits_mono [OF ordinary_snapshots(1) stage_event_no_firmware(1)]
    emits_mono [OF ordinary_snapshots(2) stage_event_no_firmware(1)] emits_mono [OF ordinary_dart_map stage_event_no_firmware(1)]
  have "emits ?P (observe_held_radio K hz fuel opt port reset gpio_map)" for port reset gpio_map
    by (rule observe_held_radio_emits)
      (use assms(2) stage_event_no_firmware(1) in \<open>auto simp: scan_event_def starts_firmware_def\<close>)
  then have "emits ?P (a1625_radio_pulse K True (Some (observe_held_radio K hz fuel opt)) port)" for port
    by (intro radio_bracket.stage_emits) (auto simp: client3_def stage_event_no_firmware)
  then have pulse: "takes no_firmware no_firmware (a1625_radio_pulse K True (Some (observe_held_radio K hz fuel opt)) port)" for port
    by (rule takes_emits) (auto simp: closed_no_firmware)
  have "takes no_firmware no_firmware (observe_ready_phy K hz fuel page_size opt port c)" for port c
    by (rule observe_ready_phy_takes [where P = ?P])
      (simp_all add: assms(1) pulse closed_no_firmware stage_event_no_firmware quiet)
  then show ?thesis
    unfolding run_domain_observation_def snapshot_registers_def
    by (intro phy_bracket.stage_takes closed_no_firmware stage_event_no_firmware) (auto simp: client2_def)
qed

section \<open>Properties\<close>

text \<open>
  C18. Firmware is opt-in: a run of the module hands the radio to a driver only if \<open>bind_firmware\<close> is set
  together with the whole chain of options it presupposes: power held active, PHY prepared, radio pulsed under
  reset, link trained, DMA translated, MSI routed, memory assigned, and none of the exclusive diagnostics.
\<close>

theorem module_firmware_opt_in:
  assumes "run_state (a1625_pcie_domains_init K hz fuel page_size opt) s = (r, s')"
    and "\<not> list_ex starts_firmware (trace s)" and "\<not> firmware_chain opt"
  shows "\<not> list_ex starts_firmware (trace s')"
proof -
  from assms(3) have "\<not> options_rejected opt \<Longrightarrow> \<not> o_bind_firmware opt" using firmware_needs_chain by blast
  then have "takes no_firmware no_firmware (a1625_pcie_domains_init K hz fuel page_size opt)"
    by (intro module_takes observation_no_firmware closed_no_firmware stage_event_no_firmware)
  from takes_run [OF this assms(1,2)] show ?thesis .
qed

text \<open>All stages up to the assignment of memory, without firmware.\<close>

theorem module_firmware_opt_in_witness:
  "\<not> list_ex starts_firmware (trace (snd (run_state (a1625_pcie_domains_init board 250 1 4096
     (firmware_options\<lparr>o_bind_firmware := False, o_hold_until_signal := False\<rparr>)) boot)))"
  by (rule module_firmware_opt_in [OF run_split [OF refl]]) (simp_all add: firmware_chain_def)

text \<open>
  The status of the initialization is never 0, so the module never stays loaded: a rejected combination of
  options is \<open>- EINVAL\<close> without a single call, every other run ends with an error or with \<open>- ECANCELED\<close>.
\<close>

theorem module_never_loads:
  "(if options_rejected opt then run_state (a1625_pcie_domains_init K hz fuel page_size opt) s = (- EINVAL, s)
    else fst (run_state (a1625_pcie_domains_init K hz fuel page_size opt) s) \<noteq> 0)"
  by (auto simp: a1625_pcie_domains_init_def split: prod.splits)


definition no_options :: options where
  "no_options = \<lparr>o_cycle = False, o_force_active = False, o_snapshot = False, o_prepare_port = False,
     o_inspect_prefix = False, o_test_refclk = False, o_inspect_rc = False, o_inspect_dart = False,
     o_probe_dart = False, o_scan_iommu = False, o_probe_msi = False, o_map_dart = False, o_test_dma_range = False,
     o_pulse_radio = False, o_train_link = False, o_identify_endpoint = False, o_identify_chip = False,
     o_inspect_erom = False, o_scan_pci = False, o_scan_msi = False, o_assign_memory = False, o_bind_firmware = False,
     o_hold_seconds = 0, o_hold_until_signal = False\<rparr>"


end
