(* ===== verification/EndpointRestore.thy ===== *)
theory EndpointRestore
  imports ModuleMaster
begin

text \<open>
  The round trip of the endpoint snapshot over the registers of the two devices: what the chip snapshot sizes, maps
  and enables, what the routing of bus 1 and what a whole scan change, all of it is put back on every path.
\<close>

section \<open>The registers\<close>

definition device_regs :: "u64 list" where
  "device_regs = header_regs @ [EP_CFG + 0x80, RC_CFG + 0x20]"

definition same_devices :: "(u64 \<Rightarrow> u32) \<Rightarrow> event list \<Rightarrow> event list \<Rightarrow> bool" where
  "same_devices init t u \<longleftrightarrow> list_all (\<lambda>a. mmio_at init u a = mmio_at init t a) device_regs"

lemma same_devices_refl: "same_devices init t t"
  by (simp add: same_devices_def list_all_iff)

lemma same_devices_call [simp]:
  "\<not> mmio_write (Call c r) \<Longrightarrow> same_devices init t (Call c r # u) = same_devices init t u"
  unfolding same_devices_def by (simp add: mmio_at_no_write del: mmio_at.simps)

lemma no_write_calls [simp]:
  "\<not> mmio_write (Call (Mmio (Readl a)) r)" "\<not> mmio_write (Call (Mmio (Readw a)) r)" "\<not> mmio_write (Call (Mmio (Ioremap a n)) r)"
  "\<not> mmio_write (Call (Mmio (Iounmap a)) r)" "\<not> mmio_write (Call (Mmio (RequestMemRegion a n)) r)"
  "\<not> mmio_write (Call (Mmio (ReleaseMemRegion a n)) r)" "\<not> mmio_write (Call (Time c) r)"
  by (simp_all add: mmio_write_def)

section \<open>The chip snapshot\<close>

definition chip_saved :: "(u64 \<Rightarrow> u32) \<Rightarrow> event list \<Rightarrow> chip_state \<Rightarrow> bool" where
  "chip_saved init t c \<longleftrightarrow>
     cs_low c = mmio_at init t (EP_CFG + 0x10) \<and> cs_high c = mmio_at init t (EP_CFG + 0x14) \<and>
     cs_window c = mmio_at init t (EP_CFG + 0x80) \<and> cs_mem c = mmio_at init t (RC_CFG + 0x20)"

text \<open>The other registers, which the chip snapshot never writes.\<close>

definition other_reg :: "u64 \<Rightarrow> bool" where
  "other_reg a \<longleftrightarrow> a \<in> set header_regs \<and> a \<noteq> EP_CFG + 0x10 \<and> a \<noteq> EP_CFG + 0x14"

lemma other_reg_writes [simp]:
  "\<not> other_reg (EP_CFG + 0x10)" "\<not> other_reg (EP_CFG + 0x14)" "\<not> other_reg (EP_CFG + 0x80)" "\<not> other_reg (RC_CFG + 0x20)"
  "\<not> other_reg (EP_CFG + 4)" "\<not> other_reg (RC_CFG + 4)" "\<not> other_reg (EP_CFG + 4 - 2)" "\<not> other_reg (RC_CFG + 4 - 2)"
  by (simp_all add: other_reg_def header_regs_def rc_bar_offsets_def ep_bar_offsets_def)

lemma outside_calls [simp]:
  "\<not> writes_within A (Call (Mmio (Readl a)) r)" "\<not> writes_within A (Call (Mmio (Readw a)) r)" "\<not> writes_within A (Call (Mmio (Ioremap a n)) r)"
  "writes_within A (Call (Mmio (Writel b v)) r) = A b" "writes_within A (Call (Mmio (Writew b w)) r) = (A b \<or> A (b - 2))"
  by (simp_all add: writes_within_def)

lemma erom_no_write: "(\<And>a r. P (Call (Mmio (Readl a)) r)) \<Longrightarrow> emits P (erom_walk K bar offset components pcie)"
proof (induction K bar offset components pcie rule: erom_walk.induct)
  case (1 K bar offset components pcie)
  show ?case by (subst erom_walk.simps) (auto intro!: emits_rules 1)
qed

lemma look_at_chip_writes: "emits (\<lambda>e. \<not> writes_within other_reg e) (look_at_chip K ie RC_CFG EP_CFG c)"
proof -
  have size: "emits (\<lambda>e. \<not> writes_within other_reg e) (size_bar0 K EP_CFG low high)" for low high
    unfolding size_bar0_def by (intro emits_rules) (simp_all del: other_reg_writes add: other_reg_writes [simplified])
  show ?thesis
    unfolding look_at_chip_def map_chip_def set_checked_def set_command_def read_chip_def inspect_components_def
    by (intro emits_rules erom_no_write size) (simp_all del: other_reg_writes add: other_reg_writes [simplified])
qed

lemma wp_save_chip_file:
  assumes "register_file init A K" and "A (EP_CFG + 0x10)" "A (EP_CFG + 0x14)" "A (EP_CFG + 0x80)" "A (RC_CFG + 0x20)"
    and "\<And>c s'. chip_saved init (trace s) c \<Longrightarrow> mmio_at init (trace s') = mmio_at init (trace s) \<Longrightarrow> Q c s'"
  shows "wp (save_chip K RC_CFG EP_CFG) Q s"
  unfolding save_chip_def
  by (intro wp_readl_register_file [OF assms(1)] assms(2-5) wp_rules assms(6)) (simp_all add: chip_saved_def fun_eq_iff)

text \<open>The six writes of the restoration, over whatever has been left.\<close>

lemma wp_restore_chip_file:
  assumes "chip_saved init t c" and "\<And>a. other_reg a \<Longrightarrow> mmio_at init (trace s) a = mmio_at init t a"
    and "\<And>r s'. same_devices init t (trace s') \<Longrightarrow> Q r s'"
  shows "wp (restore_chip K RC_CFG EP_CFG c r) Q s"
proof -
  have compare: "wp (chip_restored K RC_CFG EP_CFG c) R u" if "\<And>r s'. mmio_at init (trace s') = mmio_at init (trace u) \<Longrightarrow> R r s'" for R u
    unfolding chip_restored_def
    by (rule wp_no_mmio_write [where init = init]) (auto intro!: emits_rules that)
  show ?thesis
    unfolding restore_chip_def
    by (intro compare wp_rules assms(3))
      (use assms(1,2) in \<open>simp add: same_devices_def device_regs_def header_regs_def rc_bar_offsets_def ep_bar_offsets_def
        chip_saved_def other_reg_def\<close>)
qed

lemma wp_snapshot_chip_file:
  assumes "register_file init A K" and "\<forall>a \<in> set device_regs. A a"
    and "\<And>r s'. same_devices init (trace s) (trace s') \<Longrightarrow> Q r s'"
  shows "wp (snapshot_chip K ie RC_CFG EP_CFG) Q s"
proof -
  have regs: "A (EP_CFG + 0x10)" "A (EP_CFG + 0x14)" "A (EP_CFG + 0x80)" "A (RC_CFG + 0x20)"
    using assms(2) by (simp_all add: device_regs_def header_regs_def ep_bar_offsets_def)
  have untouched: "wp (chip_untouched K EP_CFG c) R u" if "\<And>r s'. mmio_at init (trace s') = mmio_at init (trace u) \<Longrightarrow> R r s'" for c R u
    unfolding chip_untouched_def
    by (rule wp_no_mmio_write [where init = init]) (auto intro!: emits_rules that)
  note look = wp_no_write_within [OF look_at_chip_writes, where init = init]
  let ?t = "trace s"
  show ?thesis
    unfolding snapshot_chip_def
    by (intro wp_save_chip_file [OF assms(1) regs] untouched look wp_restore_chip_file [where init = init and t = ?t] wp_rules assms(3))
      (simp_all add: chip_saved_def same_devices_def list_all_iff mmio_write_def)
qed

section \<open>The endpoint\<close>

lemma same_header_trans: "same_header init t u \<Longrightarrow> same_header init u v \<Longrightarrow> same_header init t v"
  by (simp add: same_header_def list_all_iff)

lemma same_devices_header: "same_devices init t u \<Longrightarrow> same_header init t u"
  by (simp add: same_devices_def same_header_def device_regs_def)

lemma wp_observe_endpoint_file:
  assumes "register_file init A K" and "\<forall>a \<in> set device_regs. A a"
    and "\<And>r s'. same_header init (trace s) (trace s') \<Longrightarrow> Q r s'"
  shows "wp (observe_endpoint K hz fuel opt RC_CFG EP_CFG) Q s"
proof -
  have header: "register_file init (\<lambda>a. a \<in> set header_regs) K"
    using assms(1,2) by (auto simp: register_file_def device_regs_def)
  let ?t = "trace s"
  have live: "wp (live_registers K EP_CFG offs) R u" if "same_header init ?t (trace u)" "\<And>r s'. same_header init ?t (trace s') \<Longrightarrow> R r s'" for offs R u
    by (rule wp_same_header [where init = init and t = ?t], induction offs) (auto intro!: emits_rules that)
  have chip: "wp (snapshot_chip K ie RC_CFG EP_CFG) R u" if "same_header init ?t (trace u)" "\<And>r s'. same_header init ?t (trace s') \<Longrightarrow> R r s'" for ie R u
    by (rule wp_snapshot_chip_file [OF assms(1,2)]) (blast intro: that same_header_trans same_devices_header)
  have scan: "wp (a1625_pci_scan K hz fuel RC_CFG EP_CFG d md am bf hs hu) R u"
    if "same_header init ?t (trace u)" "\<And>r s'. same_header init ?t (trace s') \<Longrightarrow> R r s'" for d md am bf hs hu R u
    by (rule wp_pci_scan_header [OF header]) (blast intro: that same_header_trans)
  show ?thesis
    unfolding observe_endpoint_def
    by (intro live chip scan wp_rules assms(3)) (simp_all add: same_header_refl)
qed

text \<open>While bus 1 is routed: all but the bus numbers are as before.\<close>

definition rerouted :: "(u64 \<Rightarrow> u32) \<Rightarrow> event list \<Rightarrow> event list \<Rightarrow> bool" where
  "rerouted init t u \<longleftrightarrow>
     (\<forall>a \<in> set header_regs. a \<noteq> RC_CFG + 0x18 \<longrightarrow> mmio_at init u a = mmio_at init t a) \<and>
     mmio_at init u (RC_CFG + 0x18) \<noteq> all_ones"

definition routing_undone :: "(u64 \<Rightarrow> u32) \<Rightarrow> event list \<Rightarrow> u32 option \<Rightarrow> event list \<Rightarrow> bool" where
  "routing_undone init t changed u \<longleftrightarrow>
     (case changed of
        None \<Rightarrow> same_header init t u
      | Some buses \<Rightarrow> buses = mmio_at init t (RC_CFG + 0x18) \<and> rerouted init t u)"

lemma routed_value: "(b AND 0xff000000) OR 0x010100 \<noteq> (all_ones :: u32)"
proof
  assume "(b AND 0xff000000) OR 0x010100 = (all_ones :: u32)"
  then have "bit ((b AND 0xff000000) OR 0x010100) 0 = bit (all_ones :: u32) 0" by (rule arg_cong)
  then show False by (simp add: bit_simps)
qed

lemma wp_route_and_observe_file:
  assumes "register_file init A K" and "\<forall>a \<in> set device_regs. A a"
    and "\<And>r changed s'. routing_undone init (trace s) changed (trace s') \<Longrightarrow> Q (r, changed) s'"
  shows "wp (route_and_observe K hz fuel opt RC_CFG EP_CFG) Q s"
proof -
  have bus: "A (RC_CFG + 0x18)" using assms(2) by (simp add: device_regs_def header_regs_def)
  show ?thesis
    unfolding route_and_observe_def
    by (intro wp_observe_endpoint_file [OF assms(1,2)] wp_readl_register_file [OF assms(1) bus] wp_rules assms(3))
      (simp_all add: routing_undone_def rerouted_def same_header_def header_regs_def rc_bar_offsets_def ep_bar_offsets_def routed_value)
qed

lemma wp_restore_buses_file:
  assumes "register_file init A K" and "A (RC_CFG + 0x18)" and "routing_undone init t changed (trace s)"
    and "\<And>r s'. same_header init t (trace s') \<Longrightarrow> Q r s'"
  shows "wp (restore_buses K RC_CFG changed r) Q s"
proof (cases changed)
  case None
  with assms(3) show ?thesis by (auto simp: restore_buses_def routing_undone_def intro!: wp_rules assms(4))
next
  case (Some buses)
  with assms(3) have "buses = mmio_at init t (RC_CFG + 0x18)" "rerouted init t (trace s)"
    by (simp_all add: routing_undone_def)
  then show ?thesis
    unfolding restore_buses_def Some option.case
    by (intro wp_readl_register_file [OF assms(1,2)] wp_rules assms(4))
      (simp_all add: rerouted_def same_header_def header_regs_def rc_bar_offsets_def ep_bar_offsets_def)
qed

lemma wp_snapshot_endpoint_file:
  assumes "register_file init A K" and "\<forall>a \<in> set device_regs. A a"
    and "\<And>r s'. same_header init (trace s) (trace s') \<Longrightarrow> Q r s'"
  shows "wp (snapshot_endpoint K hz fuel opt) Q s"
proof -
  let ?t = "trace s"
  have bus: "A (RC_CFG + 0x18)" using assms(2) by (simp add: device_regs_def header_regs_def)
  note route = wp_route_and_observe_file [OF assms(1,2)] and buses = wp_restore_buses_file [OF assms(1) bus, where t = ?t]
  show ?thesis
    unfolding snapshot_endpoint_def
    by (intro route buses wp_rules assms(3))
      (simp_all add: routing_undone_def rerouted_def same_header_def list_all_iff split: option.splits)
qed





end
