(* ===== verification/ModuleRestores.thy ===== *)
theory ModuleRestores
  imports ModuleOptions EndpointRestore
begin

text \<open>
  The registers over the whole module: where it writes at all, and that on registers that store what is written to
  them every group it writes is put back by the stage that owns it, and left alone by all the others.
\<close>

section \<open>Confinement\<close>

definition port_register :: "u64 \<Rightarrow> bool" where
  "port_register a \<longleftrightarrow> a = PORT1_BASE + 0x80 \<or> msi_register PORT1_BASE a"

definition confined :: "event \<Rightarrow> bool" where
  "confined e \<longleftrightarrow> (case e of
     Call (Mmio (Writel a _)) _ \<Rightarrow> core_region a \<or> port_register a \<or> page_address a
   | Call (Mmio (Writew a _)) _ \<Rightarrow> page_address a
   | _ \<Rightarrow> True)"

lemma confined_events:
  "quiet e \<Longrightarrow> confined e" "page_write e \<Longrightarrow> confined e" "observed e \<Longrightarrow> confined e" "held_event e \<Longrightarrow> confined e"
  "msi_event PORT1_BASE e \<Longrightarrow> confined e" "phy_event e \<Longrightarrow> confined e" "domain_event e \<Longrightarrow> confined e"
  by (auto simp: confined_def quiet_def page_write_def observed_def held_event_def msi_event_def phy_event_def domain_event_def
      mmio_write_def port_register_def msi_register_def split: event.splits call.splits mmio_call.splits)

text \<open>What the module does around an endpoint stage, for a property that all other writes preserve.\<close>

lemma ready_takes:
  assumes "closed quiet I" "closed held_event I" "closed (msi_event PORT1_BASE) I" and "\<not> options_rejected opt"
    and "takes I I (snapshot_endpoint K hz fuel opt)"
  shows "takes I I (observe_ready_phy K hz fuel page_size opt PORT1_BASE ctx)"
  by (rule ready_composed [OF assms(1,1) _ _ assms(4) msi_bracket.stage_takes [OF assms(3,3)]
        takes_emits [OF msi_probe_emits assms(3)] observe_held_radio_takes [OF assms(2,2) _ assms(5)]]) auto

lemma endpoint_takes:
  assumes "closed page_write I"
  shows "takes I I (snapshot_endpoint K hz fuel opt)"
proof -
  have "closed observed I" using assms by (auto simp: closed_def observed_def)
  then show ?thesis by (intro snapshot_endpoint_takes takes_emits [OF pci_scan_pages assms])
qed

section \<open>Groups of registers\<close>

definition same_regs :: "(u64 \<Rightarrow> u32) \<Rightarrow> (u64 \<Rightarrow> bool) \<Rightarrow> event list \<Rightarrow> event list \<Rightarrow> bool" where
  "same_regs init A t u \<longleftrightarrow> (\<forall>a. A a \<longrightarrow> mmio_at init u a = mmio_at init t a)"

lemma same_regs_refl: "same_regs init A t t"
  by (simp add: same_regs_def)

lemma same_regsD: "same_regs init A t u \<Longrightarrow> A a \<Longrightarrow> mmio_at init u a = mmio_at init t a"
  by (simp add: same_regs_def)

lemma closed_same: "(\<And>e. P e \<Longrightarrow> \<not> writes_within A e) \<Longrightarrow> closed P (same_regs init A t)"
  using mmio_at_frame [of A "[e]" for e] by (fastforce simp: closed_def same_regs_def simp del: mmio_at.simps)

text \<open>The registers below the configuration pages.\<close>

definition low :: "(u64 \<Rightarrow> bool) \<Rightarrow> bool" where
  "low A \<longleftrightarrow> (\<forall>a. A a \<longrightarrow> uint a < 0x610000000)"

lemma page_range:
  assumes "page_address a"
  shows "0x610008000 \<le> uint a" "uint (a - 2) = uint a - 2"
proof -
  have *: "base \<le> uint a" if "a - word_of_int base < 0x1000" "0 \<le> base" "base < 0x700000000" for base
  proof -
    define x where "x = a - word_of_int base"
    then have a: "a = word_of_int base + x" and x: "uint x < 0x1000"
      using that(1) by (simp_all add: word_less_alt)
    have "uint (word_of_int base :: u64) = base"
      using that(2,3) by (simp add: uint_word_of_int_eq take_bit_int_eq_self)
    then have "uint a = base + uint x"
      unfolding a using that(2,3) x by (simp add: uint_word_ariths)
    then show ?thesis by simp
  qed
  show low: "0x610008000 \<le> uint a"
    using assms * [of "0x610008000"] * [of "0x610100000"] by (auto simp: page_address_def)
  then show "uint (a - 2) = uint a - 2"
    using uint_bounded [of a] by (simp add: uint_word_ariths)
qed

lemma page_write_outside: "low A \<Longrightarrow> page_write e \<Longrightarrow> \<not> writes_within A e"
  using page_range unfolding low_def
  by (fastforce simp: writes_within_def page_write_def split: event.splits call.splits mmio_call.splits)

lemma low_groups: "low core_region" "low (msi_register PORT1_BASE)" "low (\<lambda>a. a = PORT1_BASE + 0x80)"
  by (auto simp: low_def core_region_def msi_register_def word_less_alt)

lemma header_high: "a \<in> set header_regs \<Longrightarrow> \<not> core_region a \<and> \<not> port_register a"
  by (auto simp: header_regs_def rc_bar_offsets_def ep_bar_offsets_def core_region_def port_register_def msi_register_def)

text \<open>Which stage writes to which group.\<close>

lemma stage_outside:
  "quiet e \<Longrightarrow> \<not> writes_within A e" "domain_event e \<Longrightarrow> \<not> writes_within A e"
  "held_event e \<Longrightarrow> \<not> A (PORT1_BASE + 0x80) \<Longrightarrow> \<not> writes_within A e"
  "msi_event PORT1_BASE e \<Longrightarrow> (\<And>a. msi_register PORT1_BASE a \<Longrightarrow> \<not> A a) \<Longrightarrow> \<not> writes_within A e"
  "phy_event e \<Longrightarrow> (\<And>a. core_region a \<Longrightarrow> \<not> A a) \<Longrightarrow> \<not> writes_within A e"
  by (auto simp: writes_within_def quiet_def mmio_write_def domain_event_def held_event_def msi_event_def msi_register_def phy_event_def
      split: event.splits call.splits mmio_call.splits)

lemma closed_same_stages:
  "closed quiet (same_regs init A t)" "closed domain_event (same_regs init A t)"
  "\<not> A (PORT1_BASE + 0x80) \<Longrightarrow> closed held_event (same_regs init A t)"
  "(\<And>a. msi_register PORT1_BASE a \<Longrightarrow> \<not> A a) \<Longrightarrow> closed (msi_event PORT1_BASE) (same_regs init A t)"
  "(\<And>a. core_region a \<Longrightarrow> \<not> A a) \<Longrightarrow> closed phy_event (same_regs init A t)"
  "low A \<Longrightarrow> closed page_write (same_regs init A t)"
  using stage_outside [of _ A] page_write_outside [of A] by (blast intro: closed_same)+

section \<open>Confinement of the whole module\<close>

lemma closed_confined:
  assumes "closed confined I"
  shows "closed quiet I" "closed page_write I" "closed held_event I" "closed (msi_event PORT1_BASE) I" "closed phy_event I"
    "closed domain_event I"
  using assms confined_events by (auto simp: closed_def)

lemma module_same:
  assumes "closed domain_event I" "closed phy_event I"
    and "\<not> options_rejected opt \<Longrightarrow> takes I I (observe_ready_phy K hz fuel page_size opt PORT1_BASE 0)"
  shows "takes I I (a1625_pcie_domains_init K hz fuel page_size opt)"
  by (rule module_takes [OF assms(1,1)]) (auto intro: observation_composed [OF assms(2,2)] assms(3))

lemma module_confined: "emits confined (a1625_pcie_domains_init K hz fuel page_size opt)"
proof -
  have "takes (grows confined t0) (grows confined t0) (a1625_pcie_domains_init K hz fuel page_size opt)" for t0
  proof -
    have "closed confined (grows confined t0)" by (rule closed_grows)
    note own = closed_confined [OF this]
    show ?thesis
      by (rule module_same [OF own(6,5)], rule ready_takes [OF own(1,3,4) _ endpoint_takes [OF own(2)]])
  qed
  then show ?thesis by (simp add: emits_takes)
qed

section \<open>The link control\<close>

definition link_control :: "u64 \<Rightarrow> bool" where
  "link_control a \<longleftrightarrow> a = PORT1_BASE + 0x80"

lemma link_alive:
  assumes "control AND 1 = (0 :: u32)" and "control \<noteq> 0xfffffffe"
  shows "control OR 1 \<noteq> all_ones"
proof
  assume "control OR 1 = all_ones"
  moreover have "control = (control OR 1) AND NOT 1"
  proof (rule bit_word_eqI)
    fix n assume "n < LENGTH(32)"
    have "bit control 0 = False" using arg_cong [OF assms(1), of "\<lambda>w. bit w 0"] by (simp add: bit_simps)
    then show "bit control n = bit ((control OR 1) AND NOT 1) n"
      using \<open>n < LENGTH(32)\<close> by (cases n) (auto simp: bit_simps)
  qed
  ultimately show False using assms(2) by simp
qed

text \<open>
  The observer of the powered radio sets bit 0 of the link control and takes it back. It gives up if the register
  reads all ones, so the value \<open>0xfffffffe\<close> is excluded.
\<close>

lemma wp_held_link:
  assumes K: "register_file init link_control K" and "same_regs init link_control t (trace s)"
    and "mmio_at init t (PORT1_BASE + 0x80) \<noteq> 0xfffffffe"
    and Q: "\<And>r s'. same_regs init link_control t (trace s') \<Longrightarrow> Q r s'"
  shows "wp (observe_held_radio K hz fuel opt PORT1_BASE reset gpio_map) Q s"
proof -
  let ?link = "\<lambda>s. mmio_at init (trace s) (PORT1_BASE + 0x80)"
  have same: "same_regs init link_control t u \<longleftrightarrow> mmio_at init u (PORT1_BASE + 0x80) = mmio_at init t (PORT1_BASE + 0x80)" for u
    by (simp add: same_regs_def link_control_def)
  have link: "link_control (PORT1_BASE + 0x80)" by (simp add: link_control_def)
  have endpoint: "wp (snapshot_endpoint K hz fuel opt) R u" if R: "\<And>r s'. ?link s' = ?link u \<Longrightarrow> R r s'" for R u
  proof (rule wp_takes [OF endpoint_takes [OF closed_same [OF page_write_outside]]])
    show "low link_control" using low_groups(3) by (simp add: link_control_def [abs_def])
    show "same_regs init link_control (trace u) (trace u)" by (rule same_regs_refl)
    show "R r s'" if "same_regs init link_control (trace u) (trace s')" for r and s' :: machine
      by (rule R) (use \<open>same_regs init link_control (trace u) (trace s')\<close> in \<open>simp add: same_regs_def link_control_def\<close>)
  qed
  have stop: "wp (stop_link K PORT1_BASE control r) R u"
    if "?link u \<noteq> all_ones" "\<And>r s'. ?link s' = control \<Longrightarrow> R r s'" for control r R u
    unfolding stop_link_def
    by (intro wp_readl_register_file [OF K link] wp_rules that(2)) (use that(1) in simp_all)
  have train: "wp (train_and_identify K hz fuel opt PORT1_BASE control) R u"
    if "control OR 1 \<noteq> all_ones" "\<And>r s'. ?link s' = control \<Longrightarrow> R r s'" for control R u
    unfolding train_and_identify_def Let_def
    by (intro wp_readl_register_file [OF K link] endpoint stop wp_rules that(2)) (use that(1) in simp_all)
  show ?thesis
    unfolding observe_held_radio_def
    by (intro wp_readl_register_file [where a = "PORT1_BASE + 0x80", OF K link] train wp_rules Q)
      (use assms(2,3) link_alive [of "?link s"] in \<open>auto simp: same\<close>)
qed

section \<open>The PHY block\<close>

lemma ready_leaves_core:
  assumes "\<not> options_rejected opt"
  shows "emits (\<lambda>e. \<not> writes_within core_region e) (observe_ready_phy K hz fuel page_size opt PORT1_BASE ctx)"
proof -
  let ?P = "\<lambda>e. \<not> writes_within core_region e"
  have port: "\<not> core_region (PORT1_BASE + 0x80)" "msi_register PORT1_BASE a \<Longrightarrow> \<not> core_region a" for a
    by (auto simp: core_region_def msi_register_def)
  have "takes (grows ?P t0) (grows ?P t0) (observe_ready_phy K hz fuel page_size opt PORT1_BASE ctx)" for t0
  proof (intro ready_takes endpoint_takes closed_grows assms)
    show "quiet e \<Longrightarrow> ?P e" for e by (rule stage_outside(1))
    show "held_event e \<Longrightarrow> ?P e" for e by (rule stage_outside(3), assumption, rule port(1))
    show "msi_event PORT1_BASE e \<Longrightarrow> ?P e" for e by (rule stage_outside(4)) (simp_all add: port)
    show "page_write e \<Longrightarrow> ?P e" for e by (rule page_write_outside [OF low_groups(1)])
  qed
  then show ?thesis by (simp add: emits_takes)
qed

text \<open>The observation is the PHY stage with a client that leaves the block alone.\<close>

lemma observation_as_phy_stage:
  assumes "\<not> options_rejected opt"
  obtains f where "leaves_core (Some f)"
    and "run_domain_observation K hz fuel page_size opt ctx =
      a1625_with_pcie_phy K (o_prepare_port opt) (o_inspect_prefix opt) (o_test_refclk opt) (Some f) 0"
proof
  show "leaves_core (Some (\<lambda>_ _. observe_ready_phy K hz fuel page_size opt PORT1_BASE 0))"
    using ready_leaves_core [OF assms] by (auto simp: leaves_core_def)
  show "run_domain_observation K hz fuel page_size opt ctx =
      a1625_with_pcie_phy K (o_prepare_port opt) (o_inspect_prefix opt) (o_test_refclk opt)
        (Some (\<lambda>_ _. observe_ready_phy K hz fuel page_size opt PORT1_BASE 0)) 0"
    unfolding run_domain_observation_def snapshot_registers_def
    by (rule with_phy_context)
qed

lemma module_core:
  assumes "register_file init core_region K" and "bit31_clear (mmio_at init t)"
  shows "takes (same_regs init core_region t) (same_regs init core_region t) (a1625_pcie_domains_init K hz fuel page_size opt)"
proof (rule module_takes)
  let ?I = "same_regs init core_region t"
  show "closed domain_event ?I" by (rule closed_same_stages(2))
  then show "closed domain_event ?I" .
  fix c assume "\<not> options_rejected opt"
  then obtain f where "leaves_core (Some f)" and stage: "run_domain_observation K hz fuel page_size opt c =
      a1625_with_pcie_phy K (o_prepare_port opt) (o_inspect_prefix opt) (o_test_refclk opt) (Some f) 0"
    by (rule observation_as_phy_stage)
  show "takes ?I ?I (run_domain_observation K hz fuel page_size opt c)"
  proof (unfold stage, rule takesI)
    fix s :: machine assume s: "?I (trace s)"
    show "wp (a1625_with_pcie_phy K (o_prepare_port opt) (o_inspect_prefix opt) (o_test_refclk opt) (Some f) 0) (\<lambda>_ s'. ?I (trace s')) s"
    proof (rule wp_phy_restores [OF assms(1) \<open>leaves_core (Some f)\<close>])
      show "bit31_clear (mmio_at init (trace s))"
        using bit31_clear_cong [of "mmio_at init (trace s)" "mmio_at init t"] same_regsD [OF s] assms(2) by simp
    qed (use s in \<open>simp add: same_regs_def\<close>)
  qed
qed

section \<open>The header, the port\<close>

definition module_register :: "u64 \<Rightarrow> bool" where
  "module_register a \<longleftrightarrow> core_region a \<or> port_register a \<or> a \<in> set device_regs"

lemma module_link:
  assumes "register_file init link_control K" and "mmio_at init t (PORT1_BASE + 0x80) \<noteq> 0xfffffffe"
  shows "takes (same_regs init link_control t) (same_regs init link_control t) (a1625_pcie_domains_init K hz fuel page_size opt)"
proof -
  let ?I = "same_regs init link_control t"
  have apart: "core_region a \<Longrightarrow> \<not> link_control a" "msi_register PORT1_BASE a \<Longrightarrow> \<not> link_control a" for a
    by (auto simp: core_region_def msi_register_def link_control_def)
  have own: "closed domain_event ?I" "closed phy_event ?I" "closed quiet ?I" "closed (msi_event PORT1_BASE) ?I"
    by (intro closed_same_stages apart; assumption?)+
  have held: "takes ?I ?I (observe_held_radio K hz fuel opt PORT1_BASE reset gpio_map)" for reset gpio_map
    by (intro takesI wp_held_link [OF assms(1) _ assms(2)])
  show ?thesis
    by (rule module_same [OF own(1,2)], rule ready_composed [OF own(3,3) _ _ _ msi_bracket.stage_takes [OF own(4,4)]
          takes_emits [OF msi_probe_emits own(4)] held]) auto
qed

lemma module_msi:
  assumes "register_file init (msi_register PORT1_BASE) K"
  shows "takes (same_regs init (msi_register PORT1_BASE) t) (same_regs init (msi_register PORT1_BASE) t)
    (a1625_pcie_domains_init K hz fuel page_size opt)"
proof -
  let ?I = "same_regs init (msi_register PORT1_BASE) t"
  have apart: "core_region a \<Longrightarrow> \<not> msi_register PORT1_BASE a" "\<not> msi_register PORT1_BASE (PORT1_BASE + 0x80)" for a
    by (auto simp: core_region_def msi_register_def)
  have own: "closed domain_event ?I" "closed phy_event ?I" "closed quiet ?I" "closed held_event ?I" "closed page_write ?I"
    by (intro closed_same_stages apart low_groups; assumption?)+
  have msi: "takes ?I ?I (a1625_with_msi K PORT1_BASE operate ctx)" for operate ctx
    by (intro takesI wp_with_msi_restores [OF assms]) (simp add: same_regs_def msi_register_def)
  then have probe: "takes ?I ?I (a1625_msi_probe K PORT1_BASE)" by (simp add: a1625_msi_probe_def)
  have held: "takes ?I ?I (observe_held_radio K hz fuel opt PORT1_BASE reset gpio_map)" for reset gpio_map
    by (rule observe_held_radio_takes [OF own(4,4) _ endpoint_takes [OF own(5)]])
  show ?thesis
    by (rule module_same [OF own(1,2)], rule ready_composed [OF own(3,3) _ _ _ msi probe held]) auto
qed

lemma module_header:
  assumes "register_file init (\<lambda>a. a \<in> set device_regs) K"
  shows "takes (same_regs init (\<lambda>a. a \<in> set header_regs) t) (same_regs init (\<lambda>a. a \<in> set header_regs) t)
    (a1625_pcie_domains_init K hz fuel page_size opt)"
proof -
  let ?A = "\<lambda>a. a \<in> set header_regs" let ?I = "same_regs init ?A t"
  have apart: "core_region a \<Longrightarrow> \<not> ?A a" "port_register a \<Longrightarrow> \<not> ?A a" for a
    using header_high [of a] by auto
  have port: "\<not> ?A (PORT1_BASE + 0x80)" "msi_register PORT1_BASE a \<Longrightarrow> \<not> ?A a" for a
    by (rule apart(2); simp add: port_register_def)+
  have own: "closed domain_event ?I" "closed phy_event ?I" "closed quiet ?I" "closed held_event ?I" "closed (msi_event PORT1_BASE) ?I"
    by (intro closed_same_stages apart(1) port; assumption?)+
  have "takes ?I ?I (snapshot_endpoint K hz fuel opt)"
    by (intro takesI wp_snapshot_endpoint_file [OF assms])
      (auto simp: same_regs_def same_header_def list_all_iff)
  then show ?thesis
    by (intro module_same [OF own(1,2)] ready_takes [OF own(3-5)])
qed

section \<open>Properties\<close>

text \<open>
  C4. Confinement: on every run of the module, with any options, any kernel, any answer of the hardware and any
  callbacks of the PCI core and the drivers, each of its register writes goes to the PHY block, to the link control or
  one of the two MSI registers of port 1, or to one of the two configuration pages, and 16-bit writes to the pages only.
\<close>

theorem module_writes_confined:
  "\<exists>new. trace (snd (run_state (a1625_pcie_domains_init K hz fuel page_size opt) s)) = new @ trace s \<and> list_all confined new"
  using wp_run [OF emits_wp [OF module_confined], of K hz fuel page_size opt s, OF surjective_pairing] by simp

definition restored_register :: "u64 \<Rightarrow> bool" where
  "restored_register a \<longleftrightarrow> core_region a \<or> port_register a \<or> a \<in> set header_regs"



text \<open>
  C7. On every run of the module each write to the PHY block answers the read immediately before it, of the same
  register and of a value that is not all ones, and changes only the bits listed for that register; with
  \<open>inspect_prefix\<close> the counter command at \<open>0x860\<close> is never written. So a block that stops answering is left alone.
\<close>

theorem module_masked_writes:
  assumes "run_state (a1625_pcie_domains_init K hz fuel page_size opt) s = (r, s')"
    and "core_guarded (o_inspect_prefix opt) (trace s)"
  shows "core_guarded (o_inspect_prefix opt) (trace s')"
proof -
  let ?I = "core_guarded (o_inspect_prefix opt)"
  have closed: "closed domain_event ?I"
    using core_guarded_frame [of "[e]" for e] stage_outside(2) by (fastforce simp: closed_def)
  have "takes ?I ?I (a1625_pcie_domains_init K hz fuel page_size opt)"
  proof (rule module_takes [OF closed closed])
    fix c assume "\<not> options_rejected opt"
    then obtain f where "leaves_core (Some f)" and "run_domain_observation K hz fuel page_size opt c =
        a1625_with_pcie_phy K (o_prepare_port opt) (o_inspect_prefix opt) (o_test_refclk opt) (Some f) 0"
      by (rule observation_as_phy_stage)
    then show "takes ?I ?I (run_domain_observation K hz fuel page_size opt c)"
      by (simp add: takesI wp_phy_guarded)
  qed simp
  then show ?thesis using assms by (rule takes_run)
qed

theorem module_masked_writes_witness:
  "core_guarded True (trace (snd (run_state (a1625_pcie_domains_init board 250 1 4096 firmware_options) boot)))"
  using module_masked_writes [OF run_split [OF refl], of "firmware_options" boot] by (simp add: firmware_options_def)

end
