(* ===== verification/ScanHold.thy ===== *)
theory ScanHold
  imports ScanLedger
begin

text \<open>
  The end of the hold: the loop of \<open>a1625_hold_wifi\<close> is the only one of the program without a
  bound of its own. It ends when a signal arrives or, without \<open>until_signal\<close>, when its time is over.
\<close>

section \<open>Sleeping\<close>

definition is_sleep :: "event \<Rightarrow> bool" where
  "is_sleep e = (case e of Call (Time (MsleepInterruptible _)) _ \<Rightarrow> True | _ \<Rightarrow> False)"

definition sleeps :: "event list \<Rightarrow> nat" where
  "sleeps t = length (filter is_sleep t)"

lemma sleeps_simps [simp]:
  "sleeps [] = 0" "sleeps (e # t) = (if is_sleep e then 1 else 0) + sleeps t" "sleeps (t @ u) = sleeps t + sleeps u"
  by (simp_all add: sleeps_def)

lemma is_sleep_call [simp]: "is_sleep (Call c r) \<longleftrightarrow> (case c of Time (MsleepInterruptible _) \<Rightarrow> True | _ \<Rightarrow> False)"
  by (simp add: is_sleep_def split: call.split time_call.split)

lemma is_sleep_result [simp]: "\<not> is_sleep (CallbackResult cb r v)"
  by (simp add: is_sleep_def)

lemma no_sleeps: "list_all (\<lambda>e. \<not> is_sleep e) new \<Longrightarrow> sleeps new = 0"
  by (simp add: sleeps_def list_all_iff filter_empty_conv)

definition signal_seen :: "event \<Rightarrow> bool" where
  "signal_seen e = (case e of Call (Time SignalPending) r \<Rightarrow> r_val r \<noteq> 0 | _ \<Rightarrow> False)"

section \<open>Callbacks do not sleep and leave the fuel mark alone\<close>

definition awake :: "'a prog \<Rightarrow> bool" where
  "awake m \<longleftrightarrow> emits (\<lambda>e. \<not> is_sleep e) m \<and> (\<forall>b. maintains (\<lambda>s. out_of_fuel s = b) m)"

lemma awake_bind: "awake m \<Longrightarrow> (\<And>x. awake (f x)) \<Longrightarrow> awake (State_Monad.bind m f)"
  unfolding awake_def by (auto intro!: emits_rules inv_rules)

lemma awake_return: "awake (return x)"
  unfolding awake_def by (auto intro!: emits_rules inv_rules)

lemma awake_log: "awake (log_result cb r v)"
  unfolding awake_def by (auto intro!: emits_rules inv_rules)

lemma awake_loops:
  "awake (set_hwirqs K d v h n)" "awake (free_slots K d v n)" "awake (reset_irq_data K d v n)"
  unfolding awake_def
  by (induction n arbitrary: v h) (auto simp: set_used_def intro!: emits_rules inv_rules)

lemma awake_accessors:
  "awake (a1625_scan_read K bus devfn offset width)" "awake (a1625_scan_write K bus devfn offset width x)"
  unfolding awake_def a1625_scan_read_def a1625_scan_write_def reject_def upd_scan_def get_scan_def
  by (auto intro!: emits_rules inv_rules)

lemma awake_msi_callback: "awake (msi_callback K cb)"
  using awake_loops
  by (cases cb) (auto simp: msi_callback_def a1625_msi_alloc_def a1625_msi_free_def a1625_msi_eoi_def set_used_def awake_def
      intro!: emits_rules inv_rules)

lemma awake_leaf_callback: "awake (leaf_callback K cb)"
  by (cases cb) (auto simp: leaf_callback_def split: prod.splits intro!: awake_bind awake_log awake_accessors awake_msi_callback)

lemma awake_leaf_callbacks: "awake (run_leaf_callbacks K cbs)"
  by (induction cbs) (auto intro!: awake_bind awake_return awake_leaf_callback)

lemma wp_awake:
  assumes "awake m" and "\<And>r new (s' :: machine). trace s' = new @ trace s \<Longrightarrow> sleeps new = 0 \<Longrightarrow> out_of_fuel s' = out_of_fuel s \<Longrightarrow> Q r s'"
  shows "wp m Q s"
proof -
  have "wp m (\<lambda>_ s'. \<exists>new. trace s' = new @ trace s \<and> list_all (\<lambda>e. \<not> is_sleep e) new) s"
    using assms(1) by (auto simp: awake_def intro: emits_wp)
  moreover have "wp m (\<lambda>_ s'. out_of_fuel s' = out_of_fuel s) s"
    using assms(1) by (auto simp: awake_def maintains_def)
  ultimately have "wp m (\<lambda>_ s'. (\<exists>new. trace s' = new @ trace s \<and> list_all (\<lambda>e. \<not> is_sleep e) new) \<and> out_of_fuel s' = out_of_fuel s) s"
    by (rule wp_conj)
  then show ?thesis by (rule wp_mono) (auto intro: assms(2) no_sleeps)
qed

lemma wp_sleep:
  assumes "\<And>r new s'. trace s' = new @ trace s \<Longrightarrow> sleeps new = 1 \<Longrightarrow> out_of_fuel s' = out_of_fuel s \<Longrightarrow> Q r s'"
  shows "wp (call_with_leaves K (Time (MsleepInterruptible ms))) Q s"
  unfolding call_with_leaves_def
  by (intro wp_bind wp_kcall wp_awake [OF awake_leaf_callbacks] wp_return) (auto intro!: assms)

section \<open>What ends a hold\<close>

text \<open>
  A signal that arrives within \<open>n\<close> sleeps, and a clock on which \<open>n\<close> sleeps take at least \<open>d\<close> jiffies.
  Both only constrain histories with exactly \<open>n\<close> sleeps: the counter wraps around, so no clock
  is past a deadline forever.
\<close>

definition signal_within :: "kernel \<Rightarrow> nat \<Rightarrow> bool" where
  "signal_within K n \<longleftrightarrow> (\<forall>new t. sleeps new = n \<longrightarrow> r_val (K (new @ t) (Time SignalPending)) \<noteq> 0)"

definition time_passes :: "kernel \<Rightarrow> nat \<Rightarrow> u64 \<Rightarrow> bool" where
  "time_passes K n d \<longleftrightarrow> (\<forall>new t. sleeps new = n \<longrightarrow>
     \<not> time_before (r_val (K (new @ t) (Time Jiffies))) (r_val (K t (Time Jiffies)) + d))"

text \<open>The state after the loop, relative to the history \<open>t\<close> it started from.\<close>

definition held_until :: "bool \<Rightarrow> nat \<Rightarrow> event list \<Rightarrow> bool \<Rightarrow> int \<Rightarrow> machine \<Rightarrow> bool" where
  "held_until until_signal n t b r s \<longleftrightarrow> out_of_fuel s = b \<and> r \<in> {0, - EIO} \<and>
     (\<exists>new. trace s = new @ t \<and> sleeps new \<le> n \<and> (r = 0 \<and> until_signal \<longrightarrow> list_ex signal_seen new))"

lemma held_untilI:
  "trace s = new @ t \<Longrightarrow> sleeps new \<le> n \<Longrightarrow> out_of_fuel s = b \<Longrightarrow> r \<in> {0, - EIO} \<Longrightarrow>
   (r = 0 \<Longrightarrow> u \<Longrightarrow> list_ex signal_seen new) \<Longrightarrow> held_until u n t b r s"
  unfolding held_until_def by blast

lemma wp_jiffies: "Q (r_val (K (trace s) (Time Jiffies))) (s\<lparr>trace := Call (Time Jiffies) (K (trace s) (Time Jiffies)) # trace s\<rparr>)
    \<Longrightarrow> wp (jiffies K) Q s"
  by (simp add: wp_def val_call_def kcall_def Let_def)

lemma wp_signal: "Q (r_val (K (trace s) (Time SignalPending)) \<noteq> 0)
      (s\<lparr>trace := Call (Time SignalPending) (K (trace s) (Time SignalPending)) # trace s\<rparr>) \<Longrightarrow> wp (signal_pending K) Q s"
  by (simp add: wp_def bool_call_def kcall_def Let_def)

text \<open>One round after the test of the clock.\<close>

definition hold_round :: "kernel \<Rightarrow> ptr \<Rightarrow> u64 \<Rightarrow> int prog \<Rightarrow> int prog" where
  "hold_round K dev regs rest = do {
     signalled \<leftarrow> signal_pending K;
     if signalled then return 0 else do {
     device_lock K dev;
     bound \<leftarrow> dev_driver K dev;
     device_unlock K dev;
     error \<leftarrow> (if bound then readl K (regs + 0x10) else return 0);
     if \<not> bound \<or> error AND BIT 31 \<noteq> 0 then return (- EIO) else do {
     call_with_leaves K (Time (MsleepInterruptible 100));
     rest
     }}}"

lemma hold_loop_round:
  "hold_loop K (Suc n) dev regs until_signal deadline = do {
     go \<leftarrow> (if until_signal then return True else do { now \<leftarrow> jiffies K; return (time_before now deadline) });
     if \<not> go then return 0 else hold_round K dev regs (hold_loop K n dev regs until_signal deadline)
   }"
  by (simp only: hold_loop.simps hold_round_def)

lemma wp_hold_round:
  assumes "trace s = new @ t" "sleeps new = k" "k \<le> n" and pending: "k = n \<Longrightarrow> signal_within K n"
    and more: "\<And>new s'. trace s' = new @ t \<Longrightarrow> sleeps new = Suc k \<Longrightarrow> k < n \<Longrightarrow> out_of_fuel s' = out_of_fuel s \<Longrightarrow> wp rest Q s'"
    and Q: "\<And>r s'. held_until u n t (out_of_fuel s) r s' \<Longrightarrow> Q r s'"
  shows "wp (hold_round K dev regs rest) Q s"
proof -
  have "k < n" if "r_val (K (trace s) (Time SignalPending)) = 0"
    using pending that assms(1-3) unfolding signal_within_def by (cases "k = n") auto
  then show ?thesis
    unfolding hold_round_def
    by (intro wp_bind wp_signal wp_if wp_return wp_do_call wp_bool_call wp_u32_call wp_sleep more Q)
      (auto intro!: held_untilI simp: assms(1-3) signal_seen_def)
qed

lemma wp_hold_loop:
  assumes over: "signal_within K n \<or> \<not> u \<and> time_passes K n d"
    and "trace s = new @ t" "sleeps new = k" "k \<le> n" "n < k + fuel"
    and "\<And>r s'. held_until u n t (out_of_fuel s) r s' \<Longrightarrow> Q r s'"
  shows "wp (hold_loop K fuel dev regs u (r_val (K t (Time Jiffies)) + d)) Q s"
  using assms(2-)
proof (induction fuel arbitrary: k new s Q)
  case (Suc fuel)
  have go: "signal_within K n" if "k = n" "u \<or> time_before (r_val (K (trace s) (Time Jiffies))) (r_val (K t (Time Jiffies)) + d)"
    using over that Suc.prems(1,2) unfolding time_passes_def by auto
  have round: "wp (hold_round K dev regs (hold_loop K fuel dev regs u (r_val (K t (Time Jiffies)) + d))) Q s'"
    if s': "trace s' = e @ trace s" "sleeps e = 0" "out_of_fuel s' = out_of_fuel s" and "k = n \<Longrightarrow> signal_within K n" for s' :: machine and e
  proof (rule wp_hold_round)
    show "trace s' = (e @ new) @ t" "sleeps (e @ new) = k" using s' Suc.prems(1,2) by simp_all
  next
    fix new' and s2 :: machine assume "trace s2 = new' @ t" "sleeps new' = Suc k" "k < n" "out_of_fuel s2 = out_of_fuel s'"
    then show "wp (hold_loop K fuel dev regs u (r_val (K t (Time Jiffies)) + d)) Q s2"
      using Suc.prems(4,5) s'(3) by (intro Suc.IH) auto
  qed (use that Suc.prems in auto)
  show ?case
  proof (cases u)
    case True
    show ?thesis
      unfolding hold_loop_round True
      by (intro wp_rules round [where e = "[]"]) (use go True in auto)
  next
    case False
    show ?thesis
      unfolding hold_loop_round if_not_P [OF False]
      by (intro wp_bind wp_jiffies wp_return wp_if round [where e = "[_]"] Suc.prems(5) held_untilI)
        (use go False Suc.prems(1-3) in auto)
  qed
qed simp

section \<open>Properties\<close>

definition hold_ended :: "bool \<Rightarrow> nat \<Rightarrow> machine \<Rightarrow> int \<Rightarrow> machine \<Rightarrow> bool" where
  "hold_ended until_signal n s r s' \<longleftrightarrow> out_of_fuel s' = out_of_fuel s \<and>
     (\<exists>new. trace s' = new @ trace s \<and> sleeps new \<le> n \<and> (r = 0 \<and> until_signal \<longrightarrow> list_ex signal_seen new))"

lemma hold_endedI:
  "trace s' = new @ trace s \<Longrightarrow> sleeps new \<le> n \<Longrightarrow> out_of_fuel s' = out_of_fuel s \<Longrightarrow>
   (r = 0 \<Longrightarrow> u \<Longrightarrow> list_ex signal_seen new) \<Longrightarrow> hold_ended u n s r s'"
  unfolding hold_ended_def by blast

lemma hold_ended_start: "\<not> (r = 0 \<and> u) \<Longrightarrow> hold_ended u n s r s"
  by (rule hold_endedI [where new = "[]"]) auto

lemma hold_ended_call:
  assumes "hold_ended u n s r s'" and "\<not> is_sleep (Call c x)"
  shows "hold_ended u n s r (s'\<lparr>trace := Call c x # trace s'\<rparr>)"
proof -
  obtain new where "trace s' = new @ trace s" "sleeps new \<le> n" "r = 0 \<and> u \<longrightarrow> list_ex signal_seen new"
    "out_of_fuel s' = out_of_fuel s"
    using assms(1) unfolding hold_ended_def by blast
  then show ?thesis
    using assms(2) by (intro hold_endedI [where new = "Call c x # new"]) auto
qed

lemma wp_hold_wifi:
  assumes "signal_within K n \<or> \<not> u \<and> time_passes K n (ucast (seconds * ucast hz))" and "n < fuel"
  shows "wp (a1625_hold_wifi K hz fuel dev seconds u) (hold_ended u n s) s"
proof -
  have held: "wp (do { now \<leftarrow> jiffies K; r \<leftarrow> hold_loop K fuel dev regs u (now + ucast (seconds * ucast hz)); iounmap K regs; return r })
      (hold_ended u n s) s1"
    if s1: "trace s1 = e @ trace s" "sleeps e = 0" "out_of_fuel s1 = out_of_fuel s" for regs s1 e
  proof (rule wp_bind, rule wp_jiffies, rule wp_bind,
      rule wp_hold_loop [OF assms(1), where k = 0 and new = "[Call (Time Jiffies) (K (trace s1) (Time Jiffies))]"])
    fix r s2 assume "held_until u n (trace s1)
        (out_of_fuel (s1\<lparr>trace := Call (Time Jiffies) (K (trace s1) (Time Jiffies)) # trace s1\<rparr>)) r s2"
    then obtain new where "trace s2 = new @ trace s1" "sleeps new \<le> n" "r = 0 \<and> u \<longrightarrow> list_ex signal_seen new" "out_of_fuel s2 = out_of_fuel s"
      using s1(3) unfolding held_until_def by auto
    then show "wp (do { iounmap K regs; return r }) (hold_ended u n s) s2"
      by (intro wp_bind wp_do_call wp_return hold_endedI [where new = "_ # new @ e"]) (auto simp: s1)
  qed (use assms(2) in simp_all)
  show ?thesis
    unfolding a1625_hold_wifi_def
    by (intro wp_bind wp_val_call wp_bool_call wp_do_call wp_ioremap wp_if wp_return held [where e = "[_, _, _, _]"])
      (auto simp: is_sleep_def intro!: hold_ended_start hold_ended_call [where s' = "s\<lparr>trace := _\<rparr>", simplified] hold_ended_call [where s' = s])
qed

text \<open>
  C30. The hold ends: if a signal arrives within \<open>n\<close> sleeps, or the hold has a duration and \<open>n\<close> sleeps
  take at least that long, then the loop makes at most \<open>n\<close> sleeps, whatever else happens. A hold until
  a signal that reports success has seen a signal.
\<close>

theorem hold_wifi_ends:
  assumes "run_state (a1625_hold_wifi K hz fuel dev seconds until_signal) s = (r, s')"
    and "signal_within K n \<or> \<not> until_signal \<and> time_passes K n (ucast (seconds * ucast hz))" and "n < fuel"
  shows "out_of_fuel s' = out_of_fuel s \<and>
    (\<exists>new. trace s' = new @ trace s \<and> sleeps new \<le> n \<and> (r = 0 \<and> until_signal \<longrightarrow> list_ex signal_seen new))"
  using wp_run [OF wp_hold_wifi [OF assms(2,3)] assms(1)] by (simp add: hold_ended_def)

theorem hold_wifi_ends_witness:
  "\<not> out_of_fuel (snd (run_state (a1625_hold_wifi board 250 1 0xa200 0 True) boot))"
proof -
  have "signal_within board 0" by (simp add: signal_within_def board_def ok_def)
  then show ?thesis using hold_wifi_ends [OF run_split [OF refl], where n = 0 and s = boot] by simp
qed

end
