(* ===== verification/RadioProtocol.thy ===== *)
theory RadioProtocol
  imports ModuleSafety
begin

text \<open>
  The protocol of radio power and reset line as an abstract state machine, and its refinement by the
  module: every history of a run is a run of the machine. The commands are the writes to the power register,
  to the configuration of the PERST pin, and the drives of the reset line; each transition has a guard, a
  statement about what has last been read back.
\<close>

section \<open>The abstract machine\<close>

datatype radio_phase = Idle | Under_reset | Powered | Released | Closing

datatype radio_command = Drive_low | Drive_high | Power_on | Power_off | Give_back

text \<open>
  The line is driven low and read back before the power is switched on; it is released only while the radio is
  powered and requests the clock. The power is switched off only with the line driven low again, and the
  configuration of the pin is given back when the radio is verified off, or was never switched on.
\<close>

inductive radio_step :: "event list \<Rightarrow> radio_phase \<Rightarrow> radio_command \<Rightarrow> radio_phase \<Rightarrow> bool" for t where
  take: "radio_step t Idle Drive_low Under_reset"
| power: "known_reg PIN_PERST t = Some 0x76202 \<Longrightarrow> radio_step t Under_reset Power_on Powered"
| release: "known_reg PMU_WL_REG_ON t = Some 2 \<Longrightarrow> known_reg PIN_PERST t = Some 0x76202 \<Longrightarrow>
    known_reg PIN_CLKREQ t = Some 0x76220 \<Longrightarrow> radio_step t Powered Drive_high Released"
| reset: "radio_step t Released Drive_low Powered"
| unpower: "radio_step t Powered Power_off Closing"
| give: "radio_step t Under_reset Give_back Idle"
| close: "known_reg PMU_WL_REG_ON t = Some 0 \<Longrightarrow> radio_step t Closing Give_back Idle"

inductive_simps radio_step_simps [simp]:
  "radio_step t p Drive_low q" "radio_step t p Drive_high q" "radio_step t p Power_on q"
  "radio_step t p Power_off q" "radio_step t p Give_back q"

text \<open>The command of an event, and the runs of the machine along a history.\<close>

fun radio_command_of :: "event \<Rightarrow> radio_command option" where
  "radio_command_of (Call (Gpio (GpiodDirectionOutputRaw g v)) r) = Some (if v = 0 then Drive_low else Drive_high)"
| "radio_command_of (Call (Regmap (RegmapWrite m p v)) r) =
     (if p = PMU_WL_REG_ON then Some (if v = 0 then Power_off else Power_on)
      else if p = PIN_PERST then Some Give_back else None)"
| "radio_command_of _ = None"

inductive radio_run :: "event list \<Rightarrow> radio_phase \<Rightarrow> bool" where
  start: "radio_run [] Idle"
| other: "radio_run t p \<Longrightarrow> radio_command_of e = None \<Longrightarrow> radio_run (e # t) p"
| step: "radio_run t p \<Longrightarrow> radio_command_of e = Some c \<Longrightarrow> radio_step t p c q \<Longrightarrow> radio_run (e # t) q"

inductive_cases radio_run_ConsE: "radio_run (e # t) q"

lemma radio_run_Cons [simp]:
  "radio_run (e # t) q \<longleftrightarrow>
     (case radio_command_of e of None \<Rightarrow> radio_run t q | Some c \<Rightarrow> \<exists>p. radio_run t p \<and> radio_step t p c q)"
proof
  show "radio_run (e # t) q \<Longrightarrow> case radio_command_of e of None \<Rightarrow> radio_run t q | Some c \<Rightarrow> \<exists>p. radio_run t p \<and> radio_step t p c q"
    by (erule radio_run_ConsE) auto
qed (auto intro: radio_run.intros split: option.splits)

text \<open>The machine is deterministic: a history is in at most one phase.\<close>

lemma radio_step_deterministic: "radio_step t p c q \<Longrightarrow> radio_step t p c q' \<Longrightarrow> q = q'"
  by (cases c) auto

lemma radio_run_deterministic: "radio_run t p \<Longrightarrow> radio_run t q \<Longrightarrow> p = q"
  by (induction t arbitrary: p q) (auto elim: radio_run.cases dest: radio_step_deterministic split: option.splits)

lemma radio_run_append:
  "list_all (\<lambda>e. radio_command_of e = None) new \<Longrightarrow> radio_run (new @ t) p = radio_run t p"
  by (induction new) auto


section \<open>The stage of the radio\<close>

text \<open>Programs without commands stay in the phase.\<close>

lemma wp_no_command:
  assumes "emits (\<lambda>e. radio_command_of e = None) m" and "radio_run (trace s) p"
    and "\<And>r (s' :: machine). radio_run (trace s') p \<Longrightarrow> Q r s'"
  shows "wp m Q s"
  by (rule wp_frame [OF assms(1)]) (use assms(2) radio_run_append in \<open>auto intro!: assms(3)\<close>)

lemma ordinary_no_command: "ordinary e \<Longrightarrow> radio_command_of e = None"
  by (auto simp: ordinary_def elim!: radio_command_of.elims split: event.splits call.splits)

lemma scan_event_no_command: "scan_event b e \<Longrightarrow> radio_command_of e = None"
  using ordinary_no_command [of e]
  by (auto simp: scan_event_def starts_firmware_def split: event.splits call.splits)

text \<open>
  The contract of an observer: called with the radio powered under reset, it ends in the same phase.
\<close>

definition powered :: "event list \<Rightarrow> bool" where
  "powered t \<longleftrightarrow> radio_run t Powered \<and> known_reg PMU_WL_REG_ON t = Some 2 \<and> known_reg PIN_PERST t = Some 0x76202"

definition observer_returns :: "observer \<Rightarrow> bool" where
  "observer_returns f \<longleftrightarrow> (\<forall>c r m. takes powered (\<lambda>t. radio_run t Powered) (f c r m))"

lemma observe_held_radio_returns: "observer_returns (observe_held_radio K hz fuel opt)"
proof -
  have train: "emits (\<lambda>e. radio_command_of e = None) (train_and_identify K hz fuel opt port control)" for port control
    by (rule emits_mono [OF scan_event_train scan_event_no_command])
  show ?thesis
    unfolding observer_returns_def observe_held_radio_def powered_def
    by (intro allI takesI wp_rules wp_no_command [OF train]) auto
qed

lemma wp_radio_power_stage_protocol:
  assumes "observer_returns f" and "radio_run (trace s) Idle"
    and "\<And>r touched s'. radio_run (trace s') (if touched then Powered else Under_reset) \<Longrightarrow> Q (r, touched) s'"
  shows "wp (radio_power_stage K g p reset (Some f) ctx) Q s"
proof -
  have f: "wp (f ctx reset g) R t" if "powered (trace t)" "\<And>r t'. radio_run (trace t') Powered \<Longrightarrow> R r t'" for R t
    using assms(1) that unfolding observer_returns_def by (blast intro: wp_takes)
  show ?thesis
    unfolding radio_power_stage_def option.case
    by (intro wp_rules f assms(3)) (use assms(2) in \<open>simp_all add: powered_def\<close>)
qed

lemma wp_radio_restore_protocol:
  assumes "ps = 0" and "radio_run (trace s) (if touched then Powered else Under_reset)"
    and "\<And>r s'. radio_run (trace s') Idle \<or> r \<noteq> 0 \<and> radio_run (trace s') Closing \<Longrightarrow> Q r s'"
  shows "wp (radio_restore K g p rs ps touched r0) Q s"
  unfolding radio_restore_def
  by (intro wp_rules assms(3)) (use assms(1,2) in auto)

definition at_rest :: "event list \<Rightarrow> int \<Rightarrow> bool" where
  "at_rest t r \<longleftrightarrow> radio_run t Idle \<or> r \<noteq> 0 \<and> radio_run t Closing"

lemma wp_radio_pulse_locked_protocol:
  assumes "observer_returns f" and "radio_run (trace s) Idle" and "\<And>r s'. at_rest (trace s') r \<Longrightarrow> Q r s'"
  shows "wp (radio_pulse_locked K gd pmu True (Some f) ctx) Q s"
proof -
  have devs: "emits (\<lambda>e. radio_command_of e = None) (radio_devices_bound K gd pmu)"
    by (intro emits_rules) simp_all
  show ?thesis
    unfolding radio_pulse_locked_def
    by (intro wp_rules wp_no_command [OF devs] wp_radio_power_stage_protocol [OF assms(1)] wp_radio_restore_protocol assms(3))
      (use assms(2) in \<open>simp_all add: at_rest_def\<close>)
qed

lemma wp_radio_pulse_protocol:
  assumes "observer_returns f" and "radio_run (trace s) Idle" and "\<And>r s'. at_rest (trace s') r \<Longrightarrow> Q r s'"
  shows "wp (a1625_radio_pulse K True (Some f) ctx) Q s"
proof -
  have board: "emits (\<lambda>e. radio_command_of e = None) (is_j42d_t7000 K)"
    by (intro emits_rules) simp_all
  show ?thesis
    unfolding a1625_radio_pulse_def
    by (intro wp_no_command [OF board] wp_radio_pulse_locked_protocol [OF assms(1)] wp_rules assms(3))
      (use assms(2) in \<open>simp_all add: at_rest_def\<close>)
qed

section \<open>The module\<close>

lemma stage_event_no_command:
  "tree_event e \<Longrightarrow> radio_command_of e = None" "msi_event port e \<Longrightarrow> radio_command_of e = None"
  "phy_event e \<Longrightarrow> radio_command_of e = None" "domain_event e \<Longrightarrow> radio_command_of e = None"
  by (auto simp: tree_event_def msi_event_def phy_event_def domain_event_def elim!: radio_command_of.elims
      split: event.splits call.splits regmap_call.splits)

lemma closed_phase: "(\<And>e. P e \<Longrightarrow> radio_command_of e = None) \<Longrightarrow> closed P (\<lambda>t. radio_run t p)"
  and closed_phases: "(\<And>e. P e \<Longrightarrow> radio_command_of e = None) \<Longrightarrow> closed P (\<lambda>t. radio_run t p \<or> radio_run t q)"
  by (auto simp: closed_def)

lemma observation_protocol:
  assumes "\<not> options_rejected opt"
  shows "takes (\<lambda>t. radio_run t Idle) (\<lambda>t. radio_run t Idle \<or> radio_run t Closing) (run_domain_observation K hz fuel page_size opt ctx)"
proof -
  let ?P = "\<lambda>e. radio_command_of e = None"
  note quiet = emits_mono [OF ordinary_snapshots(1) ordinary_no_command] emits_mono [OF ordinary_snapshots(2) ordinary_no_command]
    emits_mono [OF ordinary_dart_map ordinary_no_command]
  have pulse: "takes (\<lambda>t. radio_run t Idle) (\<lambda>t. radio_run t Idle \<or> radio_run t Closing)
      (a1625_radio_pulse K True (Some (observe_held_radio K hz fuel opt)) port)" for port
    by (intro takesI wp_radio_pulse_protocol [OF observe_held_radio_returns]) (auto simp: at_rest_def)
  have "takes (\<lambda>t. radio_run t Idle) (\<lambda>t. radio_run t Idle \<or> radio_run t Closing) (observe_ready_phy K hz fuel page_size opt port c)" for port c
    by (rule observe_ready_phy_takes [where P = ?P])
      (simp_all add: assms pulse closed_phase closed_phases stage_event_no_command quiet)
  then show ?thesis
    unfolding run_domain_observation_def snapshot_registers_def
    by (intro phy_bracket.stage_takes closed_phase closed_phases stage_event_no_command) (auto simp: client2_def)
qed

text \<open>
  C3. Refinement: on every run of the module, whatever fails, the writes to the power register, the drives of the
  reset line and the writes to its pin configuration are a run of the abstract machine, guards included. It ends
  at rest, or in \<open>Closing\<close>: the radio has been told to power off, but that could not be verified, so the pin
  keeps holding it in reset.
\<close>

theorem module_refines_protocol:
  assumes "run_state (a1625_pcie_domains_init K hz fuel page_size opt) s = (r, s')" and "radio_run (trace s) Idle"
  shows "radio_run (trace s') Idle \<or> radio_run (trace s') Closing"
proof -
  have "takes (\<lambda>t. radio_run t Idle) (\<lambda>t. radio_run t Idle \<or> radio_run t Closing) (a1625_pcie_domains_init K hz fuel page_size opt)"
    by (intro module_takes closed_phase closed_phases stage_event_no_command observation_protocol) auto
  then show ?thesis using assms by (rule takes_run)
qed

theorem module_refines_protocol_witness:
  "radio_run (trace (snd (run_state (a1625_pcie_domains_init board 250 1 4096 firmware_options) boot))) Idle \<or>
   radio_run (trace (snd (run_state (a1625_pcie_domains_init board 250 1 4096 firmware_options) boot))) Closing"
  by (rule module_refines_protocol [OF run_split [OF refl]]) (simp add: radio_run.start)

end
