(* ===== verification/ObserverSafety.thy ===== *)
theory ObserverSafety
  imports ModuleMaster ScanRestore
begin

text \<open>
  The observers by themselves: the walk through the EROM against a parser of its words, the reset line during
  link training, and the restoration of what the snapshots of chip and endpoint change.
\<close>

section \<open>The walk through the EROM\<close>

text \<open>
  The reference: the words of the page as a list. A component is a word of the pattern \<open>4bf....1\<close>, followed by
  a word that ends in 1; its core number is in bits 8 to 19. A word that ends in \<open>f\<close> ends the table, a dead word
  or a component without its second word makes it unreadable. The result tells whether the end was found, and
  the core numbers in the order of the table.
\<close>

fun erom_cores :: "u32 list \<Rightarrow> (bool \<times> u32 list) option" where
  "erom_cores [] = Some (False, [])"
| "erom_cores (w # ws) =
     (if w = all_ones then None
      else if w AND 0xf = 0xf then Some (True, [])
      else if w AND 0xfff0000f \<noteq> 0x4bf00001 then erom_cores ws
      else case ws of
          [] \<Rightarrow> None
        | v # vs \<Rightarrow>
            if v AND 0xf \<noteq> 1 then None
            else case erom_cores vs of
                None \<Rightarrow> None
              | Some (ended, cores) \<Rightarrow> Some (ended, (drop_bit 8 w AND 0xfff) # cores))"

definition erom_summary :: "u32 \<Rightarrow> u32 \<Rightarrow> (bool \<times> u32 list) option \<Rightarrow> (bool \<times> u32 \<times> u32) option" where
  "erom_summary components pcie found =
     (case found of
        None \<Rightarrow> None
      | Some (ended, cores) \<Rightarrow>
          Some (ended, components + of_nat (length cores), pcie + of_nat (count_list cores 0x83c)))"

definition erom_word :: "(u64 \<Rightarrow> u32) \<Rightarrow> u64 \<Rightarrow> event list \<Rightarrow> nat \<Rightarrow> u32" where
  "erom_word init bar t i = mmio_at init t (bar + of_nat (4 * i))"

definition erom_page :: "(u64 \<Rightarrow> u32) \<Rightarrow> u64 \<Rightarrow> event list \<Rightarrow> u32 list" where
  "erom_page init bar t = map (erom_word init bar t) [0 ..< 0x400]"

lemma erom_word_read [simp]: "erom_word init bar (Call (Mmio (Readl a)) r # t) i = erom_word init bar t i"
  by (simp add: erom_word_def)

lemma reads_word: "k < 0x400 \<Longrightarrow> reads_below bar 0x1000 (Call (Mmio (Readl (bar + of_nat (4 * k)))) r)"
proof -
  assume "k < 0x400"
  then have "unat (of_nat (4 * k) :: u64) = 4 * k" by (simp only: unat_of_nat) simp
  with \<open>k < 0x400\<close> show ?thesis by (simp add: reads_below_def word_less_nat_alt)
qed

lemma erom_cores_step:
  "k < 0x400 \<Longrightarrow> map w [k ..< 0x400] = w k # map w [Suc k ..< 0x400]"
  by (simp add: upt_rec)

lemma wp_erom_walk:
  assumes "register_file init A K" and "\<And>i. i < 0x400 \<Longrightarrow> A (bar + of_nat (4 * i))"
    and "k \<le> 0x400" and "\<And>i. erom_word init bar (trace s) i = w i"
    and "\<And>s'. short_walk bar 0x1000 (0x400 - k) s s' \<Longrightarrow> Q (erom_summary c p (erom_cores (map w [k ..< 0x400]))) s'"
  shows "wp (erom_walk K bar (4 * k) c p) Q s"
  using assms(3-)
proof (induction "0x400 - k" arbitrary: k c p s rule: less_induct)
  case less
  show ?case
  proof (cases "k < 0x400")
    case False
    with less.prems show ?thesis
      by (subst erom_walk.simps) (auto intro!: wp_rules less.prems simp: erom_summary_def short_walk_refl)
  next
    case True
    define addr where "addr i = bar + of_nat (4 * i)" for i
    have read: "wp (readl K (addr i)) R t"
      if "i < 0x400" "erom_word init bar (trace t) i = w i" "\<And>r. R (w i) (t\<lparr>trace := Call (Mmio (Readl (addr i))) r # trace t\<rparr>)" for i R t
      unfolding addr_def by (rule wp_readl_register_file [OF assms(1,2)]) (use that in \<open>simp_all add: erom_word_def addr_def\<close>)
    have offsets: "4 * k + 4 = 4 * Suc k" "4 * k + 8 = 4 * Suc (Suc k)" by simp_all
    have one: "Q x s'"
      if "short_walk bar 0x1000 n (s\<lparr>trace := Call (Mmio (Readl (addr k))) r # trace s\<rparr>) s'" "Suc n \<le> 0x400 - k"
        and "x = erom_summary c p (erom_cores (map w [k ..< 0x400]))" for x n r s'
      unfolding that(3)
      by (rule less.prems, rule short_walk_mono [OF short_walk_step [OF that(1)] that(2)]) (simp only: addr_def reads_word True)
    have two: "Q x s'"
      if "short_walk bar 0x1000 n (s\<lparr>trace := Call (Mmio (Readl (addr (Suc k)))) r' # Call (Mmio (Readl (addr k))) r # trace s\<rparr>) s'"
        and "Suc (Suc n) \<le> 0x400 - k" and "x = erom_summary c p (erom_cores (map w [k ..< 0x400]))" for x n r r' s'
      unfolding that(3)
      by (rule less.prems, rule short_walk_mono [OF short_walk_step2 [OF that(1)] that(2)])
        (use that(2) in \<open>simp_all only: addr_def reads_word\<close>)
    let ?s1 = "\<lambda>r. s\<lparr>trace := Call (Mmio (Readl (addr k))) r # trace s\<rparr>"
    have two': "Q x s'"
      if "short_walk bar 0x1000 n ((?s1 r)\<lparr>trace := Call (Mmio (Readl (addr (Suc k)))) r' # trace (?s1 r)\<rparr>) s'"
        and "Suc (Suc n) \<le> 0x400 - k" and "x = erom_summary c p (erom_cores (map w [k ..< 0x400]))" for x n r r' s'
      by (rule two [OF _ that(2,3)]) (use that(1) in simp)
    note page = erom_cores_step [OF True, of w] erom_cores_step [of "Suc k" w]
    have stop: "Q x (s\<lparr>trace := Call (Mmio (Readl (addr k))) r # trace s\<rparr>)"
      "k < 0x3ff \<Longrightarrow> Q x (s\<lparr>trace := Call (Mmio (Readl (addr (Suc k)))) r' # Call (Mmio (Readl (addr k))) r # trace s\<rparr>)"
      if "x = erom_summary c p (erom_cores (map w [k ..< 0x400]))" for x r r'
      by (rule one [OF short_walk_refl _ that], use True in linarith) (rule two [OF short_walk_refl _ that], linarith)
    show ?thesis
      unfolding erom_walk.simps [of K bar "4 * k"] offsets addr_def [symmetric]
      by (intro read less.hyps wp_rules; (erule one | erule two')?)
        (use True in \<open>simp_all add: less.prems stop page erom_summary_def split: option.splits\<close>)
  qed
qed

text \<open>
  C19. The EROM walk is the parser: on registers that hold what they hold, the walk over the page ends with exactly
  what parsing the page's 1024 words says, the end of the table, the number of components and the number of PCIe
  cores \<open>83c\<close>, and it reads at most once per word and only inside the page.
\<close>

theorem erom_walk_parses:
  assumes "run_state (erom_walk K bar 0 0 0) s = (res, s')"
    and "register_file init A K" and "\<And>i. i < 0x400 \<Longrightarrow> A (bar + of_nat (4 * i))"
  shows "res = erom_summary 0 0 (erom_cores (erom_page init bar (trace s))) \<and> short_walk bar 0x1000 0x400 s s'"
proof -
  have "wp (erom_walk K bar (4 * 0) 0 0) (\<lambda>res s'. res = erom_summary 0 0 (erom_cores (erom_page init bar (trace s))) \<and>
      short_walk bar 0x1000 0x400 s s') s"
    by (rule wp_erom_walk [OF assms(2,3) _ refl]) (simp_all add: erom_page_def)
  from wp_run [OF this] assms(1) show ?thesis by simp
qed

theorem erom_walk_parses_witness:
  "fst (run_state (erom_walk board 0x600000000 0 0 0) boot) = erom_summary 0 0 (erom_cores (erom_page board_init 0x600000000 []))"
  using erom_walk_parses [OF run_split [OF refl] board_register_file, where s = boot] by simp

end
