(* ===== verification/SmallProbes.thy ===== *)
theory SmallProbes
  imports RadioPulse
begin

text \<open>
  The three small modules of wifi/pmu-probe: a1625_pmu_probe.c reads the register that powers the radio,
  a1625_gpio_probe.c reads three PCIe control pins, a1625_power_probe.c wraps the radio pulse without an
  observer. Each is an initialization that never returns 0, so the kernel unloads it at once.
\<close>

section \<open>Model\<close>

text \<open>Between the device lock and the label \<open>out\<close>.\<close>

definition pmu_read_locked :: "kernel \<Rightarrow> ptr \<Rightarrow> int prog" where
  "pmu_read_locked K client = do {
     a \<leftarrow> i2c_client_addr K client;
     if a \<noteq> 0x74 then return (- ENODEV) else do {
     bound \<leftarrow> dev_driver K client;
     if \<not> bound then return (- ENODEV) else do {
     m \<leftarrow> dev_get_regmap K client;
     if m = 0 then return (- ENODEV) else do {
     (r, value) \<leftarrow> regmap_read K m PMU_WL_REG_ON;
     return r
     }}}
   }"

definition a1625_pmu_probe_init :: "kernel \<Rightarrow> int prog" where
  "a1625_pmu_probe_init K = do {
     board \<leftarrow> is_j42d_t7000 K;
     if \<not> board then return (- ENODEV) else do {
     node \<leftarrow> of_find_node_by_path K ''/soc/i2c@20a110000/pmic@74'';
     if node = 0 then return (- ENODEV) else do {
     ok \<leftarrow> of_device_is_compatible K node ''apple,i2c-pmic'';
     if \<not> ok then do { of_node_put K node; return (- ENODEV) } else do {
     client \<leftarrow> of_find_i2c_device_by_node K node;
     of_node_put K node;
     if client = 0 then return (- ENODEV) else do {
     device_lock K client;
     r \<leftarrow> pmu_read_locked K client;
     device_unlock K client;
     put_device K client;
     return (if r \<noteq> 0 then r else - ECANCELED)
     }}}}
   }"

definition probe_pins :: "u32 list" where
  "probe_pins = [77, 41, 63]"

fun read_pins :: "kernel \<Rightarrow> ptr \<Rightarrow> u32 list \<Rightarrow> int prog" where
  "read_pins K m [] = return 0"
| "read_pins K m (pin # pins) = do {
     (r, cached) \<leftarrow> regmap_read K m (4 * pin);
     if r \<noteq> 0 then return r else do {
     (r, live) \<leftarrow> regmap_read_bypassed K m (4 * pin);
     if r \<noteq> 0 then return r else read_pins K m pins
     }
   }"

text \<open>Between the device lock and the label \<open>out\<close>.\<close>

definition gpio_read_locked :: "kernel \<Rightarrow> ptr \<Rightarrow> int prog" where
  "gpio_read_locked K pdev = do {
     bound \<leftarrow> dev_driver K pdev;
     if \<not> bound then return (- ENODEV) else do {
     m \<leftarrow> dev_get_regmap K pdev;
     if m = 0 then return (- ENODEV) else read_pins K m probe_pins
     }
   }"

definition a1625_gpio_probe_init :: "kernel \<Rightarrow> int prog" where
  "a1625_gpio_probe_init K = do {
     board \<leftarrow> is_j42d_t7000 K;
     if \<not> board then return (- ENODEV) else do {
     node \<leftarrow> of_find_node_by_path K ''/soc/pinctrl@20e300000'';
     if node = 0 then return (- ENODEV) else do {
     ok \<leftarrow> of_device_is_compatible K node ''apple,t7000-pinctrl'';
     if \<not> ok then do { of_node_put K node; return (- ENODEV) } else do {
     pdev \<leftarrow> of_find_device_by_node K node;
     of_node_put K node;
     if pdev = 0 then return (- ENODEV) else do {
     device_lock K pdev;
     r \<leftarrow> gpio_read_locked K pdev;
     device_unlock K pdev;
     put_device K pdev;
     return (if r \<noteq> 0 then r else - ECANCELED)
     }}}}
   }"

definition a1625_power_probe_init :: "kernel \<Rightarrow> bool \<Rightarrow> int prog" where
  "a1625_power_probe_init K pulse = do {
     r \<leftarrow> a1625_radio_pulse K pulse None 0;
     return (if r \<noteq> 0 then r else - ECANCELED)
   }"

section \<open>Register maps are used under the lock of their device\<close>

text \<open>Whether the last call about the lock of \<open>d\<close> took it.\<close>

fun is_locked :: "event list \<Rightarrow> ptr \<Rightarrow> bool" where
  "is_locked [] d = False"
| "is_locked (e # t) d =
     (case e of
        Call (Dev (DeviceLock x)) _ \<Rightarrow> x = d \<or> is_locked t d
      | Call (Dev (DeviceUnlock x)) _ \<Rightarrow> x \<noteq> d \<and> is_locked t d
      | _ \<Rightarrow> is_locked t d)"

fun regmap_of :: "regmap_call \<Rightarrow> ptr" where
  "regmap_of (RegmapRead m _) = m"
| "regmap_of (RegmapReadBypassed m _) = m"
| "regmap_of (RegmapWrite m _ _) = m"
| "regmap_of (RegmapUpdateBits m _ _ _) = m"
| "regmap_of (RegmapReadPollTimeout m _ _ _) = m"

text \<open>Whether a driver was seen at \<open>d\<close> since its lock was taken last, and the devices \<open>m\<close> was obtained from.\<close>

fun driver_seen :: "event list \<Rightarrow> ptr \<Rightarrow> bool" where
  "driver_seen [] d = False"
| "driver_seen (e # t) d =
     (case e of
        Call (Dev (DevDriver x)) r \<Rightarrow> if x = d then r_val r \<noteq> 0 else driver_seen t d
      | Call (Dev (DeviceLock x)) _ \<Rightarrow> if x = d then False else driver_seen t d
      | _ \<Rightarrow> driver_seen t d)"

fun regmap_devices :: "event list \<Rightarrow> ptr \<Rightarrow> ptr list" where
  "regmap_devices [] m = []"
| "regmap_devices (e # t) m =
     (case e of
        Call (Dev (DevGetRegmap x)) r \<Rightarrow> if r_val r = m then x # regmap_devices t m else regmap_devices t m
      | _ \<Rightarrow> regmap_devices t m)"

definition map_held :: "event list \<Rightarrow> ptr \<Rightarrow> bool" where
  "map_held t m \<longleftrightarrow> list_ex (\<lambda>d. is_locked t d \<and> driver_seen t d) (regmap_devices t m)"

text \<open>Each access goes to the map of a device whose lock is held and whose driver was seen under that lock.\<close>

fun regmap_locked :: "event list \<Rightarrow> bool" where
  "regmap_locked [] = True"
| "regmap_locked (e # t) =
     (regmap_locked t \<and>
      (case e of
         Call (Regmap c) _ \<Rightarrow> map_held t (regmap_of c)
       | _ \<Rightarrow> True))"

text \<open>Calls that say nothing about locks, drivers and maps; accesses to a held map keep it held.\<close>

definition lock_event :: "event \<Rightarrow> bool" where
  "lock_event e \<longleftrightarrow> (case e of Call (Dev _) _ \<Rightarrow> True | Call (Regmap _) _ \<Rightarrow> True | _ \<Rightarrow> False)"

lemma map_held_Cons [simp]:
  "map_held (Call (Regmap c) r # t) m = map_held t m"
  "map_held (Call (Gpio gc) r # t) m = map_held t m"
  "map_held (Call (Time tc) r # t) m = map_held t m"
  "map_held (Call (Dev (DevGetRegmap d)) r # t) m = (r_val r = m \<and> is_locked t d \<and> driver_seen t d \<or> map_held t m)"
  by (simp_all add: map_held_def)

lemma wp_regmap_locked_frame:
  assumes "emits (\<lambda>e. \<not> lock_event e) m" and "regmap_locked (trace s)"
    and "\<And>r (s' :: machine). regmap_locked (trace s') \<Longrightarrow> Q r s'"
  shows "wp m Q s"
proof (rule wp_frame [OF assms(1)])
  fix r new and s' :: machine
  assume "list_all (\<lambda>e. \<not> lock_event e) new" and "trace s' = new @ trace s"
  moreover have "list_all (\<lambda>e. \<not> lock_event e) new \<Longrightarrow> regmap_locked (new @ trace s)"
    using assms(2) by (induction new) (auto simp: lock_event_def split: event.splits call.splits)
  ultimately show "Q r s'" by (auto intro: assms(3))
qed

text \<open>A program that uses one held map only.\<close>

definition uses_map :: "ptr \<Rightarrow> event \<Rightarrow> bool" where
  "uses_map m e \<longleftrightarrow> (case e of Call (Regmap c) _ \<Rightarrow> regmap_of c = m | _ \<Rightarrow> False)"

lemma wp_uses_map:
  assumes "emits (uses_map m) p" and "regmap_locked (trace s)" and "map_held (trace s) m"
    and "\<And>r (s' :: machine). regmap_locked (trace s') \<Longrightarrow> Q r s'"
  shows "wp p Q s"
proof (rule wp_frame [OF assms(1)])
  fix r new and s' :: machine
  assume "list_all (uses_map m) new" and "trace s' = new @ trace s"
  moreover have "list_all (uses_map m) new \<Longrightarrow> regmap_locked (new @ trace s) \<and> map_held (new @ trace s) m"
    using assms(2,3) by (induction new) (auto simp: uses_map_def split: event.splits call.splits)
  ultimately show "Q r s'" by (auto intro: assms(4))
qed

lemma wp_board_locked:
  assumes "regmap_locked (trace s)" and "\<And>r s'. regmap_locked (trace s') \<Longrightarrow> Q r s'"
  shows "wp (is_j42d_t7000 K) Q s"
  by (rule wp_regmap_locked_frame [OF _ assms], intro emits_rules) (simp add: lock_event_def)

lemma read_pins_emits [emits_rules]:
  assumes "\<And>pin r. P (Call (Regmap (RegmapRead m pin)) r)" and "\<And>pin r. P (Call (Regmap (RegmapReadBypassed m pin)) r)"
  shows "emits P (read_pins K m pins)"
  by (induction pins) (auto intro!: emits_rules assms)

lemma wp_pmu_probe_locked:
  "regmap_locked (trace s) \<Longrightarrow> wp (a1625_pmu_probe_init K) (\<lambda>_ s'. regmap_locked (trace s')) s"
  unfolding a1625_pmu_probe_init_def pmu_read_locked_def
  by (intro wp_board_locked wp_rules) simp_all

lemma wp_gpio_probe_locked:
  assumes "regmap_locked (trace s)"
  shows "wp (a1625_gpio_probe_init K) (\<lambda>_ s'. regmap_locked (trace s')) s"
proof -
  have pins: "emits (uses_map m) (read_pins K m probe_pins)" for m
    by (intro emits_rules) (simp_all add: uses_map_def)
  show ?thesis
    unfolding a1625_gpio_probe_init_def gpio_read_locked_def
    by (intro wp_board_locked wp_rules wp_uses_map [OF pins] assms) simp_all
qed

text \<open>The radio pulse without an observer, from the locks on.\<close>

lemma wp_radio_stage_held:
  assumes "regmap_locked (trace s)" "map_held (trace s) g" "map_held (trace s) p"
    "\<And>x s'. regmap_locked (trace s') \<Longrightarrow> map_held (trace s') g \<Longrightarrow> map_held (trace s') p \<Longrightarrow> Q x s'"
  shows "wp (radio_power_stage K g p reset None c) Q s"
  unfolding radio_power_stage_def option.case
  by (intro wp_rules assms(4)) (use assms(1-3) in simp_all)

lemma wp_radio_restore_held:
  assumes "regmap_locked (trace s)" "map_held (trace s) g" "map_held (trace s) p" "\<And>x s'. regmap_locked (trace s') \<Longrightarrow> Q x s'"
  shows "wp (radio_restore K g p rs ps touched r0) Q s"
  unfolding radio_restore_def
  by (intro wp_rules assms(4)) (use assms(1-3) in simp_all)

lemma wp_radio_pulse_locked_held:
  assumes "regmap_locked (trace s)" "is_locked (trace s) gd" "is_locked (trace s) pmu" "\<And>x s'. regmap_locked (trace s') \<Longrightarrow> Q x s'"
  shows "wp (radio_pulse_locked K gd pmu pulse None c) Q s"
proof -
  have bound: "wp (radio_devices_bound K gd pmu) R s"
    if "\<And>r (s' :: machine). regmap_locked (trace s') \<Longrightarrow> is_locked (trace s') gd \<Longrightarrow> is_locked (trace s') pmu \<Longrightarrow>
      (r \<longrightarrow> driver_seen (trace s') gd \<and> driver_seen (trace s') pmu) \<Longrightarrow> R r s'" for R
    unfolding radio_devices_bound_def by (intro wp_rules that) (use assms(1-3) in simp_all)
  show ?thesis
    unfolding radio_pulse_locked_def
    by (intro bound wp_radio_stage_held wp_radio_restore_held wp_rules assms(4)) simp_all
qed

lemma wp_power_probe_locked:
  assumes "regmap_locked (trace s)"
  shows "wp (a1625_power_probe_init K pulse) (\<lambda>_ s'. regmap_locked (trace s')) s"
  unfolding a1625_power_probe_init_def a1625_radio_pulse_def
  by (intro wp_board_locked wp_radio_pulse_locked_held wp_rules assms) simp_all

lemma wp_result: "wp m Q s \<Longrightarrow> Q (fst (run_state m s)) (snd (run_state m s))"
  by (simp add: wp_def case_prod_beta)

section \<open>What is read, and what the status says\<close>

definition regmap_event :: "event \<Rightarrow> bool" where
  "regmap_event e \<longleftrightarrow> (case e of Call (Regmap _) _ \<Rightarrow> True | _ \<Rightarrow> False)"

text \<open>
  The plan of a probe is a list of reads. Carrying it out ends with the first read that fails, whose status is
  the outcome; a plan that is done to its end is cancelled on purpose.
\<close>

fun plan_outcome :: "regmap_call list \<Rightarrow> event list \<Rightarrow> int option" where
  "plan_outcome [] [] = Some (- ECANCELED)"
| "plan_outcome (c # cs) (Call (Regmap c') r # es) =
     (if c \<noteq> c' then None
      else if r_ret r \<noteq> 0 then (if es = [] then Some (r_ret r) else None)
      else plan_outcome cs es)"
| "plan_outcome _ _ = None"

definition pmu_plan :: "ptr \<Rightarrow> regmap_call list" where
  "pmu_plan m = [RegmapRead m 0x406]"

definition pin_plan :: "ptr \<Rightarrow> u32 list \<Rightarrow> regmap_call list" where
  "pin_plan m pins = concat (map (\<lambda>pin. [RegmapRead m (4 * pin), RegmapReadBypassed m (4 * pin)]) pins)"

definition follows_plan :: "(ptr \<Rightarrow> regmap_call list) \<Rightarrow> event list \<Rightarrow> int \<Rightarrow> bool" where
  "follows_plan plan reads r \<longleftrightarrow>
     reads = [] \<and> r = - ENODEV \<or> (\<exists>m. m \<noteq> 0 \<and> plan_outcome (plan m) reads = Some r)"

text \<open>The accesses to register maps of a trace, oldest first.\<close>

definition regmap_reads :: "event list \<Rightarrow> event list" where
  "regmap_reads t = rev (filter regmap_event t)"

lemma regmap_reads_Cons [simp]:
  "regmap_reads (e # t) = regmap_reads t @ (if regmap_event e then [e] else [])"
  by (simp add: regmap_reads_def)

lemma regmap_event_simps [simp]: "regmap_event (Call (Regmap c) r)" "\<not> regmap_event (Call (Of oc) r)" "\<not> regmap_event (Call (Dev dc) r)"
  by (simp_all add: regmap_event_def)

lemma wp_board_reads:
  assumes "\<And>r s'. regmap_reads (trace s') = regmap_reads (trace s) \<Longrightarrow> Q r s'"
  shows "wp (is_j42d_t7000 K) Q s"
  unfolding is_j42d_t7000_def by (intro wp_rules assms) simp_all

lemma wp_read_pins_plan:
  assumes "\<And>r s' reads. regmap_reads (trace s') = regmap_reads (trace s) @ reads
      \<Longrightarrow> plan_outcome (pin_plan m pins) reads = Some (if r \<noteq> 0 then r else - ECANCELED) \<Longrightarrow> Q r s'"
  shows "wp (read_pins K m pins) Q s"
  using assms
proof (induction pins arbitrary: s)
  case Nil
  show ?case unfolding read_pins.simps by (intro wp_rules Nil [of _ "[]"]) (simp_all add: pin_plan_def)
next
  case (Cons pin pins)
  show ?case
    unfolding read_pins.simps
    by (intro wp_rules Cons.IH; rule Cons.prems) (simp_all add: pin_plan_def)+
qed


text \<open>
  C31. The three small modules use register maps only while they hold the lock of the device the map belongs to and
  after they have seen its driver under that lock, on every run and with or without the power pulse.
\<close>

theorem small_probes_locked:
  assumes "regmap_locked (trace s)"
  shows "regmap_locked (trace (snd (run_state (a1625_pmu_probe_init K) s))) \<and>
    regmap_locked (trace (snd (run_state (a1625_gpio_probe_init K) s))) \<and>
    regmap_locked (trace (snd (run_state (a1625_power_probe_init K pulse) s)))"
  by (intro conjI wp_result [OF wp_pmu_probe_locked] wp_result [OF wp_gpio_probe_locked] wp_result [OF wp_power_probe_locked] assms)

theorem small_probes_locked_witness:
  "regmap_locked (trace (snd (run_state (a1625_pmu_probe_init board) boot))) \<and>
   regmap_locked (trace (snd (run_state (a1625_gpio_probe_init board) boot))) \<and>
   regmap_locked (trace (snd (run_state (a1625_power_probe_init board True) boot)))"
  by (rule small_probes_locked) simp

definition harmless_load :: "int prog \<Rightarrow> machine \<Rightarrow> bool" where
  "harmless_load init s \<longleftrightarrow>
     fst (run_state init s) \<noteq> 0 \<and>
     (\<exists>new. trace (snd (run_state init s)) = new @ trace s \<and> list_all read_only new) \<and>
     (\<forall>x. held (trace (snd (run_state init s))) x = held (trace s) x)"

lemma harmless_loadI:
  assumes "emits read_only init" and "\<And>x. keeps x init" and "fst (run_state init s) \<noteq> 0"
  shows "harmless_load init s"
  using wp_result [OF emits_wp [OF assms(1)]] assms(2,3) wp_result [of init]
  unfolding harmless_load_def keeps_def by blast


end
