(* ===== verification/RunOnce.thy ===== *)
theory RunOnce
  imports Board
begin

text \<open>
  run_probe_once.c: the freestanding program that loads one probe module. It opens the file it is given,
  makes one \<open>finit_module\<close> system call, closes the file and exits. The system calls are the answers of the
  kernel parameter; the addresses that the linker gives to the string literals are the parameter \<open>A\<close>.
\<close>

section \<open>Model\<close>

abbreviation SYS_write :: u64 where "SYS_write \<equiv> 64"
abbreviation SYS_openat :: u64 where "SYS_openat \<equiv> 56"
abbreviation SYS_close :: u64 where "SYS_close \<equiv> 57"
abbreviation SYS_exit :: u64 where "SYS_exit \<equiv> 93"
abbreviation SYS_finit_module :: u64 where "SYS_finit_module \<equiv> 273"

definition syscall3 :: "kernel \<Rightarrow> u64 \<Rightarrow> u64 \<Rightarrow> u64 \<Rightarrow> u64 \<Rightarrow> u64 prog" where
  "syscall3 K nr a b c = val_call K (User (Syscall3 nr a b c))"

text \<open>\<open>MESSAGE(text)\<close> passes \<open>sizeof(text) - 1\<close>, the length of the literal.\<close>

definition message :: "kernel \<Rightarrow> (string \<Rightarrow> u64) \<Rightarrow> string \<Rightarrow> unit prog" where
  "message K A text = do { _ \<leftarrow> syscall3 K SYS_write 2 (A text) (of_nat (length text)); return () }"

text \<open>\<open>exit\<close> does not return; the result of a run is the status it passes.\<close>

definition exit_with :: "kernel \<Rightarrow> u64 \<Rightarrow> u64 prog" where
  "exit_with K code = do { _ \<leftarrow> syscall3 K SYS_exit code 0 0; return code }"

text \<open>\<open>stack\<close> is the initial stack in words: argument count, program name, arguments.\<close>

definition run :: "kernel \<Rightarrow> (string \<Rightarrow> u64) \<Rightarrow> (nat \<Rightarrow> u64) \<Rightarrow> u64 prog" where
  "run K A stack =
     (if stack 0 \<noteq> 2 \<and> stack 0 \<noteq> 3 then do {
        message K A (''usage: run_probe_once /run/path/to/probe.ko [module-options]'' @ [CHR 0x0A]);
        exit_with K 2
      } else do {
        fd \<leftarrow> syscall3 K SYS_openat (- 100) (stack 2) 0x80000;
        if fd <s 0 then do {
          message K A (''probe file open failed'' @ [CHR 0x0A]);
          exit_with K 1
        } else do {
          result \<leftarrow> syscall3 K SYS_finit_module fd (if stack 0 = 3 then stack 3 else A []) 0;
          _ \<leftarrow> syscall3 K SYS_close fd 0 0;
          if result = - 125 then do {
            message K A (''probe returned expected ECANCELED; verify kernel log and module absence'' @ [CHR 0x0A]);
            exit_with K 0
          } else do {
            message K A (''unexpected finit_module result; stopped without retry'' @ [CHR 0x0A]);
            exit_with K 1
          }
        }
      })"

section \<open>One module load, never a retry\<close>

text \<open>The system calls of a run, oldest first, with their first arguments and results.\<close>

fun syscall_of :: "event \<Rightarrow> (u64 \<times> u64 \<times> u64) list" where
  "syscall_of (Call (User (Syscall3 nr a b c)) r) = [(nr, a, r_val r)]"
| "syscall_of _ = []"

definition syscalls :: "event list \<Rightarrow> (u64 \<times> u64 \<times> u64) list" where
  "syscalls t = concat (map syscall_of (rev t))"

definition run_outcome :: "(nat \<Rightarrow> u64) \<Rightarrow> u64 \<Rightarrow> (u64 \<times> u64 \<times> u64) list \<Rightarrow> bool" where
  "run_outcome stack code calls \<longleftrightarrow> (\<exists>w x.
     stack 0 \<notin> {2, 3} \<and> code = 2 \<and> calls = [(SYS_write, 2, w), (SYS_exit, 2, x)] \<or>
     stack 0 \<in> {2, 3} \<and> (\<exists>e. e <s 0 \<and> code = 1 \<and>
       calls = [(SYS_openat, - 100, e), (SYS_write, 2, w), (SYS_exit, 1, x)]) \<or>
     stack 0 \<in> {2, 3} \<and> (\<exists>fd res c. \<not> fd <s 0 \<and> code = (if res = - 125 then 0 else 1) \<and>
       calls = [(SYS_openat, - 100, fd), (SYS_finit_module, fd, res), (SYS_close, fd, c), (SYS_write, 2, w), (SYS_exit, code, x)]))"

lemma syscalls_Cons: "syscalls (e # t) = syscalls t @ syscall_of e"
  by (simp add: syscalls_def)

text \<open>
  C33. Every run of the runner ends in one of these ways, with its exact sequence of system calls: a usage
  error or a failed open, without loading anything, or exactly one \<open>finit_module\<close> on the opened file, which is
  then closed whatever its result. The status is 0 exactly if the load was cancelled as intended, and there is
  no second attempt, neither by \<open>finit_module\<close> nor by \<open>init_module\<close>.
\<close>

theorem run_loads_once:
  assumes "run_state (run K A stack) s = (code, s')"
  shows "\<exists>calls. syscalls (trace s') = syscalls (trace s) @ calls \<and> run_outcome stack code calls"
proof -
  have "wp (run K A stack) (\<lambda>code s'. \<exists>calls. syscalls (trace s') = syscalls (trace s) @ calls \<and> run_outcome stack code calls) s"
    unfolding run_def message_def exit_with_def syscall3_def
    by (intro wp_rules) (auto simp: syscalls_Cons run_outcome_def)
  from wp_run [OF this assms] show ?thesis .
qed

theorem run_loads_once_witness:
  "\<exists>calls. syscalls (trace (snd (run_state (run board (\<lambda>_. 0) (\<lambda>_. 2)) boot))) = calls \<and>
     run_outcome (\<lambda>_. 2) (fst (run_state (run board (\<lambda>_. 0) (\<lambda>_. 2)) boot)) calls"
  using run_loads_once [OF run_split [OF refl], where s = boot] by (simp add: syscalls_def)

end
