(* ===== verification/HostTools.thy ===== *)
theory HostTools
  imports Board
begin

text \<open>
  The two C programs that run beside the modules: zram-pageout-check.c, which fills anonymous memory, has it paged
  out and compares it again, and kbuild-host-compat.h, two replacements of library functions for the Windows build.
\<close>

section \<open>The paging check\<close>

abbreviation PAGEOUT_BYTES :: u64 where "PAGEOUT_BYTES \<equiv> 128 * 1024 * 1024"
abbreviation MAP_FAILED :: u64 where "MAP_FAILED \<equiv> - 1"

text \<open>Page \<open>i\<close> is filled with \<open>i % 251\<close>.\<close>

definition page_byte :: "nat \<Rightarrow> u8" where
  "page_byte i = of_nat (i mod 251)"

definition page_at :: "u64 \<Rightarrow> nat \<Rightarrow> u64" where
  "page_at data i = data + of_nat i * 4096"

text \<open>The two loops, from page \<open>i\<close> on with \<open>n\<close> pages to go.\<close>

fun fill_pages :: "kernel \<Rightarrow> u64 \<Rightarrow> nat \<Rightarrow> nat \<Rightarrow> unit prog" where
  "fill_pages K data i 0 = return ()"
| "fill_pages K data i (Suc n) = do {
     do_call K (User (Memset (page_at data i) (page_byte i) 4096));
     fill_pages K data (Suc i) n
   }"

fun verify_pages :: "kernel \<Rightarrow> u64 \<Rightarrow> nat \<Rightarrow> nat \<Rightarrow> bool prog" where
  "verify_pages K data i 0 = return True"
| "verify_pages K data i (Suc n) = do {
     b \<leftarrow> val_call K (User (LoadByte (page_at data i)));
     if ucast b \<noteq> page_byte i then return False else verify_pages K data (Suc i) n
   }"

abbreviation PAGES :: nat where "PAGES \<equiv> 32768"

definition pageout_main :: "kernel \<Rightarrow> int prog" where
  "pageout_main K = do {
     page \<leftarrow> int_call K (User Sysconf);
     if page \<noteq> 4096 then return 2 else do {
     data \<leftarrow> val_call K (User (Mmap PAGEOUT_BYTES));
     if data = MAP_FAILED then do { do_call K (User (Perror ''mmap'')); return 3 } else do {
     fill_pages K data 0 PAGES;
     r \<leftarrow> int_call K (User (Madvise data PAGEOUT_BYTES));
     if r \<noteq> 0 then do { do_call K (User (Perror ''madvise'')); return 4 } else do {
     do_call K (User (Puts ''a1625_pageout_ready bytes=134217728 hold_seconds=20''));
     do_call K (User Fflush);
     do_call K (User (Sleep 20));
     same \<leftarrow> verify_pages K data 0 PAGES;
     if \<not> same then return 5 else do {
     r \<leftarrow> int_call K (User (Munmap data PAGEOUT_BYTES));
     if r \<noteq> 0 then return 6 else do {
     do_call K (User (Puts ''a1625_pageout_contents_verified''));
     return 0
     }}}}}
   }"

section \<open>Replacements for the Windows build\<close>

text \<open>The result and \<open>errno\<close>; no argument is looked at.\<close>

definition kbuild_copy_file_range :: "int \<Rightarrow> u64 \<Rightarrow> int \<Rightarrow> u64 \<Rightarrow> u64 \<Rightarrow> u32 \<Rightarrow> int \<times> int" where
  "kbuild_copy_file_range fd_in off_in fd_out off_out len flags = (- 1, ENOSYS)"

text \<open>\<open>mem\<close> is the memory the string lives in; a loop that finds no end is \<open>None\<close>.\<close>

partial_function (option) kbuild_strchrnul :: "(u64 \<Rightarrow> u8) \<Rightarrow> u64 \<Rightarrow> u32 \<Rightarrow> u64 option" where
  "kbuild_strchrnul mem text character =
     (if mem text \<noteq> 0 \<and> mem text \<noteq> ucast character then kbuild_strchrnul mem (text + 1) character else Some text)"

section \<open>What the paging check establishes\<close>

text \<open>
  The byte at \<open>a\<close> after the fills of a trace, and memory that keeps it, whatever is paged out meanwhile.
\<close>

fun byte_at :: "event list \<Rightarrow> u64 \<Rightarrow> u8" where
  "byte_at [] a = 0"
| "byte_at (e # t) a =
     (case e of Call (User (Memset d v n)) _ \<Rightarrow> if a - d < n then v else byte_at t a | _ \<Rightarrow> byte_at t a)"

definition keeps_bytes :: "kernel \<Rightarrow> bool" where
  "keeps_bytes K \<longleftrightarrow> (\<forall>t a. ucast (r_val (K t (User (LoadByte a)))) = byte_at t a)"

definition filled :: "event list \<Rightarrow> u64 \<Rightarrow> nat \<Rightarrow> bool" where
  "filled t data n \<longleftrightarrow> (\<forall>i<n. byte_at t (page_at data i) = page_byte i)"

definition loaded :: "event list \<Rightarrow> u64 \<Rightarrow> nat \<Rightarrow> bool" where
  "loaded t data n \<longleftrightarrow>
     (\<forall>i<n. list_ex (\<lambda>e. \<exists>r. e = Call (User (LoadByte (page_at data i))) r \<and> ucast (r_val r) = page_byte i) t)"

text \<open>The status that a failed call stands for, and that of the last one that failed.\<close>

fun failure :: "event \<Rightarrow> int" where
  "failure (Call (User Sysconf) r) = (if r_ret r \<noteq> 4096 then 2 else 0)"
| "failure (Call (User (Mmap n)) r) = (if r_val r = MAP_FAILED then 3 else 0)"
| "failure (Call (User (Madvise d n)) r) = (if r_ret r \<noteq> 0 then 4 else 0)"
| "failure (Call (User (Munmap d n)) r) = (if r_ret r \<noteq> 0 then 6 else 0)"
| "failure _ = 0"

fun last_failure :: "event list \<Rightarrow> int" where
  "last_failure [] = 0"
| "last_failure (e # t) = (if failure e \<noteq> 0 then failure e else last_failure t)"

text \<open>No page reaches into another one, although addresses may wrap around.\<close>

lemma uint_pages:
  assumes "k \<le> PAGES"
  shows "uint (of_nat k * 4096 :: u64) = int k * 4096"
proof -
  have "(of_nat k * 4096 :: u64) = word_of_int (int k * 4096)" by simp
  also have "uint \<dots> = int k * 4096"
    using assms by (subst uint_word_of_int_eq) (simp add: take_bit_int_eq_self)
  finally show ?thesis .
qed

lemma pages_apart:
  assumes "i \<le> PAGES" and "j \<le> PAGES" and "i \<noteq> j"
  shows "\<not> page_at data i - page_at data j < 4096"
proof -
  define k where "k = (if j < i then i - j else j - i)"
  have k: "0 < k" "k \<le> PAGES" "uint (of_nat k * 4096 :: u64) = int k * 4096"
    using assms uint_pages [of k] by (auto simp: k_def)
  have "uint (- (of_nat k * 4096) :: u64) = 2 ^ 64 - int k * 4096"
    using k by (simp only: uint_word_ariths) (simp add: zmod_zminus1_eq_if)
  with k have "\<not> (of_nat k * 4096 :: u64) < 4096" "\<not> (- (of_nat k * 4096) :: u64) < 4096"
    by (simp_all add: word_less_alt)
  moreover have "page_at data i - page_at data j = (of_nat i - of_nat j) * 4096"
    by (simp add: page_at_def algebra_simps)
  then have "page_at data i - page_at data j = (if j < i then of_nat k * 4096 else - (of_nat k * 4096))"
    by (simp add: k_def of_nat_diff algebra_simps)
  ultimately show ?thesis by simp
qed

lemma wp_fill_pages:
  assumes "filled (trace s) data i" and "i + n \<le> PAGES"
    and "\<And>s'. filled (trace s') data (i + n) \<Longrightarrow> last_failure (trace s') = last_failure (trace s) \<Longrightarrow> Q () s'"
  shows "wp (fill_pages K data i n) Q s"
  using assms
proof (induction n arbitrary: i s)
  case 0
  then show ?case by (simp add: wp_return)
next
  case (Suc n)
  have step: "filled (Call (User (Memset (page_at data i) (page_byte i) 4096)) r # trace s) data (Suc i)" for r
    using Suc.prems pages_apart [of _ i data] by (auto simp: filled_def less_Suc_eq)
  show ?case
    unfolding fill_pages.simps by (intro wp_rules Suc.IH) (use Suc.prems(2,3) step in auto)
qed

text \<open>Only fills change the bytes.\<close>

lemma byte_at_other: "(\<And>d v n r. e \<noteq> Call (User (Memset d v n)) r) \<Longrightarrow> byte_at (e # t) a = byte_at t a"
  by (auto split: event.splits call.splits user_call.splits)

lemma filled_Cons:
  "(\<And>d v n r. e \<noteq> Call (User (Memset d v n)) r) \<Longrightarrow> filled (e # t) data n = filled t data n"
  using byte_at_other [of e t] unfolding filled_def by simp

lemma loaded_Suc:
  "loaded t data i \<Longrightarrow> ucast (r_val r) = page_byte i
   \<Longrightarrow> loaded (Call (User (LoadByte (page_at data i))) r # t) data (Suc i)"
  by (auto simp: loaded_def less_Suc_eq)

lemma wp_load_byte:
  assumes "keeps_bytes K"
    and "\<And>r. ucast (r_val r) = byte_at (trace s) a \<Longrightarrow> Q (r_val r) (s\<lparr>trace := Call (User (LoadByte a)) r # trace s\<rparr>)"
  shows "wp (val_call K (User (LoadByte a))) Q s"
  using assms by (simp add: wp_def val_call_def kcall_def Let_def keeps_bytes_def)

lemma wp_verify_pages_loads:
  assumes "loaded (trace s) data i"
  shows "wp (verify_pages K data i n) (\<lambda>same s'. same \<longrightarrow> loaded (trace s') data (i + n)) s"
  using assms
proof (induction n arbitrary: i s)
  case 0
  then show ?case by (simp add: wp_return)
next
  case (Suc n)
  show ?case
    unfolding verify_pages.simps
    by (intro wp_rules wp_mono [OF Suc.IH]) (use Suc.prems in \<open>auto intro: loaded_Suc\<close>)
qed

lemma wp_verify_pages_keeps:
  assumes "keeps_bytes K" and "filled (trace s) data PAGES" and "i + n \<le> PAGES"
  shows "wp (verify_pages K data i n) (\<lambda>same s'. same \<and> last_failure (trace s') = last_failure (trace s)) s"
  using assms(2,3)
proof (induction n arbitrary: i s)
  case 0
  then show ?case by (simp add: wp_return)
next
  case (Suc n)
  then have same: "byte_at (trace s) (page_at data i) = page_byte i" by (simp add: filled_def)
  show ?case
    unfolding verify_pages.simps
    by (intro wp_rules wp_load_byte [OF assms(1)] wp_mono [OF Suc.IH]) (use Suc.prems same in \<open>simp_all add: filled_Cons\<close>)
qed

text \<open>
  C34. The paging check: success means that after the page-out the first byte of every one of the 32768 pages
  has been read back as it was written. If memory keeps its contents, the check never reports a
  difference (status 5): its status is that of the call that failed, and 0 if none did.
\<close>

theorem pageout_main_correct:
  assumes "run_state (pageout_main K) s = (r, s')"
  shows "(r = 0 \<longrightarrow> (\<exists>data. loaded (trace s') data PAGES)) \<and>
    (keeps_bytes K \<and> last_failure (trace s) = 0 \<longrightarrow> r = last_failure (trace s'))"
proof -
  have "wp (pageout_main K) (\<lambda>r s'. r = 0 \<longrightarrow> (\<exists>data. loaded (trace s') data PAGES)) s"
    unfolding pageout_main_def
    by (intro wp_rules wp_any [of _ "fill_pages _ _ _ _"] wp_mono [OF wp_verify_pages_loads]) (auto simp: loaded_def)
  moreover have "wp (pageout_main K) (\<lambda>r s'. r = last_failure (trace s')) s" if "keeps_bytes K" "last_failure (trace s) = 0"
    unfolding pageout_main_def
    by (intro wp_rules wp_fill_pages wp_mono [OF wp_verify_pages_keeps [OF that(1)]]) (use that(2) in \<open>auto simp: filled_def filled_Cons\<close>)
  ultimately show ?thesis using wp_run [OF _ assms] by blast
qed

text \<open>Memory at \<open>0x10000\<close> that keeps its bytes; every other call succeeds.\<close>

definition paging_kernel :: kernel where
  "paging_kernel t c =
     (case c of
        User Sysconf \<Rightarrow> Resp 4096 0 []
      | User (Mmap n) \<Rightarrow> Resp 0 0x10000 []
      | User (LoadByte a) \<Rightarrow> Resp 0 (ucast (byte_at t a)) []
      | _ \<Rightarrow> Resp 0 0 [])"

lemma paging_kernel_keeps: "keeps_bytes paging_kernel"
  by (simp add: keeps_bytes_def paging_kernel_def ucast_down_ucast_id is_down)

theorem pageout_main_correct_witness:
  "keeps_bytes paging_kernel \<and>
   fst (run_state (pageout_main paging_kernel) boot) = last_failure (trace (snd (run_state (pageout_main paging_kernel) boot)))"
  using pageout_main_correct [OF run_split [OF refl], where K = paging_kernel and s = boot] paging_kernel_keeps by simp

section \<open>Searching a string\<close>

text \<open>
  C35. \<open>strchrnul\<close> returns on every terminated string, with the address of the first occurrence of the character,
  or of the terminator if there is none; the character is converted to \<open>char\<close> first.
\<close>

theorem strchrnul_finds:
  assumes "\<And>i. i < length xs \<Longrightarrow> mem (start + of_nat i) = xs ! i" and "0 \<notin> set xs" and "mem (start + of_nat (length xs)) = 0"
  shows "kbuild_strchrnul mem start character = Some (start + of_nat (length (takeWhile (\<lambda>b. b \<noteq> ucast character) xs)))"
  using assms
proof (induction xs arbitrary: start)
  case Nil
  then show ?case by (subst kbuild_strchrnul.simps) simp
next
  case (Cons x xs)
  have first: "mem start = x" "x \<noteq> 0" using Cons.prems(1) [of 0] Cons.prems(2) by auto
  have "kbuild_strchrnul mem (start + 1) character = Some (start + 1 + of_nat (length (takeWhile (\<lambda>b. b \<noteq> ucast character) xs)))"
  proof (rule Cons.IH)
    show "mem (start + 1 + of_nat i) = xs ! i" if "i < length xs" for i
      using Cons.prems(1) [of "Suc i"] that by (simp add: algebra_simps)
  qed (use Cons.prems in \<open>simp_all add: algebra_simps\<close>)
  with first show ?case by (subst kbuild_strchrnul.simps) (simp add: algebra_simps)
qed

text \<open>The string \<open>ab=1\<close> at address \<open>0x1000\<close>, searched for \<open>=\<close>.\<close>

definition text_memory :: "u64 \<Rightarrow> u8" where
  "text_memory a = (if a = 0x1000 then 0x61 else if a = 0x1001 then 0x62 else if a = 0x1002 then 0x3d
     else if a = 0x1003 then 0x31 else 0)"

theorem strchrnul_finds_witness: "kbuild_strchrnul text_memory 0x1000 0x3d = Some 0x1002"
proof -
  have "kbuild_strchrnul text_memory 0x1000 0x3d =
    Some (0x1000 + of_nat (length (takeWhile (\<lambda>b. b \<noteq> ucast (0x3d :: u32)) [0x61, 0x62, 0x3d, 0x31 :: u8])))"
    by (rule strchrnul_finds) (auto simp: text_memory_def less_Suc_eq)
  then show ?thesis by simp
qed

end
