(* ===== verification/Spec2Isabelle.thy ===== *)
theory Spec2Isabelle
  imports ModuleRestores ScanHold RadioProtocol ObserverSafety SmallProbes RunOnce HostTools
begin

text \<open>
  A model of the C programs of a1625-linux-winboot: the Wi-Fi bring-up modules of an Apple TV (A1625, board J42d,
  SoC T7000) under windows-native/wifi/pmu-probe, the program that loads them, and two host-side helpers. The modules
  run once, from their initialization, which never returns 0: it acquires, observes, rolls everything back, and
  returns \<open>- ECANCELED\<close> or an error. Their correctness is what they leave behind and in which order they touch the
  hardware, on every path and for every answer of the kernel and the hardware.

  \<^bold>\<open>The program.\<close> The module a1625_pcie_domains.c nests six bounded lifetimes, each with a callback that runs while
  the resource is held: three power domains (a1625_pcie_domains.h), the PCIe PHY (a1625_pcie_phy.h), an MSI parent
  domain (a1625_msi.h), a DART behind a device-tree changeset (a1625_dart_lifetime.h, with a mapping check in
  a1625_dart_map.h), the powered radio (a1625_radio_pulse.h), and, from the observers of the module itself, the
  trained link, the routed bus and a PCI host bridge with filtered configuration access (a1625_pci_scan.h,
  a1625_pci_node.h), under which the radio may be handed to its driver and held. Module parameters select the stages.
  Three small modules read the power register, read the pins, and wrap the power pulse. run_probe_once.c makes the
  one system call that loads a module.

  \<^bold>\<open>The machine.\<close> Everything outside the repository, the kernel's API, the registers behind \<open>readl\<close>, the C library,
  is one parameter, a function \<open>kernel\<close> from the history and the call being made to the response (theory Machine). A
  program is a state monad over a record with the history (\<open>trace\<close>, newest call first), the two file-scope variables
  and the two driver structures that callbacks reach through pointers. The theorems hold for every such function. A
  response also carries the callbacks that the kernel runs before the call returns (configuration accesses, IRQ-domain
  operations, a driver's probe, the walk over the devices), so every sequence of callbacks is possible. Statuses are
  \<open>int\<close>, registers, offsets and counters are words of their C width. Where a theorem needs documented behaviour, it is
  a named hypothesis on the kernel: registers that store what is written (\<open>register_file\<close>), an interrupt core that
  hands out free bitmap regions (in theory Msi), memory that keeps its bytes (\<open>keeps_bytes\<close>). Theory Board is one
  concrete kernel, the board as its README records it, on which the hypotheses are shown to hold together.

  \<^bold>\<open>Library.\<close> Prelude: integers, errno values, error pointers, the rule collections. Logic: weakest preconditions
  (\<open>wp\<close>), event frames (\<open>emits\<close>), invariants (\<open>maintains\<close>), equality of runs, checked clients. Api: the kernel's functions
  under their names. Ledger: which calls acquire and release which resource, what a history holds, and the locale
  \<open>lifetime\<close> (a stage gives back what it took if its client does), interpreted for every stage. RegisterFile: contents
  of memory-mapped registers along a history, what the last access to a regmap register has established. Brackets: the
  locale \<open>bracket\<close> (what the client makes of a property of the history, the stage makes of it), interpreted for the
  five nested stages; the properties of the whole module are composed with it.

  \<^bold>\<open>Components.\<close>
  \<^item> RadioPulse (a1625_radio_pulse.h): \<open>radio_power_stage\<close> up to the label \<open>restore\<close>, \<open>radio_restore\<close> after it,
    \<open>radio_pulse_locked\<close> between the device locks, \<open>a1625_radio_pulse\<close>. A success has read both registers back; the power
    is applied under reset only. RadioProtocol: the protocol of power and reset line as an inductive state machine with
    guards, and its refinement by every run of the module.
  \<^item> PowerDomains (a1625_pcie_domains.h): one definition per loop. No PCIe register is touched unless the domains are
    resumed and were last read as active; a consumer is leaked only if its detach failed.
  \<^item> PciePhy (a1625_pcie_phy.h): the table of steps, its application and rollback as a stack. Every register of the
    block holds afterwards what it held before; each write answers a read and changes the bits of its mask only.
  \<^item> DeviceTree, DartLifetime, DartMap, PciNode (a1625_dart_lifetime.h, a1625_dart_map.h, a1625_pci_node.h): changesets,
    their order and entries, the callback under a bound driver, the mapping of one page and its lookup at both ends.
  \<^item> Msi (a1625_msi.h): the callbacks over the slot bitmap, kept at 64 bits, the lifetime and its self-check of eight
    messages. An allocation takes an aligned free region or nothing, a release undoes it, the two port registers are
    put back, and success means that nothing is mapped any more.
  \<^item> ScanConfig, PciScan (a1625_pci_scan.h): capability walks, saved controls, the two configuration accessors; the host
    bridge, identification, firmware, fault observation, hold and restoration. ScanBounds: the walks and the array of 26
    controls stay in bounds. ScanFilter: the decision of a write on every branch, against a reference. ScanInvariant: the
    locale of an invariant of the scan (what it survives, all operations of the scan survive, with any callbacks),
    interpreted in ScanSafety (no bus master bit before a driver, refused writes and strangers fail the scan) and in
    ScanPages (no write outside the two configuration pages, controls that keep their type). ScanRestore: the header
    round trip. ScanLedger: nothing leaks. ScanHold: the hold ends.
  \<^item> Observers, PcieModule (a1625_pcie_domains.c): the parameters as a record, the snapshots of DART, root port, chip and
    endpoint, link training, the sequence of the stages, the check of the options. Ordinary, ModuleSafety, ModuleMaster,
    ModuleOptions: the guarantees over the whole module. ObserverSafety: the EROM walk against a parser.
    EndpointRestore: the round trip of the chip and endpoint snapshots, the scan included. ModuleRestores: every register
    write of the module is confined to the registers it owns, and on registers that store what is written each group of
    them holds after a run of the module what it held before: put back by the stage that owns it, left alone by the rest.
  \<^item> SmallProbes (a1625_pmu_probe.c, a1625_gpio_probe.c, a1625_power_probe.c), RunOnce (run_probe_once.c), HostTools
    (zram-pageout-check.c, kbuild-host-compat.h).

  \<^bold>\<open>Bounds and fuel.\<close> Loops over fixed tables are recursions over lists, bounded loops recursions over their count:
  48 capabilities, 256 extended capabilities, 8 messages, 32768 pages; the EROM walk recurses on what is left of its
  page. The one loop without a bound of its own is the hold until a signal: \<open>hold_loop\<close> has fuel, a run that exhausts it
  is marked \<open>out_of_fuel\<close> and is not taken for a return, and ScanHold proves when the loop returns within a given fuel.
  \<open>kbuild_strchrnul\<close> is a partial function, and its return on terminated strings is proved.

  \<^bold>\<open>Not modelled.\<close> \<open>pr_info\<close> and \<open>pr_err\<close>, which only print. Concurrency with other kernel threads beyond the
  callbacks: the modules hold the device locks while they use register maps, which SmallProbes and RadioPulse model as
  calls. The assembly entry of the runner. The build scripts, the PowerShell and shell orchestration, the patches against
  the Linux kernel (whose code is not in the repository) and the uploader in Rust are not part of the C programs.
\<close>

end
